(* ===== verification/PV_Base.thy ===== *)
theory PV_Base
  imports "HOL-Library.Word"
begin

text \<open>
  Shared vocabulary of the development: bytes and Rust strings, the result type of
  fallible functions, JSON values, machine integers, instants, and the record of the
  third-party functions that the API crate calls.

  A Rust \<open>&str\<close> or \<open>String\<close> is its UTF-8 byte sequence, written as an Isabelle
  \<^typ>\<open>string\<close> (a list of 8-bit characters), so that \<open>length\<close> is Rust's \<open>len()\<close>.
  The standard-library functions that look at Unicode properties (\<open>trim\<close>,
  \<open>char::is_control\<close>, \<open>char::is_whitespace\<close>) are written on UTF-8 sequences.
\<close>

unbundle bit_operations_syntax

named_theorems laws \<open>laws of the operations a component offers to its clients\<close>

section \<open>Bytes and results\<close>

type_synonym byte = "8 word"
type_synonym bytes = "byte list"
type_synonym uuid = "128 word"

text \<open>A fallible function returns \<open>Inl\<close> of its error or \<open>Inr\<close> of its value.
  \<open>and_then\<close> is Rust's question-mark operator on such a value.\<close>

definition and_then :: "'e + 'a \<Rightarrow> ('a \<Rightarrow> 'e + 'b) \<Rightarrow> 'e + 'b" where
  "and_then r f = (case r of Inl e \<Rightarrow> Inl e | Inr a \<Rightarrow> f a)"

definition map_err :: "('e \<Rightarrow> 'f) \<Rightarrow> 'e + 'a \<Rightarrow> 'f + 'a" where
  "map_err g r = (case r of Inl e \<Rightarrow> Inl (g e) | Inr a \<Rightarrow> Inr a)"

definition ok_or :: "'e \<Rightarrow> 'a option \<Rightarrow> 'e + 'a" where
  "ok_or e x = (case x of None \<Rightarrow> Inl e | Some a \<Rightarrow> Inr a)"

definition ok :: "'e + 'a \<Rightarrow> 'a option" where
  "ok r = (case r of Inl _ \<Rightarrow> None | Inr a \<Rightarrow> Some a)"

definition ensure :: "bool \<Rightarrow> 'e \<Rightarrow> 'e + unit" where
  "ensure b e = (if b then Inr () else Inl e)"

lemma and_then_simps [simp]:
  "and_then (Inl e) f = Inl e"
  "and_then (Inr a) f = f a"
  by (simp_all add: and_then_def)

lemma and_then_Inr_iff: "and_then r f = Inr b \<longleftrightarrow> (\<exists>a. r = Inr a \<and> f a = Inr b)"
  by (cases r) auto

lemma and_then_Inl_iff: "and_then r f = Inl e \<longleftrightarrow> r = Inl e \<or> (\<exists>a. r = Inr a \<and> f a = Inl e)"
  by (cases r) auto

lemma map_err_simps [simp]:
  "map_err g (Inl e) = Inl (g e)"
  "map_err g (Inr a) = Inr a"
  by (simp_all add: map_err_def)

lemma map_err_Inr_iff [simp]: "map_err g r = Inr a \<longleftrightarrow> r = Inr a"
  by (cases r) auto

lemma map_err_Inl_iff: "map_err g r = Inl f \<longleftrightarrow> (\<exists>e. r = Inl e \<and> f = g e)"
  by (cases r) auto

lemma ok_or_simps [simp]:
  "ok_or e None = Inl e"
  "ok_or e (Some a) = Inr a"
  by (simp_all add: ok_or_def)

lemma ok_or_Inr_iff [simp]: "ok_or e x = Inr a \<longleftrightarrow> x = Some a"
  by (cases x) auto

lemma ok_simps [simp]:
  "ok (Inl e) = None"
  "ok (Inr a) = Some a"
  by (simp_all add: ok_def)

lemma ok_Some_iff [simp]: "ok r = Some a \<longleftrightarrow> r = Inr a"
  by (cases r) auto

lemma ensure_Inr_iff [simp]: "ensure b e = Inr u \<longleftrightarrow> b"
  by (simp add: ensure_def)

lemma ensure_Inl_iff [simp]: "ensure b e = Inl f \<longleftrightarrow> \<not> b \<and> e = f"
  by (auto simp: ensure_def)

lemma ensure_simps [simp]:
  "ensure True e = Inr ()"
  "ensure False e = Inl e"
  by (simp_all add: ensure_def)

lemma append_marker_inject:
  assumes "x \<notin> set xs" and "x \<notin> set xs'"
  shows "xs @ x # ys = xs' @ x # ys' \<longleftrightarrow> xs = xs' \<and> ys = ys'"
  using assms
proof (induction xs arbitrary: xs')
  case Nil
  then show ?case by (cases xs') auto
next
  case (Cons a xs)
  then show ?case by (cases xs') auto
qed

section \<open>Rust strings\<close>

definition as_bytes :: "string \<Rightarrow> bytes" where
  "as_bytes s = map of_char s"

lemma length_as_bytes [simp]: "length (as_bytes s) = length s"
  by (simp add: as_bytes_def)

lemma as_bytes_append [simp]: "as_bytes (s @ t) = as_bytes s @ as_bytes t"
  by (simp add: as_bytes_def)

lemma of_char_byte_inject: "(of_char c :: byte) = of_char d \<longleftrightarrow> c = d"
proof
  assume "(of_char c :: byte) = of_char d"
  then have "unat (of_char c :: byte) = unat (of_char d :: byte)" by simp
  moreover have "unat (of_char e :: byte) = of_char e" for e
  proof -
    have "(of_char e :: byte) = of_nat (of_char e)" by (simp only: of_nat_of_char)
    moreover have "(of_char e :: nat) < 256" by (rule nat_of_char_less_256)
    ultimately show ?thesis by (simp add: unat_of_nat)
  qed
  ultimately show "c = d" by simp
qed simp

lemma as_bytes_inject [simp]: "as_bytes s = as_bytes t \<longleftrightarrow> s = t"
  unfolding as_bytes_def by (rule inj_map_eq_map) (simp add: inj_def of_char_byte_inject)

text \<open>\<open>u8::to_ascii_lowercase\<close>, \<open>str::to_ascii_lowercase\<close>, \<open>str::eq_ignore_ascii_case\<close>.\<close>

definition lower_char :: "char \<Rightarrow> char" where
  "lower_char c =
     (if 65 \<le> (of_char c :: nat) \<and> (of_char c :: nat) \<le> 90 then char_of ((of_char c :: nat) + 32) else c)"

definition to_ascii_lowercase :: "string \<Rightarrow> string" where
  "to_ascii_lowercase s = map lower_char s"

definition eq_ignore_ascii_case :: "string \<Rightarrow> string \<Rightarrow> bool" where
  "eq_ignore_ascii_case s t \<longleftrightarrow> to_ascii_lowercase s = to_ascii_lowercase t"

definition is_ascii_lowercase :: "char \<Rightarrow> bool" where
  "is_ascii_lowercase c \<longleftrightarrow> 97 \<le> (of_char c :: nat) \<and> (of_char c :: nat) \<le> 122"

definition is_ascii_digit :: "char \<Rightarrow> bool" where
  "is_ascii_digit c \<longleftrightarrow> 48 \<le> (of_char c :: nat) \<and> (of_char c :: nat) \<le> 57"

lemma of_char_lower_char:
  "(of_char (lower_char c) :: nat) =
     (if 65 \<le> (of_char c :: nat) \<and> (of_char c :: nat) \<le> 90 then of_char c + 32 else of_char c)"
  by (auto simp: lower_char_def)

lemma lower_char_idem [simp]: "lower_char (lower_char c) = lower_char c"
proof -
  have "\<not> (65 \<le> (of_char (lower_char c) :: nat) \<and> (of_char (lower_char c) :: nat) \<le> 90)"
    by (auto simp: of_char_lower_char)
  then show ?thesis unfolding lower_char_def [of "lower_char c"] by (rule if_not_P)
qed

lemma to_ascii_lowercase_idem [simp]:
  "to_ascii_lowercase (to_ascii_lowercase s) = to_ascii_lowercase s"
  by (simp add: to_ascii_lowercase_def)

lemma length_to_ascii_lowercase [simp]: "length (to_ascii_lowercase s) = length s"
  by (simp add: to_ascii_lowercase_def)

text \<open>The UTF-8 sequences of the characters with the Unicode property White\_Space.\<close>

definition ws_chars :: "string list" where
  "ws_chars = map (map char_of)
     ([[9], [10], [11], [12], [13], [32], [194, 133], [194, 160], [225, 154, 128]]
      @ map (\<lambda>k. [226, 128, k]) [128, 129, 130, 131, 132, 133, 134, 135, 136, 137, 138]
      @ [[226, 128, 168], [226, 128, 169], [226, 128, 175], [226, 129, 159], [227, 128, 128 :: nat]])"

fun strip_prefix :: "string \<Rightarrow> string \<Rightarrow> string option" where
  "strip_prefix [] s = Some s"
| "strip_prefix (p # ps) [] = None"
| "strip_prefix (p # ps) (c # cs) = (if p = c then strip_prefix ps cs else None)"

fun strip_any :: "string list \<Rightarrow> string \<Rightarrow> string option" where
  "strip_any [] s = None"
| "strip_any (p # ps) s =
     (if p = [] then strip_any ps s
      else case strip_prefix p s of Some r \<Rightarrow> Some r | None \<Rightarrow> strip_any ps s)"

lemma strip_prefix_Some_iff: "strip_prefix p s = Some r \<longleftrightarrow> s = p @ r"
  by (induction p s rule: strip_prefix.induct) auto

lemma strip_any_Some: "strip_any ps s = Some r \<Longrightarrow> \<exists>p \<in> set ps. p \<noteq> [] \<and> s = p @ r"
  by (induction ps) (auto split: if_splits option.splits simp: strip_prefix_Some_iff)

lemma strip_any_None_iff: "strip_any ps s = None \<longleftrightarrow> (\<forall>p \<in> set ps. \<forall>r. p \<noteq> [] \<longrightarrow> s \<noteq> p @ r)"
proof (induction ps)
  case (Cons p ps)
  then show ?case
    by (cases "strip_prefix p s") (auto simp flip: strip_prefix_Some_iff)
qed simp

lemma strip_any_shorter: "strip_any ps s = Some r \<Longrightarrow> length r < length s"
  by (auto dest: strip_any_Some)

function trim_front :: "string list \<Rightarrow> string \<Rightarrow> string" where
  "trim_front ps s = (case strip_any ps s of None \<Rightarrow> s | Some r \<Rightarrow> trim_front ps r)"
  by pat_completeness auto
termination
  by (relation "measure (\<lambda>(ps, s). length s)") (auto dest: strip_any_shorter)

declare trim_front.simps [simp del]

definition trim_start :: "string \<Rightarrow> string" where
  "trim_start s = trim_front ws_chars s"

definition trim_end :: "string \<Rightarrow> string" where
  "trim_end s = rev (trim_front (map rev ws_chars) (rev s))"

definition trim :: "string \<Rightarrow> string" where
  "trim s = trim_end (trim_start s)"

lemma trim_front_None: "strip_any ps (trim_front ps s) = None"
proof (induction ps s rule: trim_front.induct)
  case (1 ps s)
  then show ?case
    by (cases "strip_any ps s") (simp_all add: trim_front.simps [of ps s])
qed

lemma trim_front_fix: "strip_any ps s = None \<Longrightarrow> trim_front ps s = s"
  by (simp add: trim_front.simps [of ps s])

lemma trim_front_suffix: "\<exists>p. s = p @ trim_front ps s"
proof (induction ps s rule: trim_front.induct)
  case (1 ps s)
  show ?case
  proof (cases "strip_any ps s")
    case None
    then show ?thesis by (simp add: trim_front_fix)
  next
    case (Some r)
    then obtain p where "s = p @ r" by (auto dest: strip_any_Some)
    moreover from "1.IH" [OF Some] obtain q where "r = q @ trim_front ps r" by blast
    moreover have "trim_front ps s = trim_front ps r"
      using Some by (simp add: trim_front.simps [of ps s])
    ultimately show ?thesis by (metis append.assoc)
  qed
qed

lemma trim_end_prefix: "\<exists>q. s = trim_end s @ q"
proof -
  obtain p where "rev s = p @ trim_front (map rev ws_chars) (rev s)"
    using trim_front_suffix by blast
  then have "rev (rev s) = rev (p @ trim_front (map rev ws_chars) (rev s))" by simp
  then have "s = trim_end s @ rev p" by (simp add: trim_end_def)
  then show ?thesis ..
qed

lemma trim_infix: "\<exists>p q. s = p @ trim s @ q"
proof -
  obtain p where "s = p @ trim_start s" using trim_front_suffix trim_start_def by metis
  moreover obtain q where "trim_start s = trim s @ q" using trim_end_prefix trim_def by metis
  ultimately have "s = p @ trim s @ q" by simp
  then show ?thesis by blast
qed

lemma length_trim_le: "length (trim s) \<le> length s"
proof -
  obtain p q where "s = p @ trim s @ q" using trim_infix by blast
  then have "length s = length p + length (trim s) + length q"
    by (metis append.assoc length_append)
  then show ?thesis by linarith
qed

lemma no_ws_front_trim: "strip_any ws_chars (trim s) = None"
proof -
  have none: "strip_any ws_chars (trim_start s) = None"
    by (simp add: trim_start_def trim_front_None)
  obtain q where q: "trim_start s = trim s @ q" using trim_end_prefix trim_def by metis
  show ?thesis
    unfolding strip_any_None_iff
  proof (intro ballI allI impI notI)
    fix p r assume p: "p \<in> set ws_chars" "p \<noteq> []" and "trim s = p @ r"
    then have "trim_start s = p @ (r @ q)" using q by simp
    with none p show False by (auto simp: strip_any_None_iff)
  qed
qed

lemma no_ws_back_trim: "strip_any (map rev ws_chars) (rev (trim s)) = None"
  by (simp add: trim_def trim_end_def trim_front_None)

lemma trim_fix:
  assumes "strip_any ws_chars s = None" and "strip_any (map rev ws_chars) (rev s) = None"
  shows "trim s = s"
  using assms by (simp add: trim_def trim_start_def trim_end_def trim_front_fix)

lemma trim_idem [simp]: "trim (trim s) = trim s"
  by (simp add: trim_fix no_ws_front_trim no_ws_back_trim)

text \<open>\<open>chars().any(char::is_control)\<close>: the C0 controls and DEL are single bytes, the C1
  controls are the two-byte sequences from C2 80 to C2 9F.\<close>

fun has_control :: "string \<Rightarrow> bool" where
  "has_control [] = False"
| "has_control (c # cs) =
     ((of_char c :: nat) < 32 \<or> (of_char c :: nat) = 127
      \<or> ((of_char c :: nat) = 194
         \<and> (case cs of [] \<Rightarrow> False | d # _ \<Rightarrow> 128 \<le> (of_char d :: nat) \<and> (of_char d :: nat) < 160))
      \<or> has_control cs)"

fun has_whitespace :: "string \<Rightarrow> bool" where
  "has_whitespace [] = False"
| "has_whitespace (c # cs) = (strip_any ws_chars (c # cs) \<noteq> None \<or> has_whitespace cs)"

definition starts_with :: "string \<Rightarrow> string \<Rightarrow> bool" where
  "starts_with s p \<longleftrightarrow> strip_prefix p s \<noteq> None"

definition ends_with :: "string \<Rightarrow> string \<Rightarrow> bool" where
  "ends_with s p \<longleftrightarrow> strip_prefix (rev p) (rev s) \<noteq> None"

fun contains_str :: "string \<Rightarrow> string \<Rightarrow> bool" where
  "contains_str [] p = (p = [])"
| "contains_str (c # cs) p = (starts_with (c # cs) p \<or> contains_str cs p)"

text \<open>\<open>str::split\<close> at a character keeps empty pieces; \<open>str::split_once\<close> stops at the first.\<close>

fun split_on :: "char \<Rightarrow> string \<Rightarrow> string list" where
  "split_on d [] = [[]]"
| "split_on d (c # cs) =
     (if c = d then [] # split_on d cs
      else case split_on d cs of [] \<Rightarrow> [[c]] | p # ps \<Rightarrow> (c # p) # ps)"

fun split_once :: "char \<Rightarrow> string \<Rightarrow> (string \<times> string) option" where
  "split_once d [] = None"
| "split_once d (c # cs) =
     (if c = d then Some ([], cs)
      else case split_once d cs of None \<Rightarrow> None | Some (p, q) \<Rightarrow> Some (c # p, q))"

fun replace_char :: "char \<Rightarrow> string \<Rightarrow> string \<Rightarrow> string" where
  "replace_char d r [] = []"
| "replace_char d r (c # cs) = (if c = d then r else [c]) @ replace_char d r cs"

lemma split_once_Some: "split_once d s = Some (p, q) \<longleftrightarrow> s = p @ d # q \<and> d \<notin> set p"
proof (induction s arbitrary: p)
  case (Cons c cs)
  show ?case
  proof (cases "c = d")
    case True
    then show ?thesis by (cases p) auto
  next
    case False
    show ?thesis
    proof (cases p)
      case Nil
      with False show ?thesis by (auto split: option.splits)
    next
      case p: (Cons a list)
      have "split_once d (c # cs) = Some (p, q) \<longleftrightarrow> a = c \<and> split_once d cs = Some (list, q)"
        using False p by (auto split: option.splits)
      with False p show ?thesis by (auto simp only: Cons.IH append_Cons list.inject list.simps(15) insert_iff)
    qed
  qed
qed simp

lemma split_on_nonempty: "split_on d s \<noteq> []"
  by (induction s) (auto split: list.splits)

section \<open>Decimal and hexadecimal\<close>

definition digit_char :: "nat \<Rightarrow> char" where
  "digit_char d = char_of (48 + d)"

fun dec :: "nat \<Rightarrow> string" where
  "dec n = (if n < 10 then [digit_char n] else dec (n div 10) @ [digit_char (n mod 10)])"

declare dec.simps [simp del]

definition hex_upper :: "nat \<Rightarrow> char" where
  "hex_upper d = (if d < 10 then char_of (48 + d) else char_of (55 + d))"

lemma of_char_digit_char: "d < 10 \<Longrightarrow> (of_char (digit_char d) :: nat) = 48 + d"
  by (simp add: digit_char_def)

lemma digit_char_inject: "d < 10 \<Longrightarrow> e < 10 \<Longrightarrow> digit_char d = digit_char e \<longleftrightarrow> d = e"
  by (metis add_left_cancel of_char_digit_char)

lemma is_ascii_digit_digit_char: "d < 10 \<Longrightarrow> is_ascii_digit (digit_char d)"
  by (simp add: is_ascii_digit_def of_char_digit_char)

lemma dec_nonempty [simp]: "dec n \<noteq> []"
  by (subst dec.simps) simp

lemma dec_digits: "c \<in> set (dec n) \<Longrightarrow> is_ascii_digit c"
proof (induction n rule: dec.induct)
  case (1 n)
  then show ?case
    by (cases "n < 10") (auto simp: dec.simps [of n] is_ascii_digit_digit_char)
qed

definition digit_val :: "char \<Rightarrow> nat" where
  "digit_val c = of_char c - 48"

fun dec_val :: "string \<Rightarrow> nat" where
  "dec_val s = foldl (\<lambda>n c. 10 * n + digit_val c) 0 s"

declare dec_val.simps [simp del]

lemma dec_val_snoc: "dec_val (s @ [c]) = 10 * dec_val s + digit_val c"
  by (simp add: dec_val.simps)

lemma digit_val_digit_char: "d < 10 \<Longrightarrow> digit_val (digit_char d) = d"
  by (simp add: digit_val_def of_char_digit_char)

lemma dec_val_dec [simp]: "dec_val (dec n) = n"
proof (induction n rule: dec.induct)
  case (1 n)
  show ?case
  proof (cases "n < 10")
    case True
    then show ?thesis
      by (simp add: dec.simps [of n] dec_val.simps digit_val_digit_char)
  next
    case False
    with "1.IH" show ?thesis
      by (simp add: dec.simps [of n] dec_val_snoc digit_val_digit_char)
  qed
qed

lemma dec_inject [simp]: "dec m = dec n \<longleftrightarrow> m = n"
  by (metis dec_val_dec)

section \<open>Machine integers and instants\<close>

text \<open>An \<open>i64\<close> is an \<^typ>\<open>int\<close>; its wrap-around is written out where the code adds.
  An instant is a number of microseconds since the Unix epoch (the precision of a PostgreSQL
  \<open>timestamptz\<close>); the code itself works with whole seconds.\<close>

definition wrap_i64 :: "int \<Rightarrow> int" where
  "wrap_i64 x = (x + 2 ^ 63) mod 2 ^ 64 - 2 ^ 63"

definition i64_range :: "int \<Rightarrow> bool" where
  "i64_range x \<longleftrightarrow> - (2 ^ 63) \<le> x \<and> x < 2 ^ 63"

lemma wrap_i64_id: "i64_range x \<Longrightarrow> wrap_i64 x = x"
  by (simp add: wrap_i64_def i64_range_def)

lemma wrap_i64_range: "i64_range (wrap_i64 x)"
  by (simp add: wrap_i64_def i64_range_def)

type_synonym time = int

definition seconds :: "int \<Rightarrow> time" where
  "seconds n = n * 1000000"

definition minutes :: "int \<Rightarrow> time" where
  "minutes n = seconds (60 * n)"

definition hours :: "int \<Rightarrow> time" where
  "hours n = minutes (60 * n)"

text \<open>\<open>to_be_bytes\<close> of the widths the code uses.\<close>

definition be32 :: "32 word \<Rightarrow> bytes" where
  "be32 w = map (\<lambda>i. ucast (drop_bit i w)) [24, 16, 8, 0]"

definition be64 :: "64 word \<Rightarrow> bytes" where
  "be64 w = map (\<lambda>i. ucast (drop_bit i w)) [56, 48, 40, 32, 24, 16, 8, 0]"

section \<open>JSON values\<close>

text \<open>\<open>serde_json::Value\<close>. Objects are \<open>BTreeMap\<close>s: they are written with their keys in
  ascending order, so that equal objects are equal terms.\<close>

datatype json =
    JNull
  | JBool bool
  | JNum int
  | JStr string
  | JArr "json list"
  | JObj "(string \<times> json) list"

fun is_object :: "json \<Rightarrow> bool" where
  "is_object (JObj _) = True"
| "is_object _ = False"

fun json_get :: "json \<Rightarrow> string \<Rightarrow> json option" where
  "json_get (JObj kvs) k = map_of kvs k"
| "json_get _ _ = None"

fun json_str :: "json option \<Rightarrow> string option" where
  "json_str (Some (JStr s)) = Some s"
| "json_str _ = None"

fun json_bool :: "json option \<Rightarrow> bool option" where
  "json_bool (Some (JBool b)) = Some b"
| "json_bool _ = None"

fun json_u32 :: "json option \<Rightarrow> nat option" where
  "json_u32 (Some (JNum n)) = (if 0 \<le> n \<and> n < 2 ^ 32 then Some (nat n) else None)"
| "json_u32 _ = None"

section \<open>Functions outside the repository\<close>

text \<open>The third-party functions the crate calls are the fields of one record, an argument of
  every definition that uses them: the crates base64, hmac, sha1, sha2,
  chacha20poly1305, uuid, serde\_json, time and http, and the regular-expression operator of
  PostgreSQL.\<close>

record externals =
  base64url_encode :: "bytes \<Rightarrow> string"
  base64url_decode :: "string \<Rightarrow> bytes option"
  hmac_sha1 :: "bytes \<Rightarrow> bytes \<Rightarrow> bytes"
  hmac_sha256 :: "bytes \<Rightarrow> bytes \<Rightarrow> bytes"
  hmac_sha512 :: "bytes \<Rightarrow> bytes \<Rightarrow> bytes"
  sha256 :: "bytes \<Rightarrow> bytes"
  xchacha_encrypt :: "bytes \<Rightarrow> bytes \<Rightarrow> bytes \<Rightarrow> bytes \<Rightarrow> bytes option"
  xchacha_decrypt :: "bytes \<Rightarrow> bytes \<Rightarrow> bytes \<Rightarrow> bytes \<Rightarrow> bytes option"
  uuid_bytes :: "uuid \<Rightarrow> bytes"
  uuid_text :: "uuid \<Rightarrow> string"
  uuid_parse :: "string \<Rightarrow> uuid option"
  json_size :: "json \<Rightarrow> nat"
  rfc3339 :: "time \<Rightarrow> string option"
  pg_regex_match :: "string \<Rightarrow> string \<Rightarrow> bool"
  header_value_ok :: "string \<Rightarrow> bool"

text \<open>Documented behaviour of these functions, assumed by name where a theorem relies on it.\<close>

definition base64url_roundtrip :: "externals \<Rightarrow> bool" where
  "base64url_roundtrip X \<longleftrightarrow> (\<forall>b. base64url_decode X (base64url_encode X b) = Some b)"

definition sha256_is_32_bytes :: "externals \<Rightarrow> bool" where
  "sha256_is_32_bytes X \<longleftrightarrow> (\<forall>m. length (sha256 X m) = 32)"

definition hmac_lengths :: "externals \<Rightarrow> bool" where
  "hmac_lengths X \<longleftrightarrow> (\<forall>k m. length (hmac_sha1 X k m) = 20 \<and> length (hmac_sha256 X k m) = 32
     \<and> length (hmac_sha512 X k m) = 64)"

definition uuid_text_injective :: "externals \<Rightarrow> bool" where
  "uuid_text_injective X \<longleftrightarrow> inj (uuid_text X)"

lemma base64url_encode_inject:
  "base64url_roundtrip X \<Longrightarrow> base64url_encode X a = base64url_encode X b \<longleftrightarrow> a = b"
  unfolding base64url_roundtrip_def by (metis option.inject)

end
