(* ===== verification/PV_Schema.thy ===== *)
theory PV_Schema
  imports PV_Base
begin

text \<open>
  The database: the tables of \<^verbatim>\<open>migrations/*.sql\<close> as lists of records and the
  insertions with the constraints those files declare. Columns that no statement of the program
  reads or sets (display names of accounts, lockout counters, and the like) are left out.
  A statement fails with \<open>UniqueViolation\<close> (SQLSTATE 23505) or with any other error.
\<close>

section \<open>Rows\<close>

record account_row =
  acc_id :: uuid
  acc_login_handle_normalized :: string
  acc_auth_protocol :: string
  acc_kdf_profile :: json
  acc_account_salt :: bytes
  acc_auth_verifier_profile :: string
  acc_auth_verifier_salt :: bytes
  acc_auth_verifier_iterations :: int
  acc_auth_stored_key :: bytes
  acc_auth_server_key :: bytes
  acc_created_at :: time

record device_row =
  dev_id :: uuid
  dev_account_id :: uuid
  dev_display_name :: string
  dev_client_type :: string
  dev_public_metadata :: json
  dev_last_seen_at :: "time option"
  dev_revoked_at :: "time option"

record challenge_row =
  ch_id :: uuid
  ch_account_id :: "uuid option"
  ch_login_handle_normalized :: string
  ch_challenge_type :: string
  ch_auth_protocol :: string
  ch_server_nonce :: bytes
  ch_public_metadata :: json
  ch_attempts :: int
  ch_expires_at :: time
  ch_consumed_at :: "time option"
  ch_created_at :: time

record totp_factor_row =
  tf_id :: uuid
  tf_account_id :: uuid
  tf_seed_ciphertext :: bytes
  tf_seed_nonce :: bytes
  tf_seed_key_id :: string
  tf_seed_aead :: string
  tf_algorithm :: string
  tf_digits :: int
  tf_period_seconds :: int
  tf_last_accepted_step :: "int option"
  tf_verified_at :: "time option"

record recovery_code_row =
  rc_id :: uuid
  rc_account_id :: uuid
  rc_code_salt :: bytes
  rc_code_hash :: bytes
  rc_used_at :: "time option"

record session_row =
  se_id :: uuid
  se_account_id :: uuid
  se_device_id :: "uuid option"
  se_session_token_hash :: bytes
  se_csrf_token_hash :: "bytes option"
  se_session_state :: string
  se_last_seen_at :: "time option"
  se_expires_at :: time
  se_idle_expires_at :: time
  se_absolute_expires_at :: time
  se_revoked_at :: "time option"

record keyset_row =
  ks_id :: uuid
  ks_account_id :: uuid
  ks_crypto_version :: string
  ks_key_id :: string
  ks_nonce :: bytes
  ks_ciphertext :: bytes

record vault_row =
  va_id :: uuid
  va_account_id :: uuid
  va_crypto_profile_id :: string
  va_head_seq :: int
  va_genesis_head_hash :: bytes
  va_head_hash :: bytes
  va_created_at :: time
  va_updated_at :: time

record key_wrap_row =
  kw_id :: uuid
  kw_vault_id :: uuid
  kw_account_id :: uuid
  kw_key_id :: string
  kw_crypto_version :: string
  kw_nonce :: bytes
  kw_ciphertext :: bytes

record item_row =
  it_id :: uuid
  it_vault_id :: uuid
  it_latest_revision_id :: "uuid option"
  it_latest_revision_seq :: int
  it_deleted_at :: "time option"
  it_updated_at :: time

record revision_row =
  rv_id :: uuid
  rv_vault_id :: uuid
  rv_item_id :: uuid
  rv_operation :: string
  rv_revision_seq :: int
  rv_base_revision_seq :: int
  rv_head_seq :: int
  rv_base_head_seq :: int
  rv_base_head_hash :: bytes
  rv_previous_head_hash :: bytes
  rv_head_hash :: bytes
  rv_change_mac :: bytes
  rv_key_id :: string
  rv_crypto_version :: string
  rv_envelope_hash :: bytes
  rv_encrypted_item_envelope :: json

record audit_row =
  au_account_id :: "uuid option"
  au_actor_device_id :: "uuid option"
  au_event_type :: string
  au_event_metadata :: json

record db =
  accounts :: "account_row list"
  devices :: "device_row list"
  auth_challenges :: "challenge_row list"
  totp_factors :: "totp_factor_row list"
  recovery_codes :: "recovery_code_row list"
  sessions :: "session_row list"
  account_keysets :: "keyset_row list"
  vaults :: "vault_row list"
  vault_key_wraps :: "key_wrap_row list"
  vault_items :: "item_row list"
  vault_item_revisions :: "revision_row list"
  audit_events :: "audit_row list"

definition empty_db :: db where
  "empty_db = \<lparr>accounts = [], devices = [], auth_challenges = [], totp_factors = [],
     recovery_codes = [], sessions = [], account_keysets = [], vaults = [], vault_key_wraps = [],
     vault_items = [], vault_item_revisions = [], audit_events = []\<rparr>"

datatype sql_error = UniqueViolation | SqlFailure

definition is_unique_violation :: "sql_error \<Rightarrow> bool" where
  "is_unique_violation e \<longleftrightarrow> (case e of UniqueViolation \<Rightarrow> True | SqlFailure \<Rightarrow> False)"

section \<open>Constraints and insertions\<close>

text \<open>PostgreSQL evaluates the CHECK constraints of a row, then enters it in the unique indexes,
  then runs the foreign-key checks at the end of the statement.\<close>

definition constrained :: "bool \<Rightarrow> bool \<Rightarrow> bool \<Rightarrow> 'a \<Rightarrow> sql_error + 'a" where
  "constrained checks unique refs d =
     (if \<not> checks then Inl SqlFailure
      else if \<not> unique then Inl UniqueViolation
      else if \<not> refs then Inl SqlFailure
      else Inr d)"

lemma constrained_Inr_iff [simp]:
  "constrained c u r d = Inr d' \<longleftrightarrow> c \<and> u \<and> r \<and> d' = d"
  by (auto simp: constrained_def)

lemma constrained_unique_iff [simp]:
  "constrained c u r d = Inl UniqueViolation \<longleftrightarrow> c \<and> \<not> u"
  by (auto simp: constrained_def)

definition nonblank :: "string \<Rightarrow> bool" where
  "nonblank s \<longleftrightarrow> dropWhile (\<lambda>c. c = CHR '' '') s \<noteq> []"

definition DERIVED_AUTH :: string where
  "DERIVED_AUTH = ''derived-auth-v1''"

definition pbkdf2_browser_profile :: json where
  "pbkdf2_browser_profile = JObj
     [(''algorithm'', JStr ''PBKDF2-HMAC-SHA-256''), (''hash'', JStr ''SHA-256''),
      (''id'', JStr ''pbkdf2-sha256-browser-v1''), (''iterations'', JNum 600000)]"

definition account_exists :: "db \<Rightarrow> uuid \<Rightarrow> bool" where
  "account_exists d a \<longleftrightarrow> a \<in> acc_id ` set (accounts d)"

definition opt_all :: "('a \<Rightarrow> bool) \<Rightarrow> 'a option \<Rightarrow> bool" where
  "opt_all P x \<longleftrightarrow> (case x of None \<Rightarrow> True | Some a \<Rightarrow> P a)"

definition account_checks :: "account_row \<Rightarrow> bool" where
  "account_checks r \<longleftrightarrow>
     length (acc_account_salt r) = 32 \<and> length (acc_auth_verifier_salt r) = 32
     \<and> acc_auth_verifier_iterations r = 150000
     \<and> length (acc_auth_stored_key r) = 32 \<and> length (acc_auth_server_key r) = 32
     \<and> nonblank (acc_login_handle_normalized r)
     \<and> acc_auth_protocol r \<in> {''derived-auth-v1'', ''opaque-rfc9807-v1''}
     \<and> acc_auth_verifier_profile r = ''pv-scram-sha-256-v1''
     \<and> acc_kdf_profile r = pbkdf2_browser_profile"

definition insert_account :: "account_row \<Rightarrow> db \<Rightarrow> sql_error + db" where
  "insert_account r d = constrained
     (account_checks r)
     (acc_id r \<notin> acc_id ` set (accounts d)
      \<and> acc_login_handle_normalized r \<notin> acc_login_handle_normalized ` set (accounts d))
     True
     (d\<lparr>accounts := accounts d @ [r]\<rparr>)"

definition insert_device :: "device_row \<Rightarrow> db \<Rightarrow> sql_error + db" where
  "insert_device r d = constrained
     (nonblank (dev_display_name r)
      \<and> dev_client_type r \<in> {''browser'', ''browser-extension'', ''ios'', ''android'', ''cli''}
      \<and> is_object (dev_public_metadata r))
     (dev_id r \<notin> dev_id ` set (devices d))
     (account_exists d (dev_account_id r))
     (d\<lparr>devices := devices d @ [r]\<rparr>)"

definition insert_challenge :: "challenge_row \<Rightarrow> db \<Rightarrow> sql_error + db" where
  "insert_challenge r d = constrained
     (length (ch_server_nonce r) = 32 \<and> 0 \<le> ch_attempts r
      \<and> nonblank (ch_login_handle_normalized r)
      \<and> ch_challenge_type r \<in> {''register'', ''login'', ''pre_mfa''}
      \<and> ch_auth_protocol r \<in> {''derived-auth-v1'', ''opaque-rfc9807-v1''})
     (ch_id r \<notin> ch_id ` set (auth_challenges d))
     (opt_all (account_exists d) (ch_account_id r))
     (d\<lparr>auth_challenges := auth_challenges d @ [r]\<rparr>)"

definition insert_totp_factor :: "totp_factor_row \<Rightarrow> db \<Rightarrow> sql_error + db" where
  "insert_totp_factor r d = constrained
     (tf_seed_ciphertext r \<noteq> [] \<and> 12 \<le> length (tf_seed_nonce r)
      \<and> nonblank (tf_seed_key_id r) \<and> nonblank (tf_seed_aead r)
      \<and> tf_algorithm r \<in> {''SHA1'', ''SHA256'', ''SHA512''}
      \<and> tf_digits r \<in> {6, 8} \<and> 0 < tf_period_seconds r
      \<and> opt_all (\<lambda>s. 0 \<le> s) (tf_last_accepted_step r))
     (tf_id r \<notin> tf_id ` set (totp_factors d)
      \<and> tf_account_id r \<notin> tf_account_id ` set (totp_factors d))
     (account_exists d (tf_account_id r))
     (d\<lparr>totp_factors := totp_factors d @ [r]\<rparr>)"

definition insert_recovery_code :: "recovery_code_row \<Rightarrow> db \<Rightarrow> sql_error + db" where
  "insert_recovery_code r d = constrained
     (16 \<le> length (rc_code_salt r) \<and> 32 \<le> length (rc_code_hash r))
     (rc_id r \<notin> rc_id ` set (recovery_codes d)
      \<and> (rc_account_id r, rc_code_hash r)
          \<notin> (\<lambda>q. (rc_account_id q, rc_code_hash q)) ` set (recovery_codes d))
     (account_exists d (rc_account_id r))
     (d\<lparr>recovery_codes := recovery_codes d @ [r]\<rparr>)"

definition session_checks :: "session_row \<Rightarrow> bool" where
  "session_checks r \<longleftrightarrow>
     length (se_session_token_hash r) = 32
     \<and> opt_all (\<lambda>h. length h = 32) (se_csrf_token_hash r)
     \<and> se_session_state r \<in> {''mfa_enrollment_required'', ''mfa_recovery'', ''mfa_verified''}
     \<and> se_idle_expires_at r \<le> se_absolute_expires_at r"

definition device_of :: "db \<Rightarrow> uuid \<Rightarrow> uuid \<Rightarrow> device_row option" where
  "device_of d a i = find (\<lambda>r. dev_account_id r = a \<and> dev_id r = i) (devices d)"

definition insert_session :: "session_row \<Rightarrow> db \<Rightarrow> sql_error + db" where
  "insert_session r d = constrained
     (session_checks r)
     (se_id r \<notin> se_id ` set (sessions d)
      \<and> se_session_token_hash r \<notin> se_session_token_hash ` set (sessions d))
     (account_exists d (se_account_id r)
      \<and> opt_all (\<lambda>i. device_of d (se_account_id r) i \<noteq> None) (se_device_id r))
     (d\<lparr>sessions := sessions d @ [r]\<rparr>)"

definition insert_keyset :: "keyset_row \<Rightarrow> db \<Rightarrow> sql_error + db" where
  "insert_keyset r d = constrained
     (length (ks_nonce r) = 12 \<and> ks_ciphertext r \<noteq> []
      \<and> ks_crypto_version r = ''account-keyset-v1'' \<and> nonblank (ks_key_id r))
     (ks_id r \<notin> ks_id ` set (account_keysets d)
      \<and> (ks_account_id r, ks_key_id r)
          \<notin> (\<lambda>q. (ks_account_id q, ks_key_id q)) ` set (account_keysets d))
     (account_exists d (ks_account_id r))
     (d\<lparr>account_keysets := account_keysets d @ [r]\<rparr>)"

definition insert_vault :: "vault_row \<Rightarrow> db \<Rightarrow> sql_error + db" where
  "insert_vault r d = constrained
     (length (va_genesis_head_hash r) = 32 \<and> length (va_head_hash r) = 32
      \<and> nonblank (va_crypto_profile_id r) \<and> 0 \<le> va_head_seq r)
     (va_id r \<notin> va_id ` set (vaults d))
     (account_exists d (va_account_id r))
     (d\<lparr>vaults := vaults d @ [r]\<rparr>)"

definition insert_key_wrap :: "key_wrap_row \<Rightarrow> db \<Rightarrow> sql_error + db" where
  "insert_key_wrap r d = constrained
     (length (kw_nonce r) = 12 \<and> kw_ciphertext r \<noteq> []
      \<and> kw_crypto_version r = ''vault-key-wrap-v1'' \<and> nonblank (kw_key_id r))
     (kw_id r \<notin> kw_id ` set (vault_key_wraps d)
      \<and> (kw_vault_id r, kw_account_id r, kw_key_id r)
          \<notin> (\<lambda>q. (kw_vault_id q, kw_account_id q, kw_key_id q)) ` set (vault_key_wraps d))
     ((kw_account_id r, kw_vault_id r) \<in> (\<lambda>v. (va_account_id v, va_id v)) ` set (vaults d)
      \<and> (kw_account_id r, kw_key_id r)
          \<in> (\<lambda>q. (ks_account_id q, ks_key_id q)) ` set (account_keysets d))
     (d\<lparr>vault_key_wraps := vault_key_wraps d @ [r]\<rparr>)"

definition insert_item :: "item_row \<Rightarrow> db \<Rightarrow> sql_error + db" where
  "insert_item r d = constrained
     (0 \<le> it_latest_revision_seq r)
     (it_id r \<notin> it_id ` set (vault_items d))
     (it_vault_id r \<in> va_id ` set (vaults d))
     (d\<lparr>vault_items := vault_items d @ [r]\<rparr>)"

definition revision_checks :: "revision_row \<Rightarrow> bool" where
  "revision_checks r \<longleftrightarrow>
     length (rv_base_head_hash r) = 32 \<and> length (rv_previous_head_hash r) = 32
     \<and> length (rv_head_hash r) = 32 \<and> length (rv_change_mac r) = 32
     \<and> length (rv_envelope_hash r) = 32
     \<and> rv_operation r \<in> {''create'', ''update'', ''delete''}
     \<and> 0 < rv_revision_seq r \<and> 0 \<le> rv_base_revision_seq r
     \<and> 0 < rv_head_seq r \<and> 0 \<le> rv_base_head_seq r
     \<and> rv_head_seq r = rv_base_head_seq r + 1
     \<and> rv_base_head_hash r = rv_previous_head_hash r
     \<and> nonblank (rv_key_id r) \<and> nonblank (rv_crypto_version r)
     \<and> (if rv_operation r = ''create'' then rv_revision_seq r = 1 \<and> rv_base_revision_seq r = 0
        else rv_base_revision_seq r < rv_revision_seq r \<and> 0 < rv_base_revision_seq r)"

definition insert_revision :: "revision_row \<Rightarrow> db \<Rightarrow> sql_error + db" where
  "insert_revision r d = constrained
     (revision_checks r)
     (rv_id r \<notin> rv_id ` set (vault_item_revisions d)
      \<and> (rv_vault_id r, rv_head_seq r)
          \<notin> (\<lambda>q. (rv_vault_id q, rv_head_seq q)) ` set (vault_item_revisions d)
      \<and> (rv_vault_id r, rv_item_id r, rv_revision_seq r)
          \<notin> (\<lambda>q. (rv_vault_id q, rv_item_id q, rv_revision_seq q)) ` set (vault_item_revisions d))
     ((rv_vault_id r, rv_item_id r) \<in> (\<lambda>i. (it_vault_id i, it_id i)) ` set (vault_items d))
     (d\<lparr>vault_item_revisions := vault_item_revisions d @ [r]\<rparr>)"

definition insert_audit :: "audit_row \<Rightarrow> db \<Rightarrow> sql_error + db" where
  "insert_audit r d = constrained
     (nonblank (au_event_type r)) True (opt_all (account_exists d) (au_account_id r))
     (d\<lparr>audit_events := audit_events d @ [r]\<rparr>)"

section \<open>Updates and deletions\<close>

text \<open>\<open>UPDATE \<dots> SET f WHERE P\<close> and \<open>DELETE \<dots> WHERE P\<close> on a table. The number of rows an
  update touches is the code's \<open>rows_affected\<close>.\<close>

definition update_where :: "('r \<Rightarrow> bool) \<Rightarrow> ('r \<Rightarrow> 'r) \<Rightarrow> 'r list \<Rightarrow> 'r list" where
  "update_where P f rs = map (\<lambda>r. if P r then f r else r) rs"

definition delete_where :: "('r \<Rightarrow> bool) \<Rightarrow> 'r list \<Rightarrow> 'r list" where
  "delete_where P rs = filter (\<lambda>r. \<not> P r) rs"

definition count_where :: "('r \<Rightarrow> bool) \<Rightarrow> 'r list \<Rightarrow> nat" where
  "count_where P rs = length (filter P rs)"

lemma length_update_where [simp]: "length (update_where P f rs) = length rs"
  by (simp add: update_where_def)

lemma map_update_where:
  "(\<And>r. P r \<Longrightarrow> g (f r) = g r) \<Longrightarrow> map g (update_where P f rs) = map g rs"
  by (induction rs) (auto simp: update_where_def)

lemma image_update_where:
  "(\<And>r. P r \<Longrightarrow> g (f r) = g r) \<Longrightarrow> g ` set (update_where P f rs) = g ` set rs"
  by (metis map_update_where set_map)

lemma set_update_where:
  "x \<in> set (update_where P f rs) \<longleftrightarrow> (\<exists>r \<in> set rs. x = (if P r then f r else r))"
  by (auto simp: update_where_def)

lemma update_where_none: "(\<And>r. r \<in> set rs \<Longrightarrow> \<not> P r) \<Longrightarrow> update_where P f rs = rs"
  by (induction rs) (auto simp: update_where_def)

lemma set_delete_where: "set (delete_where P rs) = {r \<in> set rs. \<not> P r}"
  by (auto simp: delete_where_def)

lemma find_Some_mem: "find P xs = Some x \<Longrightarrow> x \<in> set xs \<and> P x"
  by (induction xs) (auto split: if_splits)

lemma find_append_right: "find P (xs @ [x]) = (case find P xs of None \<Rightarrow> if P x then Some x else None | Some y \<Rightarrow> Some y)"
  by (induction xs) auto

end
