(* ===== verification/PV_Sample.thy ===== *)
theory PV_Sample
  imports PV_Base
begin

text \<open>
  A concrete instance of the third-party functions, for the witnesses: it satisfies the
  documented behaviour that the theorems assume by name, so those assumptions can hold. Base64url
  is replaced by hexadecimal, the keyed and plain hashes by truncated concatenations, and the
  cipher by one that prepends its key, nonce and associated data.
\<close>

definition hex_digits :: string where
  "hex_digits = ''0123456789abcdef''"

definition nibble_char :: "nat \<Rightarrow> char" where
  "nibble_char n = hex_digits ! n"

definition char_nibble :: "char \<Rightarrow> nat" where
  "char_nibble c = length (takeWhile (\<lambda>d. d \<noteq> c) hex_digits)"

fun hex_encode :: "bytes \<Rightarrow> string" where
  "hex_encode [] = []"
| "hex_encode (b # bs) = nibble_char (unat b div 16) # nibble_char (unat b mod 16) # hex_encode bs"

fun hex_decode :: "string \<Rightarrow> bytes option" where
  "hex_decode [] = Some []"
| "hex_decode (c # d # s) =
     map_option (\<lambda>bs. of_nat (16 * char_nibble c + char_nibble d) # bs) (hex_decode s)"
| "hex_decode _ = None"

definition take_pad :: "nat \<Rightarrow> bytes \<Rightarrow> bytes" where
  "take_pad n b = take n (b @ replicate n 0)"

fun dec_parse :: "string \<Rightarrow> uuid option" where
  "dec_parse s = (let n = dec_val s in
     if dec n = s \<and> n < 2 ^ 128 then Some (of_nat n) else None)"

definition sample :: externals where
  "sample =
     \<lparr>base64url_encode = hex_encode,
      base64url_decode = hex_decode,
      hmac_sha1 = (\<lambda>k m. take_pad 20 (k @ m)),
      hmac_sha256 = (\<lambda>k m. take_pad 32 (k @ m)),
      hmac_sha512 = (\<lambda>k m. take_pad 64 (k @ m)),
      sha256 = take_pad 32,
      xchacha_encrypt = (\<lambda>k n aad m. Some (k @ n @ aad @ m)),
      xchacha_decrypt = (\<lambda>k n aad c.
        let p = k @ n @ aad in
        if take (length p) c = p then Some (drop (length p) c) else None),
      uuid_bytes = (\<lambda>u. be64 (ucast (drop_bit 64 u)) @ be64 (ucast u)),
      uuid_text = (\<lambda>u. dec (unat u)),
      uuid_parse = dec_parse,
      json_size = (\<lambda>_. 2),
      rfc3339 = (\<lambda>t. if 0 \<le> t then Some (dec (nat t)) else None),
      pg_regex_match = (\<lambda>s p. s = p),
      header_value_ok = (\<lambda>_. True)\<rparr>"

lemma length_take_pad [simp]: "length (take_pad n b) = n"
  by (simp add: take_pad_def)

lemma nibble_roundtrip: "n < 16 \<Longrightarrow> char_nibble (nibble_char n) = n"
  by (auto simp: char_nibble_def nibble_char_def hex_digits_def less_Suc_eq numeral_eq_Suc)

lemma hex_roundtrip: "hex_decode (hex_encode b) = Some b"
proof (induction b)
  case (Cons x b)
  have "unat x < 2 ^ LENGTH(8)" by (rule unsigned_less)
  then have "unat x < 256" by simp
  then have "unat x div 16 < 16" and "unat x mod 16 < 16" by simp_all
  then have "of_nat (16 * char_nibble (nibble_char (unat x div 16))
      + char_nibble (nibble_char (unat x mod 16))) = x"
    by (simp add: nibble_roundtrip)
  with Cons show ?case by simp
qed simp

lemma sample_base64url [simp]: "base64url_roundtrip sample"
  by (simp add: base64url_roundtrip_def sample_def hex_roundtrip)

lemma sample_sha256 [simp]: "sha256_is_32_bytes sample"
  by (simp add: sha256_is_32_bytes_def sample_def)

lemma sample_hmac [simp]: "hmac_lengths sample"
  by (simp add: hmac_lengths_def sample_def)

lemma sample_uuid_text [simp]: "uuid_text_injective sample"
  by (simp add: uuid_text_injective_def sample_def inj_def unsigned_word_eqI)

end
