(* ===== verification/PV_Encoding.thy ===== *)
theory PV_Encoding
  imports PV_Sample
begin

text \<open>
  \<^verbatim>\<open>crates/api/src/auth/encoding.rs\<close> (base64url helpers over the base64 crate) and
  \<^verbatim>\<open>crates/api/src/auth/transcript.rs\<close> (the login transcript). The transcript is a
  sequence of length-prefixed fields; the lemmas show that it can be read back in one way only.
\<close>

section \<open>base64url\<close>

datatype base64_error =
    InvalidEncoding
  | InvalidLength nat nat \<comment> \<open>expected, actual\<close>

fun base64_error_text :: "base64_error \<Rightarrow> string" where
  "base64_error_text InvalidEncoding = ''invalid base64url encoding''"
| "base64_error_text (InvalidLength expected actual) =
     ''expected '' @ dec expected @ '' bytes; got '' @ dec actual"

definition encode_base64url :: "externals \<Rightarrow> bytes \<Rightarrow> string" where
  "encode_base64url X b = base64url_encode X b"

definition decode_base64url :: "externals \<Rightarrow> string \<Rightarrow> base64_error + bytes" where
  "decode_base64url X s = ok_or InvalidEncoding (base64url_decode X s)"

definition decode_base64url_array :: "externals \<Rightarrow> nat \<Rightarrow> string \<Rightarrow> base64_error + bytes" where
  "decode_base64url_array X n s =
     and_then (decode_base64url X s) (\<lambda>b.
       if length b \<noteq> n then Inl (InvalidLength n (length b)) else Inr b)"

lemma decode_array_Inr_iff:
  "decode_base64url_array X n s = Inr b \<longleftrightarrow> base64url_decode X s = Some b \<and> length b = n"
  by (auto simp: decode_base64url_array_def decode_base64url_def and_then_Inr_iff)

lemma decode_array_length: "decode_base64url_array X n s = Inr b \<Longrightarrow> length b = n"
  by (simp add: decode_array_Inr_iff)

lemma decode_encode:
  "base64url_roundtrip X \<Longrightarrow>
     decode_base64url_array X n (encode_base64url X b)
       = (if length b = n then Inr b else Inl (InvalidLength n (length b)))"
  by (simp add: decode_base64url_array_def decode_base64url_def encode_base64url_def
      base64url_roundtrip_def)

section \<open>Self-delimiting encodings\<close>

text \<open>The interface of an encoding that a reader can cut off the front of any longer text.\<close>

locale self_delimiting =
  fixes enc :: "'a \<Rightarrow> 'c list"
  assumes delim: "enc a @ r = enc b @ s \<Longrightarrow> a = b \<and> r = s"
begin

lemma enc_inject: "enc a = enc b \<longleftrightarrow> a = b"
  using delim [of a "[]" b "[]"] by auto

lemma enc_append_iff: "enc a @ r = enc b @ s \<longleftrightarrow> a = b \<and> r = s"
  using delim by blast

lemma not_prefix: "enc a = enc b @ s \<Longrightarrow> a = b \<and> s = []"
  using delim [of a "[]" b s] by simp

lemma concat_inject:
  "length xs = length ys \<Longrightarrow> concat (map enc xs) @ r = concat (map enc ys) @ s \<Longrightarrow> xs = ys \<and> r = s"
proof (induction xs ys rule: list_induct2)
  case (Cons x xs y ys)
  then show ?case by (auto simp: enc_append_iff)
qed simp

end

section \<open>The login transcript\<close>

record login_auth_data =
  la_challenge_id :: uuid
  la_auth_protocol :: string
  la_login_handle_normalized :: string
  la_client_nonce :: bytes
  la_server_nonce :: bytes
  la_client_final_without_proof :: bytes

definition push_field :: "bytes \<Rightarrow> string \<Rightarrow> string \<Rightarrow> bytes" where
  "push_field out name value =
     out @ as_bytes name @ as_bytes ''='' @ as_bytes (dec (length value)) @ as_bytes '':''
       @ as_bytes value @ [10]"

definition login_auth_message :: "externals \<Rightarrow> login_auth_data \<Rightarrow> bytes" where
  "login_auth_message X i =
     (let out = as_bytes ''password-vault/login-auth-message/v1'' @ [10];
          out = push_field out ''challenge_id'' (uuid_text X (la_challenge_id i));
          out = push_field out ''auth_protocol'' (la_auth_protocol i);
          out = push_field out ''login_handle_normalized'' (la_login_handle_normalized i);
          out = push_field out ''client_nonce'' (encode_base64url X (la_client_nonce i));
          out = push_field out ''server_nonce'' (encode_base64url X (la_server_nonce i));
          out = push_field out ''client_final_without_proof''
                  (encode_base64url X (la_client_final_without_proof i))
      in out)"

definition field_bytes :: "string \<Rightarrow> string \<Rightarrow> bytes" where
  "field_bytes name value = push_field [] name value"

lemma push_field_eq: "push_field out name value = out @ field_bytes name value"
  by (simp add: push_field_def field_bytes_def)

lemma colon_not_in_dec: "CHR '':'' \<notin> set (dec n)"
  using dec_digits [of "CHR '':''" n] by (auto simp: is_ascii_digit_def)

lemma as_bytes_eq_append:
  "as_bytes s @ t = as_bytes s' @ t' \<Longrightarrow> length s = length s' \<Longrightarrow> s = s' \<and> t = t'"
  by (simp add: append_eq_append_conv)

lemma as_bytes_dec_colon:
  assumes "as_bytes (dec m @ '':'') @ r = as_bytes (dec n @ '':'') @ s"
  shows "m = n \<and> r = s"
proof -
  have colon: "of_char CHR '':'' \<notin> set (as_bytes (dec k))" for k
    using colon_not_in_dec [of k] unfolding as_bytes_def set_map
    by (metis imageE of_char_byte_inject)
  have "as_bytes (dec m) @ of_char CHR '':'' # r = as_bytes (dec n) @ of_char CHR '':'' # s"
    using assms by (simp add: as_bytes_def)
  then have "as_bytes (dec m) = as_bytes (dec n) \<and> r = s"
    using append_marker_inject [OF colon colon] by blast
  then show ?thesis by simp
qed

interpretation field: self_delimiting "field_bytes name" for name
proof unfold_locales
  fix a r b s assume eq: "field_bytes name a @ r = field_bytes name b @ s"
  then have "as_bytes (dec (length a) @ '':'') @ (as_bytes a @ 10 # r)
      = as_bytes (dec (length b) @ '':'') @ (as_bytes b @ 10 # s)"
    by (simp add: field_bytes_def push_field_def)
  then have "length a = length b" and "as_bytes a @ 10 # r = as_bytes b @ 10 # s"
    by (blast dest: as_bytes_dec_colon)+
  then show "a = b \<and> r = s" by (auto dest: as_bytes_eq_append)
qed

lemma login_auth_message_fields:
  "login_auth_message X i =
     as_bytes ''password-vault/login-auth-message/v1'' @ [10]
     @ field_bytes ''challenge_id'' (uuid_text X (la_challenge_id i))
     @ field_bytes ''auth_protocol'' (la_auth_protocol i)
     @ field_bytes ''login_handle_normalized'' (la_login_handle_normalized i)
     @ field_bytes ''client_nonce'' (encode_base64url X (la_client_nonce i))
     @ field_bytes ''server_nonce'' (encode_base64url X (la_server_nonce i))
     @ field_bytes ''client_final_without_proof''
         (encode_base64url X (la_client_final_without_proof i))"
  by (simp add: login_auth_message_def Let_def push_field_eq)

lemma login_auth_message_delim:
  assumes "base64url_roundtrip X" and "uuid_text_injective X"
    and "login_auth_message X i @ r = login_auth_message X j @ s"
  shows "i = j \<and> r = s"
proof -
  have e: "encode_base64url X a = encode_base64url X b \<longleftrightarrow> a = b" for a b
    using assms(1) by (simp add: encode_base64url_def base64url_encode_inject)
  have u: "uuid_text X a = uuid_text X b \<longleftrightarrow> a = b" for a b
    using assms(2) by (simp add: uuid_text_injective_def inj_eq)
  show ?thesis
    using assms(3) by (simp add: login_auth_message_fields field.enc_append_iff e u)
qed

text \<open>C23. The transcript that a login proof signs determines every part of the login attempt:
  challenge, protocol, account handle, both nonces and the client's final message. Two attempts
  with the same transcript are the same attempt, so a proof cannot be moved to another
  challenge, handle or nonce.\<close>

theorem login_auth_message_injective:
  assumes "base64url_roundtrip X" and "uuid_text_injective X"
    and "login_auth_message X i = login_auth_message X j"
  shows "i = (j :: login_auth_data)"
  using login_auth_message_delim [OF assms(1,2), of i "[]" j "[]"] assms(3) by simp

theorem login_auth_message_injective_witness:
  "\<lparr>la_challenge_id = 1, la_auth_protocol = ''derived-auth-v1'', la_login_handle_normalized = ''a'',
     la_client_nonce = [1, 2], la_server_nonce = [3], la_client_final_without_proof = [4]\<rparr>
   = \<lparr>la_challenge_id = 1, la_auth_protocol = to_ascii_lowercase ''Derived-Auth-V1'',
     la_login_handle_normalized = ''a'',
     la_client_nonce = [1, 2], la_server_nonce = [3], la_client_final_without_proof = [4]\<rparr>"
proof -
  have "to_ascii_lowercase ''Derived-Auth-V1'' = ''derived-auth-v1''" by code_simp
  then show ?thesis by (intro login_auth_message_injective [of sample]) simp_all
qed

end
