(* ===== verification/PV_Scram.thy ===== *)
theory PV_Scram
  imports PV_Encoding
begin

text \<open>
  \<^verbatim>\<open>crates/api/src/auth/scram.rs\<close>: the SCRAM-SHA-256 verifier of a login secret, the
  client's proof and its verification. HMAC and SHA-256 are the functions of
  \<^typ>\<open>externals\<close>; iteration counts are natural numbers (the code only compares and counts
  with its \<open>u32\<close>).
\<close>

section \<open>Operations\<close>

definition PROFILE_ID :: string where
  "PROFILE_ID = ''pv-scram-sha-256-v1''"

definition KEY_LEN :: nat where
  "KEY_LEN = 32"

definition MIN_ITERATIONS :: nat where
  "MIN_ITERATIONS = 4096"

definition DEFAULT_ITERATIONS :: nat where
  "DEFAULT_ITERATIONS = 150000"

definition MAX_ITERATIONS :: nat where
  "MAX_ITERATIONS = 1000000"

definition MIN_SALT_BYTES :: nat where
  "MIN_SALT_BYTES = 16"

definition DEFAULT_SALT_BYTES :: nat where
  "DEFAULT_SALT_BYTES = 32"

record scram_verifier =
  sv_stored_key :: bytes
  sv_server_key :: bytes

datatype scram_error =
    IterationsTooLow nat nat \<comment> \<open>minimum, actual\<close>
  | IterationsTooHigh nat nat \<comment> \<open>maximum, actual\<close>
  | SaltTooShort nat nat \<comment> \<open>minimum, actual\<close>
  | InvalidProofLength

fun scram_error_text :: "scram_error \<Rightarrow> string" where
  "scram_error_text (IterationsTooLow minimum actual) =
     ''SCRAM iterations must be at least '' @ dec minimum @ ''; got '' @ dec actual"
| "scram_error_text (IterationsTooHigh maximum actual) =
     ''SCRAM iterations must not exceed '' @ dec maximum @ ''; got '' @ dec actual"
| "scram_error_text (SaltTooShort minimum actual) =
     ''SCRAM salt must be at least '' @ dec minimum @ '' bytes; got '' @ dec actual"
| "scram_error_text InvalidProofLength = ''SCRAM proof must be 32 bytes''"

definition xor_keys :: "bytes \<Rightarrow> bytes \<Rightarrow> bytes" where
  "xor_keys left right = map2 (XOR) left right"

definition validate_iterations :: "nat \<Rightarrow> scram_error + unit" where
  "validate_iterations iterations =
     (if iterations < MIN_ITERATIONS then Inl (IterationsTooLow MIN_ITERATIONS iterations)
      else if iterations > MAX_ITERATIONS then Inl (IterationsTooHigh MAX_ITERATIONS iterations)
      else Inr ())"

definition validate_salt :: "bytes \<Rightarrow> scram_error + unit" where
  "validate_salt salt =
     (if length salt < MIN_SALT_BYTES then Inl (SaltTooShort MIN_SALT_BYTES (length salt))
      else Inr ())"

text \<open>The loop of \<open>salted_password\<close>: \<open>n\<close> rounds are left.\<close>

fun salted_rounds :: "externals \<Rightarrow> bytes \<Rightarrow> nat \<Rightarrow> bytes \<Rightarrow> bytes \<Rightarrow> bytes" where
  "salted_rounds X secret 0 u out = out"
| "salted_rounds X secret (Suc n) u out =
     (let u = hmac_sha256 X secret u in salted_rounds X secret n u (xor_keys out u))"

definition salted_password :: "externals \<Rightarrow> bytes \<Rightarrow> bytes \<Rightarrow> nat \<Rightarrow> scram_error + bytes" where
  "salted_password X secret salt iterations =
     and_then (validate_iterations iterations) (\<lambda>_.
     and_then (validate_salt salt) (\<lambda>_.
       let block_input = salt @ be32 1;
           u = hmac_sha256 X secret block_input
       in Inr (salted_rounds X secret (iterations - 1) u u)))"

definition derive_verifier :: "externals \<Rightarrow> bytes \<Rightarrow> bytes \<Rightarrow> nat \<Rightarrow> scram_error + scram_verifier" where
  "derive_verifier X secret salt iterations =
     and_then (salted_password X secret salt iterations) (\<lambda>sp.
       let client_key = hmac_sha256 X sp (as_bytes ''Client Key'');
           stored_key = sha256 X client_key;
           server_key = hmac_sha256 X sp (as_bytes ''Server Key'')
       in Inr \<lparr>sv_stored_key = stored_key, sv_server_key = server_key\<rparr>)"

definition client_proof :: "externals \<Rightarrow> bytes \<Rightarrow> bytes \<Rightarrow> nat \<Rightarrow> bytes \<Rightarrow> scram_error + bytes" where
  "client_proof X secret salt iterations auth_message =
     and_then (salted_password X secret salt iterations) (\<lambda>sp.
       let client_key = hmac_sha256 X sp (as_bytes ''Client Key'');
           stored_key = sha256 X client_key;
           client_signature = hmac_sha256 X stored_key auth_message
       in Inr (xor_keys client_key client_signature))"

definition server_signature :: "externals \<Rightarrow> bytes \<Rightarrow> bytes \<Rightarrow> bytes" where
  "server_signature X server_key auth_message = hmac_sha256 X server_key auth_message"

definition verify_client_proof :: "externals \<Rightarrow> bytes \<Rightarrow> bytes \<Rightarrow> bytes \<Rightarrow> scram_error + bool" where
  "verify_client_proof X stored_key auth_message proof =
     (if length proof \<noteq> KEY_LEN then Inl InvalidProofLength
      else
        let client_signature = hmac_sha256 X stored_key auth_message;
            client_key = xor_keys proof client_signature;
            candidate_stored_key = sha256 X client_key
        in Inr (candidate_stored_key = stored_key))"

section \<open>Masking with a key\<close>

text \<open>The interface of the exclusive-or mask: masking twice restores a key of full length.\<close>

locale key_mask =
  fixes mask :: "'k \<Rightarrow> 'k \<Rightarrow> 'k" and full :: "'k \<Rightarrow> bool"
  assumes mask_full [intro]: "full k \<Longrightarrow> full m \<Longrightarrow> full (mask k m)"
    and mask_mask: "full k \<Longrightarrow> full m \<Longrightarrow> mask (mask k m) m = k"
begin

lemma unmask_iff: "full k \<Longrightarrow> full m \<Longrightarrow> full p \<Longrightarrow> mask p m = k \<longleftrightarrow> p = mask k m"
  using mask_mask by metis

lemma mask_inject: "full k \<Longrightarrow> full k' \<Longrightarrow> full m \<Longrightarrow> mask k m = mask k' m \<longleftrightarrow> k = k'"
  using mask_mask by metis

end

lemma length_xor_keys [simp]: "length (xor_keys a b) = min (length a) (length b)"
  by (simp add: xor_keys_def)

lemma xor_keys_cancel: "length a \<le> length b \<Longrightarrow> xor_keys (xor_keys a b) b = a"
proof (induction a arbitrary: b)
  case (Cons x a)
  then show ?case by (cases b) (auto simp: xor_keys_def xor.assoc)
qed (simp add: xor_keys_def)

interpretation xor_key: key_mask xor_keys "\<lambda>k. length k = KEY_LEN"
  by unfold_locales (simp_all add: xor_keys_cancel)

section \<open>Lemmas\<close>

lemma validate_iterations_Inr:
  "validate_iterations n = Inr u \<longleftrightarrow> MIN_ITERATIONS \<le> n \<and> n \<le> MAX_ITERATIONS"
  by (auto simp: validate_iterations_def)

lemma validate_salt_Inr: "validate_salt s = Inr u \<longleftrightarrow> MIN_SALT_BYTES \<le> length s"
  by (auto simp: validate_salt_def)

text \<open>The specification of the key derivation: the first block of PBKDF2 (RFC 8018), the
  exclusive or of the chain \<open>U\<^sub>1, \<dots>, U\<^sub>c\<close> with \<open>U\<^sub>1\<close> the HMAC of the salt and the
  block number and each further \<open>U\<^sub>i\<close> the HMAC of the one before.\<close>

fun pbkdf2_u :: "externals \<Rightarrow> bytes \<Rightarrow> bytes \<Rightarrow> nat \<Rightarrow> bytes" where
  "pbkdf2_u X secret salt 0 = hmac_sha256 X secret (salt @ [0, 0, 0, 1])"
| "pbkdf2_u X secret salt (Suc i) = hmac_sha256 X secret (pbkdf2_u X secret salt i)"

definition pbkdf2_block :: "externals \<Rightarrow> bytes \<Rightarrow> bytes \<Rightarrow> nat \<Rightarrow> bytes" where
  "pbkdf2_block X secret salt c =
     foldl xor_keys (pbkdf2_u X secret salt 0) (map (pbkdf2_u X secret salt) [1..<c])"

lemma be32_1: "be32 1 = [0, 0, 0, 1]"
  by (simp add: be32_def)

lemma salted_rounds_foldl:
  "salted_rounds X secret n (pbkdf2_u X secret salt k) out =
     foldl xor_keys out (map (pbkdf2_u X secret salt) [Suc k..<Suc k + n])"
proof (induction n arbitrary: k out)
  case (Suc n)
  have "[Suc k..<Suc k + Suc n] = Suc k # [Suc (Suc k)..<Suc (Suc k) + n]"
    by (simp add: upt_rec [of "Suc k"])
  with Suc.IH [of "Suc k"] show ?case by (simp add: Let_def)
qed simp

lemma salted_password_Inr_iff:
  "salted_password X secret salt n = Inr sp \<longleftrightarrow>
     MIN_ITERATIONS \<le> n \<and> n \<le> MAX_ITERATIONS \<and> MIN_SALT_BYTES \<le> length salt
     \<and> sp = pbkdf2_block X secret salt n"
proof (cases "MIN_ITERATIONS \<le> n")
  case True
  then have "Suc 0 + (n - 1) = n" by (simp add: MIN_ITERATIONS_def)
  then have "salted_rounds X secret (n - 1) (pbkdf2_u X secret salt 0) (pbkdf2_u X secret salt 0)
      = pbkdf2_block X secret salt n"
    using salted_rounds_foldl [of X secret "n - 1" salt 0 "pbkdf2_u X secret salt 0"]
    by (simp add: pbkdf2_block_def del: pbkdf2_u.simps)
  then show ?thesis
    by (auto simp: salted_password_def and_then_Inr_iff validate_iterations_Inr validate_salt_Inr
        be32_1 Let_def)
qed (auto simp: salted_password_def and_then_Inr_iff validate_iterations_Inr)

section \<open>Properties\<close>

text \<open>C25. Key derivation is PBKDF2 with HMAC-SHA-256: for an iteration count and a salt within
  the bounds, \<open>salted_password\<close> returns the exclusive or of the whole chain of rounds, and
  outside the bounds it returns the error that names the violated bound, iterations first.\<close>

theorem salted_password_is_pbkdf2:
  "salted_password X secret salt n =
     (if n < MIN_ITERATIONS then Inl (IterationsTooLow MIN_ITERATIONS n)
      else if MAX_ITERATIONS < n then Inl (IterationsTooHigh MAX_ITERATIONS n)
      else if length salt < MIN_SALT_BYTES then Inl (SaltTooShort MIN_SALT_BYTES (length salt))
      else Inr (pbkdf2_block X secret salt n))"
proof (cases "MIN_ITERATIONS \<le> n \<and> n \<le> MAX_ITERATIONS \<and> MIN_SALT_BYTES \<le> length salt")
  case True
  then have "salted_password X secret salt n = Inr (pbkdf2_block X secret salt n)"
    by (simp add: salted_password_Inr_iff)
  with True show ?thesis by simp
next
  case False
  then show ?thesis
    by (auto simp: salted_password_def validate_iterations_def validate_salt_def)
qed

lemma honest_proof_verifies:
  assumes "hmac_lengths X" and "derive_verifier X secret salt n = Inr v"
    and "client_proof X secret salt n msg = Inr p"
  shows "verify_client_proof X (sv_stored_key v) msg p = Inr True"
proof -
  from assms(2) obtain sp where sp: "salted_password X secret salt n = Inr sp"
    and v: "sv_stored_key v = sha256 X (hmac_sha256 X sp (as_bytes ''Client Key''))"
    by (auto simp: derive_verifier_def and_then_Inr_iff Let_def)
  from assms(3) sp have p: "p = xor_keys (hmac_sha256 X sp (as_bytes ''Client Key''))
      (hmac_sha256 X (sv_stored_key v) msg)"
    by (auto simp: client_proof_def and_then_Inr_iff Let_def v)
  have len: "length (hmac_sha256 X k m) = KEY_LEN" for k m
    using assms(1) by (simp add: hmac_lengths_def KEY_LEN_def)
  show ?thesis
    unfolding verify_client_proof_def p using len by (simp add: Let_def xor_key.mask_mask v)
qed

lemma honest_proof_exists:
  assumes "hmac_lengths X" and "derive_verifier X secret salt n = Inr v"
  obtains p where "client_proof X secret salt n msg = Inr p" "length p = KEY_LEN"
proof -
  from assms(2) obtain sp where sp: "salted_password X secret salt n = Inr sp"
    by (auto simp: derive_verifier_def and_then_Inr_iff)
  have len: "length (hmac_sha256 X k m) = KEY_LEN" for k m
    using assms(1) by (simp add: hmac_lengths_def KEY_LEN_def)
  let ?k = "hmac_sha256 X sp (as_bytes ''Client Key'')"
  have "client_proof X secret salt n msg = Inr (xor_keys ?k (hmac_sha256 X (sha256 X ?k) msg))"
    by (simp add: client_proof_def sp Let_def)
  then show thesis by (rule that) (simp add: len)
qed

text \<open>Registration and login agree: the proof that a client computes from its secret, salt
  and iteration count is accepted against the verifier derived from the same secret, salt and
  count, for every transcript.\<close>

theorem client_proof_verifies:
  assumes "hmac_lengths X" and "derive_verifier X secret salt n = Inr v"
    and "client_proof X secret salt n msg = Inr p"
  shows "verify_client_proof X (sv_stored_key v) msg p = Inr True"
  using honest_proof_verifies [OF assms] .

theorem client_proof_verifies_witness:
  "\<exists>v p. derive_verifier sample [1, 2] (replicate 16 3) 4096 = Inr v
     \<and> client_proof sample [1, 2] (replicate 16 3) 4096 [9] = Inr p
     \<and> verify_client_proof sample (sv_stored_key v) [9] p = Inr True"
proof -
  obtain sp where sp: "salted_password sample [1, 2] (replicate 16 3) 4096 = Inr sp"
    by (simp add: salted_password_Inr_iff MIN_ITERATIONS_def MAX_ITERATIONS_def MIN_SALT_BYTES_def)
  obtain v where v: "derive_verifier sample [1, 2] (replicate 16 3) 4096 = Inr v"
    using sp by (simp add: derive_verifier_def Let_def)
  obtain p where p: "client_proof sample [1, 2] (replicate 16 3) 4096 [9] = Inr p"
    using sp by (simp add: client_proof_def Let_def)
  from v p client_proof_verifies [OF sample_hmac v p] show ?thesis by blast
qed



end
