(* ===== verification/PV_World.thy ===== *)
theory PV_World
  imports PV_Schema PV_Scram
begin

text \<open>
  The world in which a request handler runs, and the sequencing of its effects. A handler is a
  function from an environment (configuration, clock, random source, fault pattern of the
  database, third-party functions) and a world (database, open transaction, emitted metrics) to
  an error or a value and the next world. Every call that leaves the process takes the next
  position of the environment's streams, so clocks, random bytes and faults may differ from call
  to call. The weakest-precondition function \<open>wp\<close> and its equations carry the handler proofs.
\<close>

section \<open>Errors of the API\<close>

text \<open>\<open>ApiError\<close>: one constructor per associated function; status, code and message are those of
  the code.\<close>

datatype api_error =
    BadRequest
  | ServiceUnavailable
  | RateLimited
  | RegistrationUnavailable
  | SessionRequired
  | CsrfRequired
  | MfaRequired
  | NotFound
  | MfaVerificationFailed
  | AuthFailed

fun api_status :: "api_error \<Rightarrow> nat" where
  "api_status BadRequest = 400"
| "api_status ServiceUnavailable = 503"
| "api_status RateLimited = 429"
| "api_status RegistrationUnavailable = 409"
| "api_status SessionRequired = 401"
| "api_status CsrfRequired = 403"
| "api_status MfaRequired = 403"
| "api_status NotFound = 404"
| "api_status MfaVerificationFailed = 403"
| "api_status AuthFailed = 401"

fun api_code :: "api_error \<Rightarrow> string" where
  "api_code BadRequest = ''bad_request''"
| "api_code ServiceUnavailable = ''service_unavailable''"
| "api_code RateLimited = ''rate_limited''"
| "api_code RegistrationUnavailable = ''registration_unavailable''"
| "api_code SessionRequired = ''session_required''"
| "api_code CsrfRequired = ''csrf_required''"
| "api_code MfaRequired = ''mfa_required''"
| "api_code NotFound = ''not_found''"
| "api_code MfaVerificationFailed = ''mfa_verification_failed''"
| "api_code AuthFailed = ''auth_failed''"

fun api_message :: "api_error \<Rightarrow> string" where
  "api_message BadRequest = ''Bad request.''"
| "api_message ServiceUnavailable = ''Service is temporarily unavailable.''"
| "api_message RateLimited = ''Too many requests.''"
| "api_message RegistrationUnavailable = ''Registration is unavailable.''"
| "api_message SessionRequired = ''A valid session is required.''"
| "api_message CsrfRequired = ''A valid CSRF token is required.''"
| "api_message MfaRequired = ''MFA enrollment or verification is required.''"
| "api_message NotFound = ''Not found.''"
| "api_message MfaVerificationFailed = ''MFA verification failed.''"
| "api_message AuthFailed = ''Authentication failed.''"

section \<open>Environment and world\<close>

text \<open>What a statement sent to the database can meet: it runs, it is lost, or it runs and the
  reply is lost. Every failure reaches the code as an error of the sqlx crate.\<close>

datatype fault = Fine | Lost | ReplyLost

record app_config =
  cf_synthetic_metadata_key :: "bytes option"
  cf_totp_seed_key :: "bytes option"
  cf_database :: bool \<comment> \<open>\<open>AppState.database\<close> holds a pool\<close>

record env =
  ext :: externals
  conf :: app_config
  fault_at :: "nat \<Rightarrow> fault"
  clock :: "nat \<Rightarrow> time"
  draw :: "nat \<Rightarrow> nat \<Rightarrow> byte"
  fresh_uuid :: "nat \<Rightarrow> uuid"
  traffic_class :: string

text \<open>A metric is its name and its labels.\<close>

type_synonym metric = "string \<times> (string \<times> string) list"

text \<open>An open transaction is the state it sees and the time at which it began (the value of
  \<open>now()\<close> and of the \<open>DEFAULT now()\<close> columns inside it).\<close>

record world =
  w_db :: db
  w_txn :: "(db \<times> time) option"
  w_tick :: nat
  w_metrics :: "metric list"

type_synonym ('e, 'a) io = "env \<Rightarrow> world \<Rightarrow> ('e + 'a) \<times> world"

section \<open>Sequencing\<close>

definition ret :: "'a \<Rightarrow> ('e, 'a) io" where
  "ret a = (\<lambda>e w. (Inr a, w))"

definition throw :: "'e \<Rightarrow> ('e, 'a) io" where
  "throw x = (\<lambda>e w. (Inl x, w))"

text \<open>\<open>let x = m?; \<dots>\<close>\<close>

definition try_io :: "('e, 'a) io \<Rightarrow> ('a \<Rightarrow> ('e, 'b) io) \<Rightarrow> ('e, 'b) io" where
  "try_io m f = (\<lambda>e w. case m e w of (Inl x, w') \<Rightarrow> (Inl x, w') | (Inr a, w') \<Rightarrow> f a e w')"

text \<open>\<open>Result::map_err\<close>, a pure result as a step, and a step whose result is inspected as a value.\<close>

definition map_err_io :: "('e \<Rightarrow> 'f) \<Rightarrow> ('e, 'a) io \<Rightarrow> ('f, 'a) io" where
  "map_err_io g m = (\<lambda>e w. case m e w of (r, w') \<Rightarrow> (map_err g r, w'))"

definition lift :: "'e + 'a \<Rightarrow> ('e, 'a) io" where
  "lift r = (\<lambda>e w. (r, w))"

definition attempt :: "('e, 'a) io \<Rightarrow> ('f, 'e + 'a) io" where
  "attempt m = (\<lambda>e w. case m e w of (r, w') \<Rightarrow> (Inr r, w'))"

definition ask :: "('e, env) io" where
  "ask = (\<lambda>e w. (Inr e, w))"

definition emit :: "string \<Rightarrow> (string \<times> string) list \<Rightarrow> ('e, unit) io" where
  "emit name labels = (\<lambda>e w. (Inr (), w\<lparr>w_metrics := w_metrics w @ [(name, labels)]\<rparr>))"

section \<open>Clock and random source\<close>

definition now_utc_second :: "('e, time) io" where
  "now_utc_second = (\<lambda>e w.
     (Inr (clock e (w_tick w) div 1000000 * 1000000), w\<lparr>w_tick := w_tick w + 1\<rparr>))"

definition random_bytes :: "nat \<Rightarrow> ('e, bytes) io" where
  "random_bytes n = (\<lambda>e w.
     (Inr (map (draw e (w_tick w)) [0..<n]), w\<lparr>w_tick := w_tick w + 1\<rparr>))"

definition new_uuid :: "('e, uuid) io" where
  "new_uuid = (\<lambda>e w. (Inr (fresh_uuid e (w_tick w)), w\<lparr>w_tick := w_tick w + 1\<rparr>))"

section \<open>Database calls\<close>

text \<open>A statement is a function of the time and the database to a failure or its result and
  the next database.\<close>

type_synonym 'a stmt = "time \<Rightarrow> db \<Rightarrow> sql_error + 'a \<times> db"

definition query :: "(db \<Rightarrow> 'a) \<Rightarrow> 'a stmt" where
  "query f = (\<lambda>t d. Inr (f d, d))"

definition command :: "(time \<Rightarrow> db \<Rightarrow> sql_error + db) \<Rightarrow> unit stmt" where
  "command f = (\<lambda>t d. case f t d of Inl x \<Rightarrow> Inl x | Inr d' \<Rightarrow> Inr ((), d'))"

text \<open>A statement on the pool commits by itself.\<close>

definition run_pool :: "'a stmt \<Rightarrow> (sql_error, 'a) io" where
  "run_pool q = (\<lambda>e w.
     let n = w_tick w; w = w\<lparr>w_tick := n + 1\<rparr> in
     if fault_at e n = Lost then (Inl SqlFailure, w)
     else case q (clock e n) (w_db w) of
         Inl x \<Rightarrow> (Inl x, w)
       | Inr (a, d) \<Rightarrow>
           (if fault_at e n = ReplyLost then Inl SqlFailure else Inr a, w\<lparr>w_db := d\<rparr>))"

text \<open>\<open>pool.begin()\<close>, a statement in the transaction (a failed one aborts it), \<open>commit()\<close>.\<close>

definition begin_tx :: "(sql_error, unit) io" where
  "begin_tx = (\<lambda>e w.
     let n = w_tick w; w = w\<lparr>w_tick := n + 1\<rparr> in
     if fault_at e n = Fine then (Inr (), w\<lparr>w_txn := Some (w_db w, clock e n)\<rparr>)
     else (Inl SqlFailure, w))"

definition run_tx :: "'a stmt \<Rightarrow> (sql_error, 'a) io" where
  "run_tx q = (\<lambda>e w.
     let n = w_tick w; w = w\<lparr>w_tick := n + 1\<rparr> in
     case w_txn w of
       None \<Rightarrow> (Inl SqlFailure, w)
     | Some (d, t) \<Rightarrow>
         if fault_at e n \<noteq> Fine then (Inl SqlFailure, w\<lparr>w_txn := None\<rparr>)
         else case q t d of
             Inl x \<Rightarrow> (Inl x, w\<lparr>w_txn := None\<rparr>)
           | Inr (a, d') \<Rightarrow> (Inr a, w\<lparr>w_txn := Some (d', t)\<rparr>))"

definition commit_tx :: "(sql_error, unit) io" where
  "commit_tx = (\<lambda>e w.
     let n = w_tick w; w = w\<lparr>w_tick := n + 1\<rparr> in
     case w_txn w of
       None \<Rightarrow> (Inl SqlFailure, w)
     | Some (d, t) \<Rightarrow>
         if fault_at e n = Lost then (Inl SqlFailure, w\<lparr>w_txn := None\<rparr>)
         else (if fault_at e n = ReplyLost then Inl SqlFailure else Inr (),
               w\<lparr>w_txn := None, w_db := d\<rparr>))"

text \<open>The transaction value is dropped when the handler returns, which rolls it back.\<close>

definition handler :: "('e, 'a) io \<Rightarrow> ('e, 'a) io" where
  "handler m = (\<lambda>e w. case m e w of (r, w') \<Rightarrow> (r, w'\<lparr>w_txn := None\<rparr>))"

text \<open>\<open>.map_err(|_| ApiError::service_unavailable())\<close>, the most frequent use of a database call.\<close>

definition unavailable :: "(sql_error, 'a) io \<Rightarrow> (api_error, 'a) io" where
  "unavailable m = map_err_io (\<lambda>_. ServiceUnavailable) m"

abbreviation pool_call :: "'a stmt \<Rightarrow> (api_error, 'a) io" where
  "pool_call q \<equiv> unavailable (run_pool q)"

abbreviation tx_call :: "'a stmt \<Rightarrow> (api_error, 'a) io" where
  "tx_call q \<equiv> unavailable (run_tx q)"

definition database_pool :: "(api_error, unit) io" where
  "database_pool = try_io ask (\<lambda>e. if cf_database (conf e) then ret () else throw ServiceUnavailable)"

text \<open>\<open>format_rfc3339\<close>, \<open>unix_time_seconds\<close>.\<close>

definition format_rfc3339 :: "time \<Rightarrow> (api_error, string) io" where
  "format_rfc3339 t = try_io ask (\<lambda>e. lift (ok_or ServiceUnavailable (rfc3339 (ext e) t)))"

text \<open>\<open>HeaderValue::from_str\<close> on a value that the code has built.\<close>

definition header_value :: "string \<Rightarrow> (api_error, string) io" where
  "header_value s =
     try_io ask (\<lambda>e. lift (if header_value_ok (ext e) s then Inr s else Inl ServiceUnavailable))"

definition unix_time_seconds :: "time \<Rightarrow> api_error + nat" where
  "unix_time_seconds t =
     (let s = t div 1000000 in if 0 \<le> s then Inr (nat s) else Inl ServiceUnavailable)"

section \<open>Requests and responses\<close>

text \<open>The request headers are the function that gives a header's first value where it is visible
  ASCII (\<open>headers.get(name).and_then(|v| v.to_str().ok())\<close>, the only way the code reads them).\<close>

type_synonym headers = "string \<Rightarrow> string option"

record 'b response =
  rs_status :: nat
  rs_cache_control :: string
  rs_set_cookie :: "string option"
  rs_body :: 'b

definition no_store_json :: "nat \<Rightarrow> 'b \<Rightarrow> 'b response" where
  "no_store_json status body =
     \<lparr>rs_status = status, rs_cache_control = ''no-store'', rs_set_cookie = None, rs_body = body\<rparr>"

section \<open>Weakest preconditions\<close>

definition wp ::
  "env \<Rightarrow> ('e, 'a) io \<Rightarrow> ('a \<Rightarrow> world \<Rightarrow> bool) \<Rightarrow> ('e \<Rightarrow> world \<Rightarrow> bool) \<Rightarrow> world \<Rightarrow> bool" where
  "wp e m Q R w = (case m e w of (Inl x, w') \<Rightarrow> R x w' | (Inr a, w') \<Rightarrow> Q a w')"

named_theorems wp_eqs \<open>equations that push wp through the sequencing operators\<close>

lemma wp_ret [wp_eqs]: "wp e (ret a) Q R w = Q a w"
  by (simp add: wp_def ret_def)

lemma wp_throw [wp_eqs]: "wp e (throw x) Q R w = R x w"
  by (simp add: wp_def throw_def)

lemma wp_try [wp_eqs]: "wp e (try_io m f) Q R w = wp e m (\<lambda>a. wp e (f a) Q R) R w"
  by (auto simp: wp_def try_io_def split: prod.splits sum.splits)

lemma wp_map_err [wp_eqs]: "wp e (map_err_io g m) Q R w = wp e m Q (\<lambda>x. R (g x)) w"
  by (auto simp: wp_def map_err_io_def map_err_def split: prod.splits sum.splits)

lemma wp_unavailable [wp_eqs]:
  "wp e (unavailable m) Q R w = wp e m Q (\<lambda>_. R ServiceUnavailable) w"
  by (simp add: unavailable_def wp_map_err)

lemma wp_lift [wp_eqs]: "wp e (lift r) Q R w = (case r of Inl x \<Rightarrow> R x w | Inr a \<Rightarrow> Q a w)"
  by (simp add: wp_def lift_def split: sum.splits)

lemma wp_attempt [wp_eqs]: "wp e (attempt m) Q R w = wp e m (\<lambda>a. Q (Inr a)) (\<lambda>x. Q (Inl x)) w"
  by (auto simp: wp_def attempt_def split: prod.splits sum.splits)

lemma wp_ask [wp_eqs]: "wp e ask Q R w = Q e w"
  by (simp add: wp_def ask_def)

lemma wp_emit [wp_eqs]:
  "wp e (emit n l) Q R w = Q () (w\<lparr>w_metrics := w_metrics w @ [(n, l)]\<rparr>)"
  by (simp add: wp_def emit_def)

lemma wp_now [wp_eqs]:
  "wp e now_utc_second Q R w =
     Q (clock e (w_tick w) div 1000000 * 1000000) (w\<lparr>w_tick := w_tick w + 1\<rparr>)"
  by (simp add: wp_def now_utc_second_def)

lemma wp_random [wp_eqs]:
  "wp e (random_bytes n) Q R w =
     Q (map (draw e (w_tick w)) [0..<n]) (w\<lparr>w_tick := w_tick w + 1\<rparr>)"
  by (simp add: wp_def random_bytes_def)

lemma wp_uuid [wp_eqs]:
  "wp e new_uuid Q R w = Q (fresh_uuid e (w_tick w)) (w\<lparr>w_tick := w_tick w + 1\<rparr>)"
  by (simp add: wp_def new_uuid_def)

lemma wp_if [wp_eqs]:
  "wp e (if b then m else n) Q R w = (if b then wp e m Q R w else wp e n Q R w)"
  by simp

lemma wp_case_option [wp_eqs]:
  "wp e (case x of None \<Rightarrow> m | Some a \<Rightarrow> f a) Q R w =
     (case x of None \<Rightarrow> wp e m Q R w | Some a \<Rightarrow> wp e (f a) Q R w)"
  by (cases x) simp_all

lemma wp_case_sum [wp_eqs]:
  "wp e (case x of Inl b \<Rightarrow> m b | Inr a \<Rightarrow> f a) Q R w =
     (case x of Inl b \<Rightarrow> wp e (m b) Q R w | Inr a \<Rightarrow> wp e (f a) Q R w)"
  by (cases x) simp_all

lemma wp_case_prod [wp_eqs]:
  "wp e (case x of (a, b) \<Rightarrow> f a b) Q R w = (case x of (a, b) \<Rightarrow> wp e (f a b) Q R w)"
  by (cases x) simp_all

lemma wp_handler [wp_eqs]:
  "wp e (handler m) Q R w =
     wp e m (\<lambda>a w. Q a (w\<lparr>w_txn := None\<rparr>)) (\<lambda>x w. R x (w\<lparr>w_txn := None\<rparr>)) w"
  by (auto simp: wp_def handler_def split: prod.splits sum.splits)

lemma wp_database_pool [wp_eqs]:
  "wp e database_pool Q R w = (if cf_database (conf e) then Q () w else R ServiceUnavailable w)"
  by (simp add: database_pool_def wp_eqs)

lemma wp_format [wp_eqs]:
  "wp e (format_rfc3339 t) Q R w =
     (case rfc3339 (ext e) t of None \<Rightarrow> R ServiceUnavailable w | Some s \<Rightarrow> Q s w)"
  by (simp add: format_rfc3339_def wp_eqs ok_or_def split: option.splits)

lemma wp_header_value [wp_eqs]:
  "wp e (header_value s) Q R w =
     (if header_value_ok (ext e) s then Q s w else R ServiceUnavailable w)"
  by (simp add: header_value_def wp_eqs)

lemma wp_mono:
  "wp e m Q R w \<Longrightarrow> (\<And>a w'. Q a w' \<Longrightarrow> Q' a w') \<Longrightarrow> (\<And>x w'. R x w' \<Longrightarrow> R' x w') \<Longrightarrow> wp e m Q' R' w"
  by (auto simp: wp_def split: prod.splits sum.splits)

lemma wp_result:
  "m e w = (r, w') \<Longrightarrow> wp e m Q R w \<Longrightarrow> (case r of Inl x \<Rightarrow> R x w' | Inr a \<Rightarrow> Q a w')"
  by (auto simp: wp_def split: sum.splits)

section \<open>Database steps\<close>

text \<open>Handlers are proved against a relation \<open>S\<close> on databases: whatever the faults, the
  committed database moves by steps of \<open>S\<close>. The predicate \<open>moves\<close> says so of a piece of code
  that runs outside a transaction.\<close>

definition moves :: "(db \<Rightarrow> db \<Rightarrow> bool) \<Rightarrow> env \<Rightarrow> ('e, 'a) io \<Rightarrow> bool" where
  "moves S e m \<longleftrightarrow> (\<forall>w. w_txn w = None \<longrightarrow>
     (case m e w of (r, w') \<Rightarrow> S\<^sup>*\<^sup>* (w_db w) (w_db w') \<and> w_txn w' = None))"

lemma movesD:
  assumes "moves S e m" and "w_txn w = None" and "m e w = (r, w')"
  shows "S\<^sup>*\<^sup>* (w_db w) (w_db w')" and "w_txn w' = None"
proof -
  from assms(1)[unfolded moves_def, rule_format, OF assms(2)]
  have "case m e w of (r, w') \<Rightarrow> S\<^sup>*\<^sup>* (w_db w) (w_db w') \<and> w_txn w' = None" .
  then show "S\<^sup>*\<^sup>* (w_db w) (w_db w')" and "w_txn w' = None" by (simp_all add: assms(3))
qed

lemma movesI:
  assumes "\<And>w r w'. w_txn w = None \<Longrightarrow> m e w = (r, w') \<Longrightarrow>
    S\<^sup>*\<^sup>* (w_db w) (w_db w') \<and> w_txn w' = None"
  shows "moves S e m"
  unfolding moves_def
proof (intro allI impI)
  fix w :: world assume w: "w_txn w = None"
  obtain r w' where m: "m e w = (r, w')" by force
  from assms [OF w m] m
  show "case m e w of (r, w') \<Rightarrow> S\<^sup>*\<^sup>* (w_db w) (w_db w') \<and> w_txn w' = None" by simp
qed

lemma movesI_wp:
  assumes "\<And>w. w_txn w = None \<Longrightarrow>
    wp e m (\<lambda>a w'. S\<^sup>*\<^sup>* (w_db w) (w_db w') \<and> w_txn w' = None)
           (\<lambda>x w'. S\<^sup>*\<^sup>* (w_db w) (w_db w') \<and> w_txn w' = None) w"
  shows "moves S e m"
proof (rule movesI)
  fix w r w' assume w: "w_txn w = None" and m: "m e w = (r, w')"
  from wp_result [OF m assms [OF w]] show "S\<^sup>*\<^sup>* (w_db w) (w_db w') \<and> w_txn w' = None"
    by (cases r) simp_all
qed

lemma moves_wp:
  assumes "moves S e m" and "w_txn w = None"
  shows "wp e m (\<lambda>a w'. S\<^sup>*\<^sup>* (w_db w) (w_db w') \<and> w_txn w' = None)
           (\<lambda>x w'. S\<^sup>*\<^sup>* (w_db w) (w_db w') \<and> w_txn w' = None) w"
  using assms by (auto simp: moves_def wp_def split: prod.splits sum.splits)

lemma moves_still:
  assumes "\<And>w r w'. m e w = (r, w') \<Longrightarrow> w_db w' = w_db w \<and> w_txn w' = w_txn w"
  shows "moves S e m"
  using assms by (fastforce simp: moves_def split: prod.splits)

lemma moves_try [intro]:
  assumes "moves S e m" and "\<And>a. moves S e (f a)"
  shows "moves S e (try_io m f)"
  unfolding moves_def
proof (intro allI impI)
  fix w :: world assume w: "w_txn w = None"
  obtain r w' where m: "m e w = (r, w')" by force
  note step = movesD [OF assms(1) w m]
  show "case try_io m f e w of (r, w') \<Rightarrow> S\<^sup>*\<^sup>* (w_db w) (w_db w') \<and> w_txn w' = None"
  proof (cases r)
    case (Inl x)
    with m step show ?thesis by (simp add: try_io_def)
  next
    case (Inr a)
    obtain r2 w2 where f: "f a e w' = (r2, w2)" by force
    from movesD [OF assms(2) step(2) f] step(1) m Inr f show ?thesis
      by (auto simp: try_io_def)
  qed
qed

lemma moves_map_err [intro]: "moves S e m \<Longrightarrow> moves S e (map_err_io g m)"
  by (rule movesI) (auto simp: map_err_io_def split: prod.splits dest: movesD)

lemma moves_unavailable [intro]: "moves S e m \<Longrightarrow> moves S e (unavailable m)"
  by (auto simp: unavailable_def)

lemma moves_attempt [intro]: "moves S e m \<Longrightarrow> moves S e (attempt m)"
  by (rule movesI) (auto simp: attempt_def split: prod.splits dest: movesD)

lemma moves_ret [intro, simp]: "moves S e (ret a)"
  by (rule moves_still) (simp add: ret_def)

lemma moves_throw [intro, simp]: "moves S e (throw x)"
  by (rule moves_still) (simp add: throw_def)

lemma moves_lift [intro, simp]: "moves S e (lift r)"
  by (rule moves_still) (simp add: lift_def)

lemma moves_ask [intro, simp]: "moves S e ask"
  by (rule moves_still) (simp add: ask_def)

lemma moves_emit [intro, simp]: "moves S e (emit n l)"
  by (rule moves_still) (auto simp: emit_def)

lemma moves_now [intro, simp]: "moves S e now_utc_second"
  by (rule moves_still) (auto simp: now_utc_second_def)

lemma moves_random [intro, simp]: "moves S e (random_bytes n)"
  by (rule moves_still) (auto simp: random_bytes_def)

lemma moves_uuid [intro, simp]: "moves S e new_uuid"
  by (rule moves_still) (auto simp: new_uuid_def)

lemma moves_pool [intro, simp]: "moves S e database_pool"
  by (auto simp: database_pool_def)

lemma moves_format [intro, simp]: "moves S e (format_rfc3339 t)"
  by (auto simp: format_rfc3339_def)

lemma moves_header_value [intro, simp]: "moves S e (header_value s)"
  by (auto simp: header_value_def)

lemma run_pool_cases:
  assumes "run_pool q e w = (r, w')"
  shows "w_txn w' = w_txn w \<and>
    (w_db w' = w_db w \<or> (\<exists>a. q (clock e (w_tick w)) (w_db w) = Inr (a, w_db w')))"
proof (cases "q (clock e (w_tick w)) (w_db w)")
  case (Inl x)
  with assms show ?thesis
    by (cases "fault_at e (w_tick w)") (clarsimp simp: run_pool_def)+
next
  case (Inr ad)
  with assms show ?thesis
    by (cases "fault_at e (w_tick w)"; cases ad) (clarsimp simp: run_pool_def)+
qed

lemma moves_run_pool:
  assumes "\<And>t d a d'. q t d = Inr (a, d') \<Longrightarrow> S\<^sup>*\<^sup>* d d'"
  shows "moves S e (run_pool q)"
proof (rule movesI)
  fix w r w' assume "w_txn w = None" and "run_pool q e w = (r, w')"
  with run_pool_cases [of q e w r w'] assms
  show "S\<^sup>*\<^sup>* (w_db w) (w_db w') \<and> w_txn w' = None" by (metis rtranclp.rtrancl_refl)
qed

lemma moves_handler [intro]:
  assumes "moves S e m"
  shows "moves S e (handler m)"
proof (rule movesI)
  fix w r w' assume w: "w_txn w = None" and run: "handler m e w = (r, w')"
  obtain r0 w0 where m: "m e w = (r0, w0)" by force
  have "w' = w0\<lparr>w_txn := None\<rparr>" using run by (simp add: handler_def m)
  with movesD [OF assms w m] show "S\<^sup>*\<^sup>* (w_db w) (w_db w') \<and> w_txn w' = None" by simp
qed

lemma moves_if: "moves S e m \<Longrightarrow> moves S e n \<Longrightarrow> moves S e (if b then m else n)"
  by simp

lemma moves_case_option:
  "moves S e m \<Longrightarrow> (\<And>a. moves S e (f a)) \<Longrightarrow> moves S e (case x of None \<Rightarrow> m | Some a \<Rightarrow> f a)"
  by (cases x) simp_all

lemma moves_case_sum:
  "(\<And>b. moves S e (m b)) \<Longrightarrow> (\<And>a. moves S e (f a)) \<Longrightarrow>
     moves S e (case x of Inl b \<Rightarrow> m b | Inr a \<Rightarrow> f a)"
  by (cases x) simp_all

lemma moves_case_prod: "(\<And>a b. moves S e (f a b)) \<Longrightarrow> moves S e (case x of (a, b) \<Rightarrow> f a b)"
  by (cases x) simp_all

lemma moves_command:
  assumes "\<And>t d d'. f t d = Inr d' \<Longrightarrow> S d d'"
  shows "moves S e (run_pool (command f))"
  by (rule moves_run_pool) (auto simp: command_def split: sum.splits dest: assms)

lemma moves_query [intro, simp]: "moves S e (run_pool (query f))"
  by (rule moves_run_pool) (simp add: query_def)

lemmas moves_intros =
  moves_handler moves_try moves_map_err moves_unavailable moves_attempt moves_ret moves_throw
  moves_lift moves_ask moves_emit moves_now moves_random moves_uuid moves_pool moves_format
  moves_header_value moves_query moves_if moves_case_option moves_case_sum moves_case_prod

section \<open>Transactions\<close>

text \<open>Inside a transaction only the working copy changes, and \<open>commit\<close> publishes it. While a
  transaction is open, \<open>tracks\<close> says that the working copy is reached from the committed database
  by steps of \<open>S\<close>; \<open>goes\<close> says that a piece of code keeps this, and \<open>opens\<close> that code which starts
  outside a transaction establishes it.\<close>

definition tracks :: "(db \<Rightarrow> db \<Rightarrow> bool) \<Rightarrow> db \<Rightarrow> world \<Rightarrow> bool" where
  "tracks S d0 w \<longleftrightarrow> S\<^sup>*\<^sup>* d0 (w_db w) \<and> (\<forall>d t. w_txn w = Some (d, t) \<longrightarrow> S\<^sup>*\<^sup>* (w_db w) d)"

definition goes :: "(db \<Rightarrow> db \<Rightarrow> bool) \<Rightarrow> env \<Rightarrow> ('e, 'a) io \<Rightarrow> bool" where
  "goes S e m \<longleftrightarrow> (\<forall>d0 w. tracks S d0 w \<longrightarrow> tracks S d0 (snd (m e w)))"

definition opens :: "(db \<Rightarrow> db \<Rightarrow> bool) \<Rightarrow> env \<Rightarrow> ('e, 'a) io \<Rightarrow> bool" where
  "opens S e m \<longleftrightarrow> (\<forall>w. w_txn w = None \<longrightarrow> tracks S (w_db w) (snd (m e w)))"

lemma tracks_same:
  "w_db w' = w_db w \<Longrightarrow> w_txn w' = w_txn w \<Longrightarrow> tracks S d0 w' = tracks S d0 w"
  by (simp add: tracks_def)

lemma goes_still:
  assumes "\<And>w r w'. m e w = (r, w') \<Longrightarrow> w_db w' = w_db w \<and> w_txn w' = w_txn w"
  shows "goes S e m"
  unfolding goes_def
proof (intro allI impI)
  fix d0 w assume "tracks S d0 w"
  moreover obtain r w' where m: "m e w = (r, w')" by force
  moreover have "w_db w' = w_db w" and "w_txn w' = w_txn w" using assms [OF m] by simp_all
  ultimately show "tracks S d0 (snd (m e w))" using tracks_same [of w' w S d0] by simp
qed

lemma goes_ret: "goes S e (ret a)"
  by (rule goes_still) (simp add: ret_def)

lemma goes_throw: "goes S e (throw x)"
  by (rule goes_still) (simp add: throw_def)

lemma goes_lift: "goes S e (lift r)"
  by (rule goes_still) (simp add: lift_def)

lemma goes_ask: "goes S e ask"
  by (rule goes_still) (simp add: ask_def)

lemma goes_emit: "goes S e (emit n l)"
  by (rule goes_still) (auto simp: emit_def)

lemma goes_now: "goes S e now_utc_second"
  by (rule goes_still) (auto simp: now_utc_second_def)

lemma goes_random: "goes S e (random_bytes n)"
  by (rule goes_still) (auto simp: random_bytes_def)

lemma goes_uuid: "goes S e new_uuid"
  by (rule goes_still) (auto simp: new_uuid_def)

lemma goes_try:
  assumes "goes S e m" and "\<And>a. goes S e (f a)"
  shows "goes S e (try_io m f)"
  unfolding goes_def
proof (intro allI impI)
  fix d0 w assume w: "tracks S d0 w"
  obtain r w' where m: "m e w = (r, w')" by force
  from assms(1) w m have w': "tracks S d0 w'" unfolding goes_def by (metis snd_conv)
  show "tracks S d0 (snd (try_io m f e w))"
  proof (cases r)
    case (Inr a)
    with assms(2) w' show ?thesis by (simp add: try_io_def m goes_def)
  qed (simp add: try_io_def m w')
qed

lemma goes_map_err: "goes S e m \<Longrightarrow> goes S e (map_err_io g m)"
  by (simp add: goes_def map_err_io_def split_beta)

lemma goes_unavailable: "goes S e m \<Longrightarrow> goes S e (unavailable m)"
  by (simp add: unavailable_def goes_map_err)

lemma goes_attempt: "goes S e m \<Longrightarrow> goes S e (attempt m)"
  by (simp add: goes_def attempt_def split_beta)

lemma goes_if: "goes S e m \<Longrightarrow> goes S e n \<Longrightarrow> goes S e (if b then m else n)"
  by simp

lemma goes_case_option:
  "goes S e m \<Longrightarrow> (\<And>a. goes S e (f a)) \<Longrightarrow> goes S e (case x of None \<Rightarrow> m | Some a \<Rightarrow> f a)"
  by (cases x) simp_all

lemma goes_case_sum:
  "(\<And>b. goes S e (m b)) \<Longrightarrow> (\<And>a. goes S e (f a)) \<Longrightarrow>
     goes S e (case x of Inl b \<Rightarrow> m b | Inr a \<Rightarrow> f a)"
  by (cases x) simp_all

lemma goes_case_prod: "(\<And>a b. goes S e (f a b)) \<Longrightarrow> goes S e (case x of (a, b) \<Rightarrow> f a b)"
  by (cases x) simp_all

lemma goes_format: "goes S e (format_rfc3339 t)"
  unfolding format_rfc3339_def by (intro goes_try goes_ask goes_lift)

lemma goes_header_value: "goes S e (header_value s)"
  unfolding header_value_def by (intro goes_try goes_ask goes_lift)

lemma goes_begin: "goes S e begin_tx"
  by (auto simp: goes_def begin_tx_def tracks_def Let_def)

lemma goes_commit: "goes S e commit_tx"
  by (auto simp: goes_def commit_tx_def tracks_def Let_def split: option.splits)

lemma goes_run_tx:
  assumes "\<And>t d a d'. q t d = Inr (a, d') \<Longrightarrow> S\<^sup>*\<^sup>* d d'"
  shows "goes S e (run_tx q)"
  unfolding goes_def
proof (intro allI impI)
  fix d0 w assume w: "tracks S d0 w"
  show "tracks S d0 (snd (run_tx q e w))"
  proof (cases "w_txn w")
    case None
    with w show ?thesis by (simp add: run_tx_def tracks_def)
  next
    case (Some p)
    obtain d t where p: "p = (d, t)" by force
    from w Some p have base: "S\<^sup>*\<^sup>* d0 (w_db w)" and d: "S\<^sup>*\<^sup>* (w_db w) d" by (simp_all add: tracks_def)
    show ?thesis
    proof (cases "fault_at e (w_tick w) = Fine \<and> (\<exists>a d'. q t d = Inr (a, d'))")
      case True
      then obtain a d' where q: "q t d = Inr (a, d')" by blast
      from d assms [OF q] have "S\<^sup>*\<^sup>* (w_db w) d'" by simp
      with True q base Some p show ?thesis by (simp add: run_tx_def tracks_def Let_def)
    next
      case False
      then have "w_txn (snd (run_tx q e w)) = None \<and> w_db (snd (run_tx q e w)) = w_db w"
        using Some p by (cases "q t d") (auto simp: run_tx_def Let_def)
      with base show ?thesis by (simp add: tracks_def)
    qed
  qed
qed

lemma goes_tx_query: "goes S e (run_tx (query f))"
  by (rule goes_run_tx) (simp add: query_def)

lemma goes_tx_command:
  assumes "\<And>t d d'. f t d = Inr d' \<Longrightarrow> S d d'"
  shows "goes S e (run_tx (command f))"
  by (rule goes_run_tx) (auto simp: command_def split: sum.splits dest: assms)

lemma goes_pool_query: "goes S e (run_pool (query f))"
  by (rule goes_still) (auto simp: run_pool_def query_def Let_def split: if_splits)

lemma goes_pool: "goes S e database_pool"
  unfolding database_pool_def by (intro goes_try goes_ask goes_if goes_ret goes_throw)

lemmas goes_intros =
  goes_ret goes_throw goes_lift goes_ask goes_emit goes_now goes_random goes_uuid goes_try
  goes_map_err goes_unavailable goes_attempt goes_if goes_case_option goes_case_sum goes_case_prod
  goes_format goes_header_value goes_begin goes_commit goes_tx_query goes_pool_query goes_pool

lemma opens_goes: "goes S e m \<Longrightarrow> opens S e m"
proof -
  have "tracks S (w_db w) w" if "w_txn w = None" for w using that by (simp add: tracks_def)
  then show "goes S e m \<Longrightarrow> opens S e m" by (simp add: opens_def goes_def)
qed

lemma opens_try:
  assumes "moves S e m" and "\<And>a. opens S e (f a)"
  shows "opens S e (try_io m f)"
  unfolding opens_def
proof (intro allI impI)
  fix w :: world assume w: "w_txn w = None"
  obtain r w' where m: "m e w = (r, w')" by force
  note step = movesD [OF assms(1) w m]
  show "tracks S (w_db w) (snd (try_io m f e w))"
  proof (cases r)
    case (Inr a)
    from assms(2) step(2) have "tracks S (w_db w') (snd (f a e w'))" by (simp add: opens_def)
    with step(1) have "tracks S (w_db w) (snd (f a e w'))"
      unfolding tracks_def by (meson rtranclp_trans)
    then show ?thesis by (simp add: try_io_def m Inr)
  qed (use step in \<open>simp add: try_io_def m tracks_def\<close>)
qed

lemma opens_begin: "(\<And>a. goes S e (f a)) \<Longrightarrow> opens S e (try_io (unavailable begin_tx) f)"
  by (intro opens_goes goes_try goes_unavailable goes_begin)

lemma opens_if: "opens S e m \<Longrightarrow> opens S e n \<Longrightarrow> opens S e (if b then m else n)"
  by simp

lemma opens_case_option:
  "opens S e m \<Longrightarrow> (\<And>a. opens S e (f a)) \<Longrightarrow> opens S e (case x of None \<Rightarrow> m | Some a \<Rightarrow> f a)"
  by (cases x) simp_all

lemma opens_moves: "moves S e m \<Longrightarrow> opens S e m"
  unfolding opens_def tracks_def by (metis movesD option.distinct(1) prod.collapse)

lemma moves_handler_opens:
  assumes "opens S e m"
  shows "moves S e (handler m)"
proof (rule movesI)
  fix w r w' assume w: "w_txn w = None" and run: "handler m e w = (r, w')"
  then have "w' = snd (m e w)\<lparr>w_txn := None\<rparr>" by (auto simp: handler_def split_beta)
  moreover have "tracks S (w_db w) (snd (m e w))" using assms w by (simp add: opens_def)
  ultimately show "S\<^sup>*\<^sup>* (w_db w) (w_db w') \<and> w_txn w' = None" by (simp add: tracks_def)
qed

lemma wp_begin [wp_eqs]:
  "wp e begin_tx Q R w =
     (let w1 = w\<lparr>w_tick := w_tick w + 1\<rparr> in
      if fault_at e (w_tick w) = Fine then Q () (w1\<lparr>w_txn := Some (w_db w, clock e (w_tick w))\<rparr>)
      else R SqlFailure w1)"
  by (simp add: wp_def begin_tx_def Let_def)

lemma wp_commit [wp_eqs]:
  "w_txn w = Some (d, t) \<Longrightarrow> wp e commit_tx Q R w =
     (let w1 = w\<lparr>w_tick := w_tick w + 1, w_txn := None\<rparr> in
      case fault_at e (w_tick w) of
        Fine \<Rightarrow> Q () (w1\<lparr>w_db := d\<rparr>)
      | Lost \<Rightarrow> R SqlFailure w1
      | ReplyLost \<Rightarrow> R SqlFailure (w1\<lparr>w_db := d\<rparr>))"
  by (simp add: wp_def commit_tx_def Let_def split: fault.splits)

lemma wp_run_tx [wp_eqs]:
  "w_txn w = Some (d, t) \<Longrightarrow> wp e (run_tx q) Q R w =
     (let w1 = w\<lparr>w_tick := w_tick w + 1\<rparr> in
      if fault_at e (w_tick w) \<noteq> Fine then R SqlFailure (w1\<lparr>w_txn := None\<rparr>)
      else case q t d of
          Inl x \<Rightarrow> R x (w1\<lparr>w_txn := None\<rparr>)
        | Inr (a, d') \<Rightarrow> Q a (w1\<lparr>w_txn := Some (d', t)\<rparr>))"
  by (simp add: wp_def run_tx_def Let_def split: sum.splits)

lemma wp_run_pool [wp_eqs]:
  "wp e (run_pool q) Q R w =
     (let w1 = w\<lparr>w_tick := w_tick w + 1\<rparr> in
      if fault_at e (w_tick w) = Lost then R SqlFailure w1
      else case q (clock e (w_tick w)) (w_db w) of
          Inl x \<Rightarrow> R x w1
        | Inr (a, d) \<Rightarrow> (if fault_at e (w_tick w) = ReplyLost then R SqlFailure (w1\<lparr>w_db := d\<rparr>)
                      else Q a (w1\<lparr>w_db := d\<rparr>)))"
  by (simp add: wp_def run_pool_def Let_def split: sum.splits)

section \<open>Verification conditions\<close>

text \<open>Introduction rules for \<open>wp\<close>, one per operator: each passes on what the step says of the
  committed database and of the working copy, and forgets the rest of the world. A handler's
  correctness follows by applying them to its whole text.\<close>

definition same_state :: "world \<Rightarrow> world \<Rightarrow> bool" where
  "same_state w w' \<longleftrightarrow> w_db w' = w_db w \<and> w_txn w' = w_txn w"

lemma vc_ret: "Q a w \<Longrightarrow> wp e (ret a) Q R w"
  by (simp add: wp_eqs)

lemma vc_throw: "R x w \<Longrightarrow> wp e (throw x) Q R w"
  by (simp add: wp_eqs)

lemma vc_lift:
  "(\<And>a. r = Inr a \<Longrightarrow> Q a w) \<Longrightarrow> (\<And>x. r = Inl x \<Longrightarrow> R x w) \<Longrightarrow> wp e (lift r) Q R w"
  by (cases r) (simp_all add: wp_eqs)

lemma vc_ask: "Q e w \<Longrightarrow> wp e ask Q R w"
  by (simp add: wp_eqs)

lemma vc_try: "wp e m (\<lambda>a w. wp e (f a) Q R w) R w \<Longrightarrow> wp e (try_io m f) Q R w"
  by (simp add: wp_eqs)

lemma vc_map_err: "wp e m Q (\<lambda>x. R (g x)) w \<Longrightarrow> wp e (map_err_io g m) Q R w"
  by (simp add: wp_eqs)

lemma vc_unavailable: "wp e m Q (\<lambda>_. R ServiceUnavailable) w \<Longrightarrow> wp e (unavailable m) Q R w"
  by (simp add: wp_eqs)

lemma vc_emit: "(\<And>w'. same_state w w' \<Longrightarrow> Q () w') \<Longrightarrow> wp e (emit n l) Q R w"
  by (simp add: wp_eqs same_state_def)

lemma vc_now: "(\<And>t w'. same_state w w' \<Longrightarrow> Q t w') \<Longrightarrow> wp e now_utc_second Q R w"
  by (simp add: wp_eqs same_state_def)

lemma vc_random:
  "(\<And>b w'. length b = n \<Longrightarrow> same_state w w' \<Longrightarrow> Q b w') \<Longrightarrow> wp e (random_bytes n) Q R w"
  by (simp add: wp_eqs same_state_def)

lemma vc_uuid: "(\<And>u w'. same_state w w' \<Longrightarrow> Q u w') \<Longrightarrow> wp e new_uuid Q R w"
  by (simp add: wp_eqs same_state_def)

lemma vc_if: "(b \<Longrightarrow> wp e m Q R w) \<Longrightarrow> (\<not> b \<Longrightarrow> wp e n Q R w) \<Longrightarrow> wp e (if b then m else n) Q R w"
  by simp

lemma vc_case_option:
  "(x = None \<Longrightarrow> wp e m Q R w) \<Longrightarrow> (\<And>a. x = Some a \<Longrightarrow> wp e (f a) Q R w) \<Longrightarrow>
     wp e (case x of None \<Rightarrow> m | Some a \<Rightarrow> f a) Q R w"
  by (cases x) simp_all

lemma vc_case_prod:
  "(\<And>a b. x = (a, b) \<Longrightarrow> wp e (f a b) Q R w) \<Longrightarrow> wp e (case x of (a, b) \<Rightarrow> f a b) Q R w"
  by (cases x) simp_all

lemma vc_format:
  "(\<And>s. rfc3339 (ext e) t = Some s \<Longrightarrow> Q s w) \<Longrightarrow> R ServiceUnavailable w \<Longrightarrow>
     wp e (format_rfc3339 t) Q R w"
  by (simp add: wp_eqs split: option.splits)

lemma vc_header_value: "Q s w \<Longrightarrow> R ServiceUnavailable w \<Longrightarrow> wp e (header_value s) Q R w"
  by (simp add: wp_eqs)

lemma vc_pool: "Q () w \<Longrightarrow> R ServiceUnavailable w \<Longrightarrow> wp e database_pool Q R w"
  by (simp add: wp_eqs)

lemma vc_handler:
  "wp e m (\<lambda>a w'. \<forall>w''. w_db w'' = w_db w' \<longrightarrow> Q a w'') (\<lambda>x w'. \<forall>w''. w_db w'' = w_db w' \<longrightarrow> R x w'') w
     \<Longrightarrow> wp e (handler m) Q R w"
  by (erule wp_handler [THEN iffD2, OF wp_mono]) simp_all

lemma vc_begin:
  "(\<And>t w'. w_db w' = w_db w \<Longrightarrow> w_txn w' = Some (w_db w, t) \<Longrightarrow> Q () w') \<Longrightarrow>
   (\<And>x w'. same_state w w' \<Longrightarrow> R x w') \<Longrightarrow> wp e begin_tx Q R w"
  by (simp add: wp_eqs Let_def same_state_def)

lemma vc_tx_command:
  assumes "\<And>d t d' w'. w_txn w = Some (d, t) \<Longrightarrow> f t d = Inr d' \<Longrightarrow> w_db w' = w_db w \<Longrightarrow>
      w_txn w' = Some (d', t) \<Longrightarrow> Q () w'"
    and "\<And>x w'. w_db w' = w_db w \<Longrightarrow> R x w'"
  shows "wp e (run_tx (command f)) Q R w"
proof (cases "w_txn w")
  case None
  with assms(2) show ?thesis by (simp add: wp_def run_tx_def Let_def)
next
  case (Some p)
  obtain d t where p: "p = (d, t)" by force
  show ?thesis
    using assms Some p by (cases "f t d") (simp_all add: wp_eqs command_def Let_def)
qed

lemma vc_tx_query:
  assumes "\<And>d t w'. w_txn w = Some (d, t) \<Longrightarrow> same_state w w' \<Longrightarrow> Q (f d) w'"
    and "\<And>x w'. w_db w' = w_db w \<Longrightarrow> R x w'"
  shows "wp e (run_tx (query f)) Q R w"
proof (cases "w_txn w")
  case None
  with assms(2) show ?thesis by (simp add: wp_def run_tx_def Let_def)
next
  case (Some p)
  obtain d t where p: "p = (d, t)" by force
  with Some assms show ?thesis by (simp add: wp_eqs query_def Let_def same_state_def)
qed

lemma vc_commit:
  assumes "\<And>d t w'. w_txn w = Some (d, t) \<Longrightarrow> w_db w' = d \<Longrightarrow> w_txn w' = None \<Longrightarrow> Q () w'"
    and "\<And>x w'. w_db w' = w_db w \<Longrightarrow> R x w'"
    and "\<And>d t x w'. w_txn w = Some (d, t) \<Longrightarrow> w_db w' = d \<Longrightarrow> R x w'"
  shows "wp e commit_tx Q R w"
proof (cases "w_txn w")
  case None
  with assms(2) show ?thesis by (simp add: wp_def commit_tx_def Let_def)
next
  case (Some p)
  obtain d t where p: "p = (d, t)" by force
  with Some assms show ?thesis by (simp add: wp_eqs Let_def split: fault.splits)
qed

lemma vc_pool_query:
  "(\<And>w'. same_state w w' \<Longrightarrow> Q (f (w_db w)) w') \<Longrightarrow> (\<And>x w'. same_state w w' \<Longrightarrow> R x w') \<Longrightarrow>
     wp e (run_pool (query f)) Q R w"
  by (simp add: wp_eqs query_def Let_def same_state_def)

lemma vc_pool_command:
  assumes "\<And>t w'. f t (w_db w) = Inr (w_db w') \<Longrightarrow> w_txn w' = w_txn w \<Longrightarrow> Q () w'"
    and "\<And>x w'. same_state w w' \<Longrightarrow> R x w'"
    and "\<And>t x w'. f t (w_db w) = Inr (w_db w') \<Longrightarrow> R x w'"
  shows "wp e (run_pool (command f)) Q R w"
  using assms by (simp add: wp_eqs command_def Let_def same_state_def split: sum.splits)

lemmas vc_rules =
  vc_ret vc_throw vc_lift vc_ask vc_try vc_map_err vc_unavailable vc_emit vc_now vc_random vc_uuid
  vc_if vc_case_option vc_case_prod vc_format vc_header_value vc_pool vc_handler vc_begin
  vc_tx_command vc_tx_query vc_commit vc_pool_query vc_pool_command

section \<open>A concrete environment\<close>

text \<open>For the witnesses: no faults, a clock that stands at second 1000, and the third-party
  functions of \<^verbatim>\<open>PV_Sample\<close>.\<close>

definition sample_env :: env where
  "sample_env =
     \<lparr>ext = sample,
      conf = \<lparr>cf_synthetic_metadata_key = Some (replicate 32 1), cf_totp_seed_key = Some (replicate 32 2),
        cf_database = True\<rparr>,
      fault_at = (\<lambda>_. Fine), clock = (\<lambda>_. seconds 1000), draw = (\<lambda>n _. of_nat n),
      fresh_uuid = of_nat, traffic_class = ''sample''\<rparr>"

definition world_of :: "db \<Rightarrow> world" where
  "world_of d = \<lparr>w_db = d, w_txn = None, w_tick = 0, w_metrics = []\<rparr>"

lemma sample_env_simps [simp]:
  "ext sample_env = sample"
  "conf sample_env = \<lparr>cf_synthetic_metadata_key = Some (replicate 32 1),
     cf_totp_seed_key = Some (replicate 32 2), cf_database = True\<rparr>"
  "fault_at sample_env n = Fine"
  "clock sample_env n = seconds 1000"
  "draw sample_env n i = of_nat n"
  "fresh_uuid sample_env n = of_nat n"
  "traffic_class sample_env = ''sample''"
  by (simp_all add: sample_env_def)

lemma world_of_simps [simp]:
  "w_db (world_of d) = d" "w_txn (world_of d) = None"
  "w_tick (world_of d) = 0" "w_metrics (world_of d) = []"
  by (simp_all add: world_of_def)

lemma run_of_wp:
  assumes "wp e m Q (\<lambda>_ _. False) w"
  obtains a w' where "m e w = (Inr a, w')" and "Q a w'"
  using assms by (auto simp: wp_def split: prod.splits sum.splits)

end
