(* ===== verification/PV_Session.thy ===== *)
theory PV_Session
  imports PV_World
begin

text \<open>
  Sessions in \<^verbatim>\<open>crates/api/src/auth/routes.rs\<close>: the session cookie and CSRF header
  parsers, the request-context checks, the loading, refreshing and revoking of the current
  session, and the handlers \<open>session_status\<close>, \<open>csrf_token\<close> and \<open>logout\<close>.
\<close>

section \<open>Constants\<close>

definition TOKEN_LEN :: nat where
  "TOKEN_LEN = 32"

definition SESSION_COOKIE_NAME :: string where
  "SESSION_COOKIE_NAME = ''__Host-pv_session''"

definition SESSION_IDLE_TTL :: time where
  "SESSION_IDLE_TTL = minutes 30"

definition SESSION_ABSOLUTE_TTL :: time where
  "SESSION_ABSOLUTE_TTL = hours 12"

section \<open>Tokens, cookies and headers\<close>

definition sha256_verifier :: "externals \<Rightarrow> bytes \<Rightarrow> bytes" where
  "sha256_verifier X secret = sha256 X secret"

definition random_token :: "('e, bytes) io" where
  "random_token = random_bytes TOKEN_LEN"

definition session_cookie :: "externals \<Rightarrow> bytes \<Rightarrow> string" where
  "session_cookie X session_token =
     SESSION_COOKIE_NAME @ ''='' @ encode_base64url X session_token
       @ ''; Path=/; Secure; HttpOnly; SameSite=Strict''"

definition clear_session_cookie :: string where
  "clear_session_cookie = ''__Host-pv_session=; Path=/; Secure; HttpOnly; SameSite=Strict; ''
     @ ''Max-Age=0; Expires=Thu, 01 Jan 1970 00:00:00 GMT''"

text \<open>The loop over the cookie header's parts; the flag is \<open>seen_session_cookie\<close>.\<close>

fun scan_cookies :: "externals \<Rightarrow> string list \<Rightarrow> bool \<Rightarrow> bytes option \<Rightarrow> bytes option" where
  "scan_cookies X [] seen session_token = session_token"
| "scan_cookies X (part # parts) seen session_token =
     (case split_once CHR ''='' (trim part) of
        None \<Rightarrow> scan_cookies X parts seen session_token
      | Some (name, value) \<Rightarrow>
          if name = SESSION_COOKIE_NAME
          then (if seen then None
                else case ok (decode_base64url_array X TOKEN_LEN value) of
                    None \<Rightarrow> None
                  | Some t \<Rightarrow> scan_cookies X parts True (Some t))
          else scan_cookies X parts seen session_token)"

definition session_token_from_headers :: "externals \<Rightarrow> headers \<Rightarrow> bytes option" where
  "session_token_from_headers X h =
     (case h ''cookie'' of
        None \<Rightarrow> None
      | Some c \<Rightarrow> scan_cookies X (split_on CHR '';'' c) False None)"

definition csrf_token_from_headers :: "externals \<Rightarrow> headers \<Rightarrow> bytes option" where
  "csrf_token_from_headers X h =
     (case h ''x-pv-csrf'' of
        None \<Rightarrow> None
      | Some v \<Rightarrow> ok (decode_base64url_array X TOKEN_LEN v))"

definition origin_host :: "string \<Rightarrow> string option" where
  "origin_host origin =
     (case strip_prefix ''https://'' origin of
        None \<Rightarrow> None
      | Some without_scheme \<Rightarrow>
          (let host = hd (split_on CHR ''/'' without_scheme) in if host = [] then None else Some host))"

definition ensure_unsafe_request_context :: "headers \<Rightarrow> api_error + unit" where
  "ensure_unsafe_request_context h =
     (if (case h ''sec-fetch-site'' of None \<Rightarrow> False | Some v \<Rightarrow> eq_ignore_ascii_case v ''cross-site'')
      then Inl CsrfRequired
      else case h ''origin'' of
          None \<Rightarrow> Inr ()
        | Some origin \<Rightarrow>
            and_then (ok_or CsrfRequired (h ''host'')) (\<lambda>host.
            and_then (ok_or CsrfRequired (origin_host origin)) (\<lambda>oh.
            if oh \<noteq> host then Inl CsrfRequired else Inr ())))"

section \<open>Statements on the sessions table\<close>

definition update_sessions ::
  "(session_row \<Rightarrow> bool) \<Rightarrow> (session_row \<Rightarrow> session_row) \<Rightarrow> db \<Rightarrow> sql_error + db" where
  "update_sessions P f d =
     (let rs = update_where P f (sessions d) in
      constrained (list_all (\<lambda>r. P r \<longrightarrow> session_checks (f r)) (sessions d))
        (distinct (map se_session_token_hash rs)) True (d\<lparr>sessions := rs\<rparr>))"

definition session_with_device :: "bytes \<Rightarrow> db \<Rightarrow> (session_row \<times> time option) option" where
  "session_with_device token_hash d =
     map_option (\<lambda>s. (s, case se_device_id s of
                           None \<Rightarrow> None
                         | Some i \<Rightarrow> Option.bind (device_of d (se_account_id s) i) dev_revoked_at))
       (find (\<lambda>s. se_session_token_hash s = token_hash \<and> se_revoked_at s = None) (sessions d))"

definition mark_revoked :: "uuid \<Rightarrow> time \<Rightarrow> db \<Rightarrow> sql_error + db" where
  "mark_revoked i now d =
     update_sessions (\<lambda>r. se_id r = i) (\<lambda>r. r\<lparr>se_revoked_at := Some now\<rparr>) d"

definition mark_active :: "uuid \<Rightarrow> time \<Rightarrow> time \<Rightarrow> db \<Rightarrow> sql_error + db" where
  "mark_active i now idle d =
     update_sessions (\<lambda>r. se_id r = i)
       (\<lambda>r. r\<lparr>se_last_seen_at := Some now, se_idle_expires_at := idle, se_expires_at := idle\<rparr>) d"

definition set_csrf_hash :: "uuid \<Rightarrow> bytes \<Rightarrow> db \<Rightarrow> sql_error + db" where
  "set_csrf_hash i h d =
     update_sessions (\<lambda>r. se_id r = i) (\<lambda>r. r\<lparr>se_csrf_token_hash := Some h\<rparr>) d"

definition delete_session :: "uuid \<Rightarrow> db \<Rightarrow> db" where
  "delete_session i d = d\<lparr>sessions := delete_where (\<lambda>r. se_id r = i) (sessions d)\<rparr>"

definition csrf_hash_of :: "uuid \<Rightarrow> db \<Rightarrow> bytes option" where
  "csrf_hash_of i d =
     Option.bind (find (\<lambda>r. se_id r = i \<and> se_revoked_at r = None) (sessions d)) se_csrf_token_hash"

section \<open>The current session\<close>

record current_session =
  cs_id :: uuid
  cs_account_id :: uuid
  cs_device_id :: "uuid option"
  cs_session_state :: string
  cs_idle_expires_at :: time
  cs_absolute_expires_at :: time

definition vault_access :: "current_session \<Rightarrow> bool" where
  "vault_access s \<longleftrightarrow> cs_session_state s = ''mfa_verified''"

definition min_time :: "time \<Rightarrow> time \<Rightarrow> time" where
  "min_time left right = (if left \<le> right then left else right)"

definition revoke_session :: "uuid \<Rightarrow> time \<Rightarrow> (api_error, unit) io" where
  "revoke_session i now = pool_call (command (\<lambda>_. mark_revoked i now))"

definition load_current_session :: "headers \<Rightarrow> time \<Rightarrow> (api_error, current_session option) io" where
  "load_current_session h now =
     try_io ask (\<lambda>e.
     case session_token_from_headers (ext e) h of
       None \<Rightarrow> ret None
     | Some session_token \<Rightarrow>
         try_io (pool_call (query (session_with_device (sha256_verifier (ext e) session_token)))) (\<lambda>row.
         case row of
           None \<Rightarrow> ret None
         | Some (s, device_revoked_at) \<Rightarrow>
             if device_revoked_at \<noteq> None \<or> se_idle_expires_at s \<le> now \<or> se_absolute_expires_at s \<le> now
             then try_io (revoke_session (se_id s) now) (\<lambda>_. ret None)
             else ret (Some
               \<lparr>cs_id = se_id s, cs_account_id = se_account_id s, cs_device_id = se_device_id s,
                cs_session_state = se_session_state s, cs_idle_expires_at = se_idle_expires_at s,
                cs_absolute_expires_at = se_absolute_expires_at s\<rparr>)))"

definition refresh_session_activity :: "current_session \<Rightarrow> time \<Rightarrow> (api_error, current_session) io" where
  "refresh_session_activity s now =
     (let idle = min_time (now + SESSION_IDLE_TTL) (cs_absolute_expires_at s) in
      try_io (pool_call (command (\<lambda>_. mark_active (cs_id s) now idle))) (\<lambda>_.
      ret (s\<lparr>cs_idle_expires_at := idle\<rparr>)))"

definition ensure_csrf_token :: "headers \<Rightarrow> uuid \<Rightarrow> (api_error, unit) io" where
  "ensure_csrf_token h i =
     try_io ask (\<lambda>e.
     try_io (lift (ok_or CsrfRequired (csrf_token_from_headers (ext e) h))) (\<lambda>csrf_token.
     let csrf_token_hash = sha256_verifier (ext e) csrf_token in
     try_io (pool_call (query (csrf_hash_of i))) (\<lambda>stored.
     try_io (lift (ok_or CsrfRequired stored)) (\<lambda>stored_hash.
     if length stored_hash = TOKEN_LEN \<and> stored_hash = csrf_token_hash
     then ret () else throw CsrfRequired))))"

section \<open>Handlers\<close>

datatype session_body =
    Unauthenticated
  | Authenticated uuid "uuid option" string bool string string
      \<comment> \<open>account, device, state, vault access, idle and absolute expiry\<close>

definition session_status :: "headers \<Rightarrow> (api_error, session_body response) io" where
  "session_status h = handler (
     try_io database_pool (\<lambda>_.
     try_io now_utc_second (\<lambda>now.
     try_io (load_current_session h now) (\<lambda>current.
     case current of
       None \<Rightarrow>
         try_io ask (\<lambda>e.
           let response = no_store_json 200 Unauthenticated in
           ret (if session_token_from_headers (ext e) h \<noteq> None
                then response\<lparr>rs_set_cookie := Some clear_session_cookie\<rparr> else response))
     | Some session \<Rightarrow>
         try_io (refresh_session_activity session now) (\<lambda>session.
         try_io (format_rfc3339 (cs_idle_expires_at session)) (\<lambda>idle.
         try_io (format_rfc3339 (cs_absolute_expires_at session)) (\<lambda>absolute.
         ret (no_store_json 200 (Authenticated (cs_account_id session) (cs_device_id session)
           (cs_session_state session) (vault_access session) idle absolute)))))))))"

definition csrf_token :: "headers \<Rightarrow> (api_error, (string \<times> string) response) io" where
  "csrf_token h = handler (
     try_io database_pool (\<lambda>_.
     try_io now_utc_second (\<lambda>now.
     try_io (load_current_session h now) (\<lambda>current.
     try_io (lift (ok_or SessionRequired current)) (\<lambda>session.
     try_io (refresh_session_activity session now) (\<lambda>session.
     try_io random_token (\<lambda>token.
     try_io ask (\<lambda>e.
     let csrf_token_hash = sha256_verifier (ext e) token in
     try_io (pool_call (command (\<lambda>_. set_csrf_hash (cs_id session) csrf_token_hash))) (\<lambda>_.
     try_io (format_rfc3339 (cs_idle_expires_at session)) (\<lambda>expires_at.
     ret (no_store_json 200 (encode_base64url (ext e) token, expires_at))))))))))))"

definition logout :: "headers \<Rightarrow> (api_error, unit response) io" where
  "logout h = handler (
     try_io database_pool (\<lambda>_.
     try_io now_utc_second (\<lambda>now.
     try_io (load_current_session h now) (\<lambda>current.
     try_io (case current of
               None \<Rightarrow> ret ()
             | Some session \<Rightarrow>
                 try_io (lift (ensure_unsafe_request_context h)) (\<lambda>_.
                 try_io (ensure_csrf_token h (cs_id session)) (\<lambda>_.
                 pool_call (command (\<lambda>_ d. Inr (delete_session (cs_id session) d)))))) (\<lambda>_.
     ret \<lparr>rs_status = 204, rs_cache_control = ''no-store'',
          rs_set_cookie = Some clear_session_cookie, rs_body = ()\<rparr>)))))"

section \<open>The cookie parser\<close>

text \<open>The values that a cookie header gives to the session cookie.\<close>

definition session_values :: "string \<Rightarrow> string list" where
  "session_values c =
     map snd (filter (\<lambda>nv. fst nv = SESSION_COOKIE_NAME)
       (List.map_filter (\<lambda>part. split_once CHR ''='' (trim part)) (split_on CHR '';'' c)))"

lemma scan_cookies_seen:
  "scan_cookies X parts True (Some u) = Some t \<longleftrightarrow> u = t \<and>
     filter (\<lambda>nv. fst nv = SESSION_COOKIE_NAME)
       (List.map_filter (\<lambda>part. split_once CHR ''='' (trim part)) parts) = []"
  by (induction parts) (auto simp: map_filter_simps split: option.splits)

lemma scan_cookies_iff:
  "scan_cookies X parts False None = Some t \<longleftrightarrow>
     (\<exists>v. map snd (filter (\<lambda>nv. fst nv = SESSION_COOKIE_NAME)
       (List.map_filter (\<lambda>part. split_once CHR ''='' (trim part)) parts)) = [v]
       \<and> decode_base64url_array X TOKEN_LEN v = Inr t)"
  by (induction parts) (auto simp: map_filter_simps scan_cookies_seen split: option.splits)

text \<open>Documented behaviour of URL-safe base64: its alphabet.\<close>

definition base64url_char :: "char \<Rightarrow> bool" where
  "base64url_char c \<longleftrightarrow> is_ascii_digit c \<or> is_ascii_lowercase c
     \<or> 65 \<le> (of_char c :: nat) \<and> (of_char c :: nat) \<le> 90
     \<or> c = CHR ''-'' \<or> c = CHR ''_''"

definition base64url_alphabet :: "externals \<Rightarrow> bool" where
  "base64url_alphabet X \<longleftrightarrow> (\<forall>b. list_all base64url_char (base64url_encode X b))"

text \<open>The session token of a request is taken from its cookie header exactly when that
  header names the session cookie once, with the base64url text of 32 bytes: other cookies do
  not matter, and a second session cookie (one injected beside the real one) makes the request
  unauthenticated instead of picking either.\<close>

theorem session_token_from_headers_iff:
  "session_token_from_headers X h = Some t \<longleftrightarrow>
     (\<exists>c v. h ''cookie'' = Some c \<and> session_values c = [v]
        \<and> decode_base64url_array X TOKEN_LEN v = Inr t)"
  by (auto simp: session_token_from_headers_def session_values_def scan_cookies_iff
      split: option.splits)

lemma split_on_no_sep: "d \<notin> set s \<Longrightarrow> split_on d (s @ d # r) = s # split_on d r"
  by (induction s) auto

lemma split_on_single: "d \<notin> set s \<Longrightarrow> split_on d s = [s]"
  by (induction s) auto

definition visible_char :: "char \<Rightarrow> bool" where
  "visible_char c \<longleftrightarrow> 32 < (of_char c :: nat) \<and> (of_char c :: nat) < 127"

lemma ws_not_visible: "list_all (\<lambda>p. p \<noteq> [] \<and> \<not> visible_char (hd p) \<and> \<not> visible_char (last p)) ws_chars"
  by (simp add: ws_chars_def visible_char_def)

lemma no_ws_visible:
  assumes "list_all visible_char s"
  shows "strip_any ws_chars s = None"
  unfolding strip_any_None_iff
proof (intro ballI allI impI notI)
  fix p r assume "p \<in> set ws_chars" and "p \<noteq> []" and s: "s = p @ r"
  with ws_not_visible have "\<not> visible_char (hd p)" and "hd p \<in> set s"
    by (auto simp: list_all_iff)
  with assms show False by (auto simp: list_all_iff)
qed

lemma has_whitespace_visible: "list_all visible_char s \<Longrightarrow> \<not> has_whitespace s"
proof (induction s)
  case (Cons c cs)
  then show ?case using no_ws_visible [of "c # cs"] by simp
qed simp

lemma trim_visible:
  assumes "list_all visible_char s"
  shows "trim s = s"
proof (rule trim_fix)
  show "strip_any ws_chars s = None" using assms by (rule no_ws_visible)
  show "strip_any (map rev ws_chars) (rev s) = None"
    unfolding strip_any_None_iff
  proof (intro ballI allI impI notI)
    fix p r assume "p \<in> set (map rev ws_chars)" and "p \<noteq> []" and s: "rev s = p @ r"
    then obtain p' where "p' \<in> set ws_chars" and "p = rev p'" by auto
    with ws_not_visible \<open>p \<noteq> []\<close> have "\<not> visible_char (hd p)" by (simp add: list_all_iff hd_rev)
    moreover have "hd p \<in> set (rev s)" unfolding s using \<open>p \<noteq> []\<close> by simp
    then have "hd p \<in> set s" by simp
    ultimately show False using assms by (auto simp: list_all_iff)
  qed
qed

lemma set_cookie_read:
  assumes "base64url_roundtrip X" and "base64url_alphabet X" and "length t = TOKEN_LEN"
  shows "session_token_from_headers X
    (\<lambda>name. if name = ''cookie'' then Some (hd (split_on CHR '';'' (session_cookie X t))) else None) = Some t"
proof -
  let ?v = "encode_base64url X t"
  let ?pair = "SESSION_COOKIE_NAME @ CHR ''='' # ?v"
  have v: "list_all base64url_char ?v"
    using assms(2) by (simp add: base64url_alphabet_def encode_base64url_def)
  have visible: "visible_char c" and plain: "c \<noteq> CHR '';''" if "base64url_char c" for c
    using that by (auto simp: base64url_char_def visible_char_def is_ascii_digit_def
        is_ascii_lowercase_def)
  have pair: "list_all visible_char ?pair"
    using v visible by (auto simp: SESSION_COOKIE_NAME_def list_all_iff visible_char_def)
  have nosep: "CHR '';'' \<notin> set ?pair"
    using v plain by (auto simp: SESSION_COOKIE_NAME_def list_all_iff)
  have "session_cookie X t = ?pair @ CHR '';'' # '' Path=/; Secure; HttpOnly; SameSite=Strict''"
    by (simp add: session_cookie_def)
  then have "hd (split_on CHR '';'' (session_cookie X t)) = ?pair"
    using split_on_no_sep [OF nosep] by simp
  moreover have "split_once CHR ''='' ?pair = Some (SESSION_COOKIE_NAME, ?v)"
    by (simp add: split_once_Some SESSION_COOKIE_NAME_def)
  ultimately show ?thesis
    using assms(1,3) split_on_single [OF nosep] trim_visible [OF pair]
    by (simp add: session_token_from_headers_def decode_encode)
qed

text \<open>The cookie round trip: the name-value pair of the \<open>Set-Cookie\<close> header that a login
  sends, returned by the browser, gives back the session token.\<close>

theorem session_cookie_roundtrip:
  assumes "base64url_roundtrip X" and "base64url_alphabet X" and "length t = TOKEN_LEN"
  shows "session_token_from_headers X
    (\<lambda>name. if name = ''cookie'' then Some (hd (split_on CHR '';'' (session_cookie X t))) else None) = Some t"
  using assms by (rule set_cookie_read)

lemma sample_alphabet: "base64url_alphabet sample"
proof -
  have "list_all base64url_char hex_digits"
    by (simp add: hex_digits_def base64url_char_def is_ascii_digit_def is_ascii_lowercase_def)
  then have digit: "base64url_char (nibble_char n)" if "n < 16" for n
    using that by (simp add: nibble_char_def list_all_length hex_digits_def)
  have "list_all base64url_char (hex_encode b)" for b
  proof (induction b)
    case (Cons x b)
    have "unat x < 2 ^ LENGTH(8)" by (rule unsigned_less)
    then have "unat x div 16 < 16" by simp
    with Cons show ?case by (simp add: digit)
  qed simp
  then show ?thesis by (simp add: base64url_alphabet_def sample_def)
qed

theorem session_cookie_roundtrip_witness:
  "session_token_from_headers sample
    (\<lambda>name. if name = ''cookie''
       then Some (hd (split_on CHR '';'' (session_cookie sample (replicate 32 5)))) else None)
     = Some (replicate 32 5)"
  by (rule session_cookie_roundtrip [OF sample_base64url sample_alphabet]) (simp add: TOKEN_LEN_def)

section \<open>The context of unsafe requests\<close>

lemma hd_split_on: "hd (split_on d s) = takeWhile (\<lambda>c. c \<noteq> d) s"
  by (induction s) (auto split: list.splits simp: split_on_nonempty)

lemma origin_host_iff:
  "origin_host origin = Some host \<longleftrightarrow> host \<noteq> [] \<and> CHR ''/'' \<notin> set host
     \<and> (origin = ''https://'' @ host \<or> (\<exists>path. origin = ''https://'' @ host @ ''/'' @ path))"
proof -
  have tw: "takeWhile (\<lambda>c. c \<noteq> d) s = p \<longleftrightarrow> d \<notin> set p \<and> (s = p \<or> (\<exists>r. s = p @ d # r))" for d p and s :: string
  proof
    assume p: "takeWhile (\<lambda>c. c \<noteq> d) s = p"
    then have "d \<notin> set p" using set_takeWhileD by fastforce
    moreover have "s = p @ dropWhile (\<lambda>c. c \<noteq> d) s" using p by (metis takeWhile_dropWhile_id)
    moreover have "dropWhile (\<lambda>c. c \<noteq> d) s = [] \<or> (\<exists>r. dropWhile (\<lambda>c. c \<noteq> d) s = d # r)"
      by (cases "dropWhile (\<lambda>c. c \<noteq> d) s") (auto simp: dropWhile_eq_Cons_conv)
    ultimately show "d \<notin> set p \<and> (s = p \<or> (\<exists>r. s = p @ d # r))" by (metis append.right_neutral)
  next
    assume "d \<notin> set p \<and> (s = p \<or> (\<exists>r. s = p @ d # r))"
    moreover have "d \<notin> set p \<Longrightarrow> takeWhile (\<lambda>c. c \<noteq> d) (p @ d # r) = p" for r
      by (induction p) auto
    moreover have "d \<notin> set p \<Longrightarrow> takeWhile (\<lambda>c. c \<noteq> d) p = p" by (induction p) auto
    ultimately show "takeWhile (\<lambda>c. c \<noteq> d) s = p" by auto
  qed
  have "origin_host origin = Some host \<longleftrightarrow>
      (\<exists>s. origin = ''https://'' @ s \<and> takeWhile (\<lambda>c. c \<noteq> CHR ''/'') s = host \<and> host \<noteq> [])"
  proof (cases "strip_prefix ''https://'' origin")
    case None
    then have "origin \<noteq> ''https://'' @ s" for s by (metis option.distinct(1) strip_prefix_Some_iff)
    with None show ?thesis by (simp only: origin_host_def option.case) blast
  next
    case (Some s)
    then have "origin = ''https://'' @ s" by (simp only: strip_prefix_Some_iff)
    with Some show ?thesis
      by (auto simp only: origin_host_def option.case Let_def hd_split_on same_append_eq
          split: if_splits)
  qed
  then show ?thesis unfolding tw by auto
qed

text \<open>C37. A state-changing request passes the context check exactly when it is not marked
  cross-site and either has no readable \<open>Origin\<close> header or has an HTTPS origin whose host, up to
  the first slash, is the request's own \<open>Host\<close> header. Any other origin is refused with the
  CSRF error, which is the only error of the check.\<close>

theorem ensure_unsafe_request_context_iff:
  "ensure_unsafe_request_context h =
     (if (\<exists>v. h ''sec-fetch-site'' = Some v \<and> to_ascii_lowercase v = ''cross-site'')
         \<or> (\<exists>origin. h ''origin'' = Some origin \<and>
              \<not> (\<exists>host path. h ''host'' = Some host \<and> host \<noteq> [] \<and> CHR ''/'' \<notin> set host
                    \<and> origin \<in> {''https://'' @ host, ''https://'' @ host @ ''/'' @ path}))
      then Inl CsrfRequired else Inr ())"
proof -
  have cross: "(case h ''sec-fetch-site'' of None \<Rightarrow> False | Some v \<Rightarrow> eq_ignore_ascii_case v ''cross-site'')
      \<longleftrightarrow> (\<exists>v. h ''sec-fetch-site'' = Some v \<and> to_ascii_lowercase v = ''cross-site'')"
  proof -
    have "to_ascii_lowercase ''cross-site'' = ''cross-site''" by code_simp
    then show ?thesis by (auto simp: eq_ignore_ascii_case_def split: option.splits)
  qed
  have host: "(\<exists>host path. h ''host'' = Some host \<and> host \<noteq> [] \<and> CHR ''/'' \<notin> set host
      \<and> origin \<in> {''https://'' @ host, ''https://'' @ host @ ''/'' @ path})
      \<longleftrightarrow> (\<exists>host. h ''host'' = Some host \<and> origin_host origin = Some host)" for origin
    unfolding origin_host_iff by blast
  have same: "and_then (ok_or CsrfRequired (h ''host'')) (\<lambda>host.
        and_then (ok_or CsrfRequired (origin_host origin)) (\<lambda>oh.
        if oh \<noteq> host then Inl CsrfRequired else Inr ()))
      = (if \<exists>host. h ''host'' = Some host \<and> origin_host origin = Some host
         then Inr () else Inl CsrfRequired)" for origin
    by (cases "h ''host''"; cases "origin_host origin") auto
  show ?thesis
    unfolding ensure_unsafe_request_context_def cross host same
    by (cases "h ''origin''") auto
qed

section \<open>Loading the current session\<close>

definition device_revocation :: "db \<Rightarrow> session_row \<Rightarrow> time option" where
  "device_revocation d s =
     (case se_device_id s of
        None \<Rightarrow> None
      | Some i \<Rightarrow> Option.bind (device_of d (se_account_id s) i) dev_revoked_at)"

definition live_session :: "db \<Rightarrow> time \<Rightarrow> session_row \<Rightarrow> bool" where
  "live_session d now s \<longleftrightarrow> s \<in> set (sessions d) \<and> se_revoked_at s = None
     \<and> device_revocation d s = None \<and> now < se_idle_expires_at s \<and> now < se_absolute_expires_at s"

definition session_of :: "session_row \<Rightarrow> current_session" where
  "session_of s =
     \<lparr>cs_id = se_id s, cs_account_id = se_account_id s, cs_device_id = se_device_id s,
      cs_session_state = se_session_state s, cs_idle_expires_at = se_idle_expires_at s,
      cs_absolute_expires_at = se_absolute_expires_at s\<rparr>"

lemma session_of_simps [simp]:
  "cs_id (session_of s) = se_id s" "cs_account_id (session_of s) = se_account_id s"
  "cs_session_state (session_of s) = se_session_state s" "cs_device_id (session_of s) = se_device_id s"
  "cs_absolute_expires_at (session_of s) = se_absolute_expires_at s"
  by (simp_all add: session_of_def)

lemma session_with_device_Some:
  "session_with_device k d = Some (s, r) \<Longrightarrow> s \<in> set (sessions d) \<and> se_session_token_hash s = k
     \<and> se_revoked_at s = None \<and> r = device_revocation d s"
  by (auto simp: session_with_device_def device_revocation_def dest: find_Some_mem)

lemma load_current_session_run:
  assumes "load_current_session h now e w = (r, w')"
  shows "case r of
      Inl x \<Rightarrow> x = ServiceUnavailable
    | Inr None \<Rightarrow> \<forall>tok. session_token_from_headers (ext e) h = Some tok
        \<longrightarrow> (case session_with_device (sha256_verifier (ext e) tok) (w_db w) of
              None \<Rightarrow> w_db w' = w_db w
            | Some (s, _) \<Rightarrow> \<not> live_session (w_db w) now s
                \<and> mark_revoked (se_id s) now (w_db w) = Inr (w_db w'))
    | Inr (Some c) \<Rightarrow> w_db w' = w_db w \<and> w_txn w' = w_txn w \<and> (\<exists>tok s. session_token_from_headers (ext e) h = Some tok
        \<and> se_session_token_hash s = sha256_verifier (ext e) tok
        \<and> live_session (w_db w) now s \<and> c = session_of s)"
proof -
  let ?Q = "\<lambda>a w'. case a of
      None \<Rightarrow> \<forall>tok. session_token_from_headers (ext e) h = Some tok
        \<longrightarrow> (case session_with_device (sha256_verifier (ext e) tok) (w_db w) of
              None \<Rightarrow> w_db w' = w_db w
            | Some (s, _) \<Rightarrow> \<not> live_session (w_db w) now s
                \<and> mark_revoked (se_id s) now (w_db w) = Inr (w_db w'))
    | Some c \<Rightarrow> w_db w' = w_db w \<and> w_txn w' = w_txn w \<and> (\<exists>tok s. session_token_from_headers (ext e) h = Some tok
        \<and> se_session_token_hash s = sha256_verifier (ext e) tok
        \<and> live_session (w_db w) now s \<and> c = session_of s)"
  have "wp e (load_current_session h now) ?Q (\<lambda>x _. x = ServiceUnavailable) w"
  proof (cases "session_token_from_headers (ext e) h")
    case None
    then show ?thesis by (simp add: load_current_session_def wp_eqs)
  next
    case (Some tok)
    show ?thesis
    proof (cases "session_with_device (sha256_verifier (ext e) tok) (w_db w)")
      case None
      with Some show ?thesis
        by (simp add: load_current_session_def wp_eqs query_def Let_def)
    next
      case row: (Some p)
      obtain s q where p: "p = (s, q)" by force
      note facts = session_with_device_Some [OF row [unfolded p]]
      show ?thesis
      proof (cases "q \<noteq> None \<or> se_idle_expires_at s \<le> now \<or> se_absolute_expires_at s \<le> now")
        case True
        then have "\<not> live_session (w_db w) now s" using facts by (auto simp: live_session_def)
        with True show ?thesis
          using Some row p facts
          by (simp add: load_current_session_def wp_eqs query_def Let_def revoke_session_def command_def
              split: sum.splits)
      next
        case False
        then have "live_session (w_db w) now s" using facts by (auto simp: live_session_def)
        with False show ?thesis
          using Some row p facts
          by (auto simp: load_current_session_def wp_eqs query_def Let_def session_of_def)
      qed
    qed
  qed
  from wp_result [OF assms this] show ?thesis by (cases r) simp_all
qed

text \<open>C26. A request is treated as authenticated only by a live session: the row whose token
  hash is the hash of the request's cookie is not revoked, its device is not revoked, and neither
  its idle nor its absolute expiry has been reached. The session the handlers act on has that
  row's identity, account, device and MFA state, and loading it changes nothing.\<close>

theorem current_session_is_live:
  assumes "load_current_session h now e w = (Inr (Some c), w')"
  shows "w_db w' = w_db w \<and> (\<exists>tok s. session_token_from_headers (ext e) h = Some tok
     \<and> se_session_token_hash s = sha256 (ext e) tok \<and> live_session (w_db w) now s \<and> c = session_of s)"
  using load_current_session_run [OF assms] by (auto simp: sha256_verifier_def)

definition sample_token :: bytes where
  "sample_token = replicate 32 5"

definition sample_csrf_token :: bytes where
  "sample_csrf_token = replicate 32 6"

definition sample_headers :: headers where
  "sample_headers = (\<lambda>name. if name = ''cookie''
     then Some (hd (split_on CHR '';'' (session_cookie sample sample_token)))
     else if name = ''x-pv-csrf'' then Some (encode_base64url sample sample_csrf_token) else None)"

definition sample_session :: "time \<Rightarrow> session_row" where
  "sample_session idle =
     \<lparr>se_id = 7, se_account_id = 1, se_device_id = None, se_session_token_hash = sha256 sample sample_token,
      se_csrf_token_hash = Some (sha256 sample sample_csrf_token),
      se_session_state = ''mfa_verified'', se_last_seen_at = None,
      se_expires_at = idle, se_idle_expires_at = idle, se_absolute_expires_at = seconds 3000,
      se_revoked_at = None\<rparr>"

lemma sample_headers_token: "session_token_from_headers sample sample_headers = Some sample_token"
  using set_cookie_read [OF sample_base64url sample_alphabet, of sample_token]
  by (simp add: sample_headers_def sample_token_def TOKEN_LEN_def session_token_from_headers_def)

lemma sample_headers_csrf: "csrf_token_from_headers sample sample_headers = Some sample_csrf_token"
  by (simp add: csrf_token_from_headers_def sample_headers_def decode_encode sample_csrf_token_def
      TOKEN_LEN_def)

lemma sample_sha256_length: "length (sha256 sample m) = 32"
  using sample_sha256 by (simp add: sha256_is_32_bytes_def)

theorem current_session_is_live_witness:
  "\<exists>c w'. load_current_session sample_headers (seconds 1000) sample_env
       (world_of (empty_db\<lparr>sessions := [sample_session (seconds 2000)]\<rparr>)) = (Inr (Some c), w')
     \<and> w_db w' = empty_db\<lparr>sessions := [sample_session (seconds 2000)]\<rparr> \<and> cs_id c = 7"
proof -
  let ?w = "world_of (empty_db\<lparr>sessions := [sample_session (seconds 2000)]\<rparr>)"
  have "wp sample_env (load_current_session sample_headers (seconds 1000))
      (\<lambda>a _. \<exists>c. a = Some c \<and> cs_id c = 7) (\<lambda>_ _. False) ?w"
    by (simp add: load_current_session_def wp_eqs query_def sample_headers_token
        session_with_device_def sample_session_def sha256_verifier_def seconds_def)
  then obtain c w' where run: "load_current_session sample_headers (seconds 1000) sample_env ?w
      = (Inr (Some c), w')" and c: "cs_id c = 7" by (auto elim: run_of_wp)
  from current_session_is_live [OF run] run c show ?thesis by auto
qed

definition token_dead :: "bytes \<Rightarrow> db \<Rightarrow> bool" where
  "token_dead k d \<longleftrightarrow> list_all (\<lambda>s. se_session_token_hash s = k \<longrightarrow> se_revoked_at s \<noteq> None) (sessions d)"

definition unique_tokens :: "db \<Rightarrow> bool" where
  "unique_tokens d \<longleftrightarrow> distinct (map se_session_token_hash (sessions d))"

lemma distinct_map_unique:
  "distinct (map f xs) \<Longrightarrow> x \<in> set xs \<Longrightarrow> y \<in> set xs \<Longrightarrow> f x = f y \<Longrightarrow> x = y"
  by (metis distinct_map inj_onD)

lemma session_with_device_None:
  "session_with_device k d = None \<Longrightarrow> token_dead k d"
  by (auto simp: session_with_device_def token_dead_def list_all_iff find_None_iff)

lemma update_sessions_Inr:
  "update_sessions P f d = Inr d' \<longleftrightarrow> d' = d\<lparr>sessions := update_where P f (sessions d)\<rparr>
     \<and> list_all (\<lambda>r. P r \<longrightarrow> session_checks (f r)) (sessions d)
     \<and> distinct (map se_session_token_hash (update_where P f (sessions d)))"
  by (auto simp: update_sessions_def Let_def)

lemma mark_revoked_kills:
  assumes "unique_tokens d" and "s \<in> set (sessions d)" and "mark_revoked (se_id s) now d = Inr d'"
  shows "token_dead (se_session_token_hash s) d'"
proof -
  have "d' = d\<lparr>sessions := update_where (\<lambda>r. se_id r = se_id s) (\<lambda>r. r\<lparr>se_revoked_at := Some now\<rparr>) (sessions d)\<rparr>"
    using assms(3) by (simp add: mark_revoked_def update_sessions_Inr)
  moreover have "se_revoked_at r' \<noteq> None"
    if "r' \<in> set (update_where (\<lambda>r. se_id r = se_id s) (\<lambda>r. r\<lparr>se_revoked_at := Some now\<rparr>) (sessions d))"
      and "se_session_token_hash r' = se_session_token_hash s" for r'
  proof -
    from that(1) obtain r where r: "r \<in> set (sessions d)"
      and r': "r' = (if se_id r = se_id s then r\<lparr>se_revoked_at := Some now\<rparr> else r)"
      by (auto simp: update_where_def)
    then have "se_session_token_hash r = se_session_token_hash s" using that(2) by (auto split: if_splits)
    then have "r = s" using assms(1,2) r distinct_map_unique unfolding unique_tokens_def by metis
    then show ?thesis using r' by simp
  qed
  ultimately show ?thesis by (auto simp: token_dead_def list_all_iff)
qed

text \<open>C27. Refusing a session closes it: when a request's cookie is refused without an error, no
  unrevoked session with that token is left, also when the row was still there because only its
  expiry or its device's revocation was noticed now.\<close>

theorem refused_session_is_revoked:
  assumes "load_current_session h now e w = (Inr None, w')"
    and "session_token_from_headers (ext e) h = Some tok" and "unique_tokens (w_db w)"
  shows "token_dead (sha256 (ext e) tok) (w_db w')"
proof (cases "session_with_device (sha256_verifier (ext e) tok) (w_db w)")
  case None
  then show ?thesis
    using load_current_session_run [OF assms(1)] assms(2) session_with_device_None
    by (simp add: sha256_verifier_def)
next
  case (Some p)
  obtain s q where p: "p = (s, q)" by force
  from load_current_session_run [OF assms(1)] assms(2) Some p
  have "mark_revoked (se_id s) now (w_db w) = Inr (w_db w')" by simp
  from mark_revoked_kills [OF assms(3) _ this] session_with_device_Some [OF Some [unfolded p]]
  show ?thesis by (simp add: sha256_verifier_def)
qed

theorem refused_session_is_revoked_witness:
  "\<exists>w'. load_current_session sample_headers (seconds 1000) sample_env
       (world_of (empty_db\<lparr>sessions := [sample_session (seconds 900)]\<rparr>)) = (Inr None, w')
     \<and> token_dead (sha256 sample sample_token) (w_db w')"
proof -
  let ?w = "world_of (empty_db\<lparr>sessions := [sample_session (seconds 900)]\<rparr>)"
  have "session_checks (sample_session (seconds 900)\<lparr>se_revoked_at := Some (seconds 1000)\<rparr>)"
    by (simp add: session_checks_def sample_session_def opt_all_def seconds_def sample_sha256_length)
  then have "wp sample_env (load_current_session sample_headers (seconds 1000))
      (\<lambda>a _. a = None) (\<lambda>_ _. False) ?w"
    by (simp add: load_current_session_def wp_eqs query_def sample_headers_token revoke_session_def
        session_with_device_def sample_session_def sha256_verifier_def seconds_def command_def
        mark_revoked_def update_sessions_def update_where_def Let_def constrained_def)
  then obtain w' where run: "load_current_session sample_headers (seconds 1000) sample_env ?w
      = (Inr None, w')" by (auto elim: run_of_wp)
  have "unique_tokens (w_db ?w)" by (simp add: unique_tokens_def)
  from refused_session_is_revoked [OF run _ this] run sample_headers_token show ?thesis by auto
qed

section \<open>CSRF tokens and logout\<close>

lemma ensure_csrf_run:
  "ensure_csrf_token h i e w =
     (case csrf_token_from_headers (ext e) h of
        None \<Rightarrow> (Inl CsrfRequired, w)
      | Some tok \<Rightarrow>
          let w1 = w\<lparr>w_tick := w_tick w + 1\<rparr> in
          (if fault_at e (w_tick w) \<noteq> Fine then (Inl ServiceUnavailable, w1)
           else if length (sha256 (ext e) tok) = TOKEN_LEN
               \<and> csrf_hash_of i (w_db w) = Some (sha256 (ext e) tok) then (Inr (), w1)
           else (Inl CsrfRequired, w1)))"
proof (cases "csrf_token_from_headers (ext e) h")
  case None
  then show ?thesis by (simp add: ensure_csrf_token_def try_io_def ask_def lift_def)
next
  case tok: (Some tok)
  show ?thesis
  proof (cases "fault_at e (w_tick w)")
    case Fine
    then show ?thesis
      using tok
      by (cases "csrf_hash_of i (w_db w)")
        (auto simp: ensure_csrf_token_def try_io_def ask_def lift_def unavailable_def map_err_io_def
          run_pool_def query_def Let_def ret_def throw_def sha256_verifier_def)
  qed (use tok in \<open>simp_all add: ensure_csrf_token_def try_io_def ask_def lift_def unavailable_def
      map_err_io_def run_pool_def query_def Let_def\<close>)
qed

text \<open>The CSRF check passes exactly when the database answers, the request carries a
  well-formed token in its CSRF header, and the unrevoked session stores the hash of that very
  token; a session for which no token was issued refuses every request. The check changes
  nothing.\<close>

theorem ensure_csrf_token_iff:
  "(fst (ensure_csrf_token h i e w) = Inr () \<longleftrightarrow>
      fault_at e (w_tick w) = Fine \<and> (\<exists>tok. csrf_token_from_headers (ext e) h = Some tok
        \<and> length (sha256 (ext e) tok) = TOKEN_LEN
        \<and> csrf_hash_of i (w_db w) = Some (sha256 (ext e) tok)))
   \<and> w_db (snd (ensure_csrf_token h i e w)) = w_db w"
  by (cases "csrf_token_from_headers (ext e) h") (auto simp: ensure_csrf_run Let_def)

definition csrf_valid :: "env \<Rightarrow> headers \<Rightarrow> uuid \<Rightarrow> db \<Rightarrow> bool" where
  "csrf_valid e h i d \<longleftrightarrow> (\<exists>tok. csrf_token_from_headers (ext e) h = Some tok
     \<and> csrf_hash_of i d = Some (sha256 (ext e) tok))"

lemma wp_ensure_csrf:
  assumes "\<And>w'. csrf_valid e h i (w_db w) \<Longrightarrow> w_db w' = w_db w \<Longrightarrow> w_txn w' = w_txn w \<Longrightarrow> Q () w'"
    and "\<And>x w'. w_db w' = w_db w \<Longrightarrow> w_txn w' = w_txn w \<Longrightarrow> R x w'"
  shows "wp e (ensure_csrf_token h i) Q R w"
  using assms unfolding wp_def ensure_csrf_run csrf_valid_def
  by (auto simp: Let_def split: option.splits)

lemma wp_load_current_session:
  assumes "\<And>w'. (\<And>tok. session_token_from_headers (ext e) h = Some tok \<Longrightarrow>
        (case session_with_device (sha256_verifier (ext e) tok) (w_db w) of
           None \<Rightarrow> w_db w' = w_db w
         | Some (s, _) \<Rightarrow> \<not> live_session (w_db w) now s
             \<and> mark_revoked (se_id s) now (w_db w) = Inr (w_db w'))) \<Longrightarrow> Q None w'"
    and "\<And>tok s w'. session_token_from_headers (ext e) h = Some tok \<Longrightarrow>
        se_session_token_hash s = sha256_verifier (ext e) tok \<Longrightarrow> live_session (w_db w) now s \<Longrightarrow>
        w_db w' = w_db w \<Longrightarrow> w_txn w' = w_txn w \<Longrightarrow> Q (Some (session_of s)) w'"
    and "\<And>w'. R ServiceUnavailable w'"
  shows "wp e (load_current_session h now) Q R w"
proof -
  obtain r w' where run: "load_current_session h now e w = (r, w')" by force
  note load_current_session_run [OF run]
  then show ?thesis
  proof (cases r)
    case (Inr c)
    then show ?thesis
      using load_current_session_run [OF run] assms run
      by (cases c) (auto simp: wp_def)
  qed (use run assms in \<open>simp add: wp_def\<close>)
qed

text \<open>Checking and refreshing a session touches the session table only: at most one row is revoked,
  or has its activity recorded.\<close>

definition session_checked :: "db \<Rightarrow> db \<Rightarrow> bool" where
  "session_checked d d' \<longleftrightarrow> d' = d \<or> (\<exists>i now. mark_revoked i now d = Inr d')"

definition session_refreshed :: "db \<Rightarrow> db \<Rightarrow> bool" where
  "session_refreshed d d' \<longleftrightarrow> session_checked d d' \<or> (\<exists>i now idle. mark_active i now idle d = Inr d')"

lemma session_checked_refl [simp]: "session_checked d d"
  by (simp add: session_checked_def)

lemma session_checkedI: "mark_revoked i now d = Inr d' \<Longrightarrow> session_checked d d'"
  by (auto simp: session_checked_def)

lemma session_refreshed_refl [simp]: "session_refreshed d d"
  by (simp add: session_refreshed_def)

lemma session_checked_refreshed: "session_checked d d' \<Longrightarrow> session_refreshed d d'"
  by (simp add: session_refreshed_def)

lemma session_refreshed_only:
  assumes "session_refreshed d d'"
  shows "d' = d\<lparr>sessions := sessions d'\<rparr>"
  using assms
  by (auto simp: session_refreshed_def session_checked_def mark_revoked_def mark_active_def update_sessions_def
      Let_def)

lemma wp_check_session:
  assumes "\<And>w'. session_checked (w_db w) (w_db w') \<Longrightarrow> w_txn w' = w_txn w \<Longrightarrow> Q None w'"
    and "\<And>tok s w'. session_token_from_headers (ext e) h = Some tok \<Longrightarrow>
        se_session_token_hash s = sha256_verifier (ext e) tok \<Longrightarrow> live_session (w_db w) now s \<Longrightarrow>
        w_db w' = w_db w \<Longrightarrow> w_txn w' = w_txn w \<Longrightarrow> Q (Some (session_of s)) w'"
    and "\<And>x w'. session_checked (w_db w) (w_db w') \<Longrightarrow> R x w'"
  shows "wp e (load_current_session h now) Q R w"
proof -
  have alive: "live_session d now s"
    if "session_with_device k d = Some (s, q)" "\<not> (q \<noteq> None \<or> se_idle_expires_at s \<le> now \<or> se_absolute_expires_at s \<le> now)"
    for k d s q using session_with_device_Some [OF that(1)] that(2) by (auto simp: live_session_def)
  note hash = session_with_device_Some [THEN conjunct2, THEN conjunct1]
  show ?thesis
    unfolding load_current_session_def revoke_session_def
    apply (intro vc_rules)
    apply (simp_all only: session_of_def [symmetric])
    apply (auto simp: same_state_def intro: assms session_checkedI intro!: assms(2) dest: alive hash)
    done
qed

lemma wp_refresh_session:
  assumes "\<And>w'. session_refreshed (w_db w) (w_db w') \<Longrightarrow> w_txn w' = w_txn w \<Longrightarrow>
      Q (s\<lparr>cs_idle_expires_at := min_time (now + SESSION_IDLE_TTL) (cs_absolute_expires_at s)\<rparr>) w'"
    and "\<And>x w'. session_refreshed (w_db w) (w_db w') \<Longrightarrow> R x w'"
  shows "wp e (refresh_session_activity s now) Q R w"
  unfolding refresh_session_activity_def Let_def
  by (intro vc_rules) (auto simp: same_state_def session_refreshed_def intro!: assms)

lemma delete_session_kills:
  assumes "unique_tokens d" and "s \<in> set (sessions d)"
  shows "token_dead (se_session_token_hash s) (delete_session (se_id s) d)"
  using assms distinct_map_unique [of se_session_token_hash "sessions d"]
  by (auto simp: token_dead_def delete_session_def set_delete_where list_all_iff unique_tokens_def)

definition logged_out :: "env \<Rightarrow> headers \<Rightarrow> bytes \<Rightarrow> time \<Rightarrow> db \<Rightarrow> db \<Rightarrow> bool" where
  "logged_out e h tok now d d' \<longleftrightarrow> token_dead (sha256 (ext e) tok) d'
     \<and> (\<forall>s. live_session d now s \<and> se_session_token_hash s = sha256 (ext e) tok
         \<longrightarrow> ensure_unsafe_request_context h = Inr () \<and> csrf_valid e h (se_id s) d)"

lemma live_session_mem: "live_session d now s \<Longrightarrow> s \<in> set (sessions d)"
  by (simp add: live_session_def)

lemma logged_out_refused:
  assumes "unique_tokens d"
    and "case session_with_device (sha256_verifier (ext e) tok) d of
        None \<Rightarrow> d' = d
      | Some (s, _) \<Rightarrow> \<not> live_session d now s \<and> mark_revoked (se_id s) now d = Inr d'"
  shows "logged_out e h tok now d d'"
proof (cases "session_with_device (sha256_verifier (ext e) tok) d")
  case None
  with assms(2) session_with_device_None [OF None] show ?thesis
    by (auto simp: logged_out_def sha256_verifier_def token_dead_def live_session_def list_all_iff)
next
  case (Some p)
  obtain s q where p: "p = (s, q)" by force
  note row = session_with_device_Some [OF Some [unfolded p]]
  note unique = distinct_map_unique [OF assms(1) [unfolded unique_tokens_def]]
  from assms(2) Some p have rev: "mark_revoked (se_id s) now d = Inr d'" and dead: "\<not> live_session d now s"
    by simp_all
  have "s' = s" if "live_session d now s'" and "se_session_token_hash s' = sha256 (ext e) tok" for s'
    using that row unique [of s' s] by (auto simp: live_session_def sha256_verifier_def)
  then show ?thesis
    using mark_revoked_kills [OF assms(1) _ rev] row dead by (auto simp: logged_out_def sha256_verifier_def)
qed

lemma logged_out_live:
  assumes "unique_tokens d" and "live_session d now s" and "se_session_token_hash s = sha256 (ext e) tok"
    and "ensure_unsafe_request_context h = Inr ()" and "csrf_valid e h (se_id s) d"
  shows "logged_out e h tok now d (delete_session (se_id s) d)"
proof -
  note unique = distinct_map_unique [OF assms(1) [unfolded unique_tokens_def] _ live_session_mem [OF assms(2)]]
  have "s' = s" if "live_session d now s'" and "se_session_token_hash s' = sha256 (ext e) tok" for s'
    using unique [OF live_session_mem [OF that(1)]] that(2) assms(3) by simp
  then show ?thesis
    using delete_session_kills [OF assms(1) live_session_mem [OF assms(2)]] assms(3-5)
    by (auto simp: logged_out_def)
qed

lemma wp_logout:
  assumes "session_token_from_headers (ext e) h = Some tok" and "unique_tokens (w_db w)"
  shows "wp e (logout h)
     (\<lambda>_ w'. logged_out e h tok (clock e (w_tick w) div 1000000 * 1000000) (w_db w) (w_db w')) (\<lambda>_ _. True) w"
  unfolding logout_def wp_handler wp_try wp_database_pool wp_now
proof (simp, intro impI wp_load_current_session, goal_cases)
  case (1 w')
  then have "logged_out e h tok (clock e (w_tick w) div 1000000 * 1000000) (w_db w) (w_db w')"
    by (intro logged_out_refused [OF assms(2)]) (use 1(2) [OF assms(1)] in \<open>simp cong: option.case_cong prod.case_cong\<close>)
  then show ?case by (simp add: wp_eqs)
next
  case (2 tok' s w')
  note row = this
  have hash: "se_session_token_hash s = sha256 (ext e) tok"
    using row(2,3) assms(1) by (simp add: sha256_verifier_def)
  have l: "live_session (w_db w) (clock e (w_tick w) div 1000000 * 1000000) s" using row(4) by simp
  show ?case
  proof (cases "ensure_unsafe_request_context h")
    case (Inr u)
    then have ctx: "ensure_unsafe_request_context h = Inr ()" by simp
    show ?thesis
      unfolding Inr wp_eqs option.case sum.case session_of_def current_session.simps
    proof (rule wp_ensure_csrf, goal_cases)
      case (1 w2)
      then have "csrf_valid e h (se_id s) (w_db w)" using row(5) by simp
      note logged_out_live [OF assms(2) l hash ctx this]
      with 1 row(5) show ?case by (simp add: Let_def command_def)
    qed simp
  qed (simp add: wp_eqs)
next
  case (3 w')
  then show ?case by simp
qed

text \<open>C28. Logging out works and needs the CSRF token: when \<open>logout\<close> reports success, no
  unrevoked session with the request's token is left, and if the session was live the request
  had passed the origin check and carried the session's CSRF token.\<close>

theorem logout_ends_session:
  assumes "logout h e w = (Inr resp, w')" and "session_token_from_headers (ext e) h = Some tok"
    and "unique_tokens (w_db w)"
  shows "token_dead (sha256 (ext e) tok) (w_db w')
    \<and> (\<forall>s. live_session (w_db w) (clock e (w_tick w) div 1000000 * 1000000) s
          \<and> se_session_token_hash s = sha256 (ext e) tok
        \<longrightarrow> ensure_unsafe_request_context h = Inr () \<and> csrf_valid e h (se_id s) (w_db w))"
  using wp_result [OF assms(1) wp_logout [OF assms(2,3)]] by (simp add: logged_out_def)

theorem logout_ends_session_witness:
  "\<exists>resp w'. logout sample_headers sample_env
       (world_of (empty_db\<lparr>sessions := [sample_session (seconds 2000)]\<rparr>)) = (Inr resp, w')
     \<and> token_dead (sha256 sample sample_token) (w_db w')"
proof -
  let ?w = "world_of (empty_db\<lparr>sessions := [sample_session (seconds 2000)]\<rparr>)"
  have context_ok: "ensure_unsafe_request_context sample_headers = Inr ()"
    by (simp add: ensure_unsafe_request_context_def sample_headers_def)
  have "wp sample_env (logout sample_headers) (\<lambda>_ _. True) (\<lambda>_ _. False) ?w"
    by (simp add: logout_def load_current_session_def wp_eqs query_def command_def sample_headers_token
        session_with_device_def sample_session_def sha256_verifier_def seconds_def context_ok Let_def
        ensure_csrf_token_def sample_headers_csrf csrf_hash_of_def sample_sha256_length TOKEN_LEN_def)
  then obtain resp w' where run: "logout sample_headers sample_env ?w = (Inr resp, w')"
    by (auto elim: run_of_wp)
  have "unique_tokens (w_db ?w)" by (simp add: unique_tokens_def)
  from logout_ends_session [OF run _ this] run sample_headers_token show ?thesis by auto
qed

section \<open>Steps of the session code\<close>

text \<open>The interface between the session code and a relation on databases: the relation admits the
  statements that the session code sends. Every handler that uses these functions then moves the
  committed database by its steps only, whatever the faults.\<close>

locale session_steps =
  fixes S :: "db \<Rightarrow> db \<Rightarrow> bool"
  assumes revoke_step: "mark_revoked i now d = Inr d' \<Longrightarrow> S d d'"
    and active_step: "mark_active i now idle d = Inr d' \<Longrightarrow> S d d'"
    and csrf_step: "set_csrf_hash i k d = Inr d' \<Longrightarrow> S d d'"
    and delete_step: "S d (delete_session i d)"
begin

lemma moves_revoke: "moves S e (revoke_session i now)"
  unfolding revoke_session_def by (intro moves_intros moves_command) (rule revoke_step)

lemma moves_load: "moves S e (load_current_session h now)"
  unfolding load_current_session_def by (intro moves_intros moves_revoke)

lemma moves_refresh: "moves S e (refresh_session_activity s now)"
  unfolding refresh_session_activity_def Let_def
  by (intro moves_intros moves_command) (rule active_step)

lemma moves_csrf_check: "moves S e (ensure_csrf_token h i)"
  unfolding ensure_csrf_token_def Let_def by (intro moves_intros)

lemmas moves_session = moves_intros moves_load moves_refresh moves_csrf_check moves_revoke

lemma moves_session_status: "moves S e (session_status h)"
  unfolding session_status_def Let_def by (intro moves_session)

lemma moves_csrf_token: "moves S e (csrf_token h)"
  unfolding csrf_token_def Let_def random_token_def
  by (intro moves_session moves_command) (rule csrf_step)

lemma moves_logout: "moves S e (logout h)"
proof -
  have "moves S e (run_pool (command (\<lambda>_ d. Inr (delete_session i d))))" for i
    by (rule moves_command) (auto intro: delete_step)
  then show ?thesis
    unfolding logout_def by (intro moves_session)
qed

end

end
