(* ===== verification/PV_Telemetry.thy ===== *)
theory PV_Telemetry
  imports PV_World
begin

text \<open>
  \<^verbatim>\<open>crates/api/src/telemetry.rs\<close>: the traffic class of a request and the metrics that the
  handlers emit. A metric is recorded as its name and labels; the value of a counter is the number
  of its records, and gauges and histograms carry their values as labels.
\<close>

section \<open>Traffic class\<close>

definition TRAFFIC_CLASS_HEADER :: string where
  "TRAFFIC_CLASS_HEADER = ''x-password-vault-traffic-class''"

definition SYNTHETIC_TRAFFIC_TOKEN_HEADER :: string where
  "SYNTHETIC_TRAFFIC_TOKEN_HEADER = ''x-password-vault-synthetic-token''"

definition constant_time_token_eq :: "string \<Rightarrow> string \<Rightarrow> bool" where
  "constant_time_token_eq provided expected \<longleftrightarrow>
     length (as_bytes provided) = length (as_bytes expected) \<and> as_bytes provided = as_bytes expected"

definition traffic_class_from_headers :: "headers \<Rightarrow> string option \<Rightarrow> string" where
  "traffic_class_from_headers h synthetic_traffic_token =
     (if map_option trim (h TRAFFIC_CLASS_HEADER) \<noteq> Some ''synthetic'' then ''user''
      else case synthetic_traffic_token of
          None \<Rightarrow> ''user''
        | Some expected_token \<Rightarrow>
            (case map_option trim (h SYNTHETIC_TRAFFIC_TOKEN_HEADER) of
               None \<Rightarrow> ''user''
             | Some provided_token \<Rightarrow>
                 if constant_time_token_eq provided_token expected_token then ''synthetic'' else ''user''))"

text \<open>Traffic counts as synthetic, which exempts it from user-facing service levels, exactly
  when the request says so and presents the configured token; without a configured token nothing
  does.\<close>

theorem traffic_class_synthetic_iff:
  "traffic_class_from_headers h token =
     (if (\<exists>c t. h TRAFFIC_CLASS_HEADER = Some c \<and> trim c = ''synthetic''
            \<and> h SYNTHETIC_TRAFFIC_TOKEN_HEADER = Some t \<and> token = Some (trim t))
      then ''synthetic'' else ''user'')"
  by (auto simp: traffic_class_from_headers_def constant_time_token_eq_def split: option.splits)

section \<open>Metrics\<close>

definition counter :: "string \<Rightarrow> (string \<times> string) list \<Rightarrow> ('e, unit) io" where
  "counter name labels =
     try_io ask (\<lambda>e. emit name (labels @ [(''traffic_class'', traffic_class e)]))"

definition registration_event :: "string \<Rightarrow> string \<Rightarrow> ('e, unit) io" where
  "registration_event event outcome =
     counter ''password_vault_registration_events_total'' [(''event'', event), (''outcome'', outcome)]"

definition account_created :: "string \<Rightarrow> ('e, unit) io" where
  "account_created outcome =
     counter ''password_vault_accounts_created_total'' [(''outcome'', outcome)]"

definition login_start_event :: "string \<Rightarrow> ('e, unit) io" where
  "login_start_event outcome =
     counter ''password_vault_login_starts_total'' [(''outcome'', outcome)]"

definition login_attempt :: "string \<Rightarrow> string \<Rightarrow> ('e, unit) io" where
  "login_attempt outcome failure_class =
     counter ''password_vault_login_attempts_total''
       [(''outcome'', outcome), (''failure_class'', failure_class)]"

definition rate_limited_request :: "string \<Rightarrow> string \<Rightarrow> ('e, unit) io" where
  "rate_limited_request policy flow =
     counter ''password_vault_rate_limited_requests_total'' [(''policy'', policy), (''flow'', flow)]"

definition session_event :: "string \<Rightarrow> string \<Rightarrow> ('e, unit) io" where
  "session_event event outcome =
     counter ''password_vault_session_events_total'' [(''event'', event), (''outcome'', outcome)]"

definition mfa_event :: "string \<Rightarrow> string \<Rightarrow> ('e, unit) io" where
  "mfa_event event outcome =
     counter ''password_vault_mfa_events_total'' [(''event'', event), (''outcome'', outcome)]"

definition sync_request :: "string \<Rightarrow> string \<Rightarrow> ('e, unit) io" where
  "sync_request outcome page =
     counter ''password_vault_sync_requests_total'' [(''outcome'', outcome), (''page'', page)]"

definition vault_item_change :: "string \<Rightarrow> string \<Rightarrow> ('e, unit) io" where
  "vault_item_change operation outcome =
     counter ''password_vault_vault_item_changes_total''
       [(''operation'', operation), (''outcome'', outcome)]"

definition db_error :: "string \<Rightarrow> string \<Rightarrow> ('e, unit) io" where
  "db_error operation error_class =
     emit ''password_vault_db_errors_total''
       [(''operation'', operation), (''error_class'', error_class)]"

text \<open>\<open>u32::try_from(idle).unwrap_or(u32::MAX).min(size)\<close> and \<open>saturating_sub\<close>.\<close>

definition db_pool_connections :: "nat \<Rightarrow> nat \<Rightarrow> nat \<Rightarrow> ('e, unit) io" where
  "db_pool_connections mx sz idle =
     (let idle = min (if idle < 2 ^ 32 then idle else 2 ^ 32 - 1) sz;
          used = sz - idle;
          gauge = (\<lambda>state v. emit ''password_vault_db_pool_connections'' [(''state'', state), (''value'', dec v)])
      in try_io (gauge ''max'' mx) (\<lambda>_.
         try_io (gauge ''idle'' idle) (\<lambda>_.
         gauge ''used'' used)))"

lemmas telemetry_defs =
  registration_event_def account_created_def login_start_event_def login_attempt_def
  rate_limited_request_def session_event_def mfa_event_def sync_request_def vault_item_change_def

text \<open>Metrics never fail and never touch the database.\<close>

lemma wp_counter [wp_eqs]:
  "wp e (counter n l) Q R w =
     Q () (w\<lparr>w_metrics := w_metrics w @ [(n, l @ [(''traffic_class'', traffic_class e)])]\<rparr>)"
  by (simp add: counter_def wp_eqs)

lemma moves_counter: "moves S e (counter n l)"
  unfolding counter_def by (intro moves_intros)

lemma moves_telemetry:
  "moves S e (registration_event a b)" "moves S e (account_created a)" "moves S e (login_start_event a)"
  "moves S e (login_attempt a b)" "moves S e (rate_limited_request a b)" "moves S e (session_event a b)"
  "moves S e (mfa_event a b)" "moves S e (sync_request a b)" "moves S e (vault_item_change a b)"
  by (simp_all add: telemetry_defs moves_counter)

lemma goes_counter: "goes S e (counter n l)"
  unfolding counter_def by (intro goes_intros)

lemma goes_telemetry:
  "goes S e (registration_event a b)" "goes S e (account_created a)" "goes S e (login_start_event a)"
  "goes S e (login_attempt a b)" "goes S e (rate_limited_request a b)" "goes S e (session_event a b)"
  "goes S e (mfa_event a b)" "goes S e (sync_request a b)" "goes S e (vault_item_change a b)"
  by (simp_all add: telemetry_defs goes_counter)

end
