(* ===== verification/PV_Challenge.thy ===== *)
theory PV_Challenge
  imports PV_Session PV_Telemetry
begin

text \<open>
  Authentication challenges in \<^verbatim>\<open>crates/api/src/auth/routes.rs\<close>: the validation of
  request fields, the metadata that a challenge carries as JSON, the statements on
  \<open>auth_challenges\<close> (insertion, consumption, attempt counting, expiry), the rate limit, the audit
  log, and \<open>register_start\<close>, the first handler that uses them.
\<close>

section \<open>Constants\<close>

definition AUTH_PROTOCOL :: string where
  "AUTH_PROTOCOL = ''derived-auth-v1''"

definition CLIENT_NONCE_BYTES :: nat where
  "CLIENT_NONCE_BYTES = 32"

definition SERVER_NONCE_BYTES :: nat where
  "SERVER_NONCE_BYTES = 32"

definition AUTH_KEY_BYTES :: nat where
  "AUTH_KEY_BYTES = 32"

definition AEAD_NONCE_BYTES :: nat where
  "AEAD_NONCE_BYTES = 12"

definition MAX_ENCRYPTED_ENVELOPE_BYTES :: nat where
  "MAX_ENCRYPTED_ENVELOPE_BYTES = 64 * 1024"

definition MAX_LOGIN_HANDLE_BYTES :: nat where
  "MAX_LOGIN_HANDLE_BYTES = 320"

definition MAX_DEVICE_LABEL_BYTES :: nat where
  "MAX_DEVICE_LABEL_BYTES = 128"

definition MAX_DEVICE_PUBLIC_METADATA_BYTES :: nat where
  "MAX_DEVICE_PUBLIC_METADATA_BYTES = 2048"

definition AUTH_CHALLENGE_RATE_LIMIT :: nat where
  "AUTH_CHALLENGE_RATE_LIMIT = 20"

definition MFA_CHALLENGE_MAX_ATTEMPTS :: int where
  "MFA_CHALLENGE_MAX_ATTEMPTS = 5"

definition AUTH_CHALLENGE_RATE_LIMIT_WINDOW :: time where
  "AUTH_CHALLENGE_RATE_LIMIT_WINDOW = minutes 5"

definition REGISTER_CHALLENGE_TTL :: time where
  "REGISTER_CHALLENGE_TTL = minutes 10"

definition LOGIN_CHALLENGE_TTL :: time where
  "LOGIN_CHALLENGE_TTL = minutes 5"

section \<open>Validation of request fields\<close>

definition ensure_supported_protocol :: "string \<Rightarrow> api_error + unit" where
  "ensure_supported_protocol auth_protocol =
     (if auth_protocol = AUTH_PROTOCOL then Inr () else Inl BadRequest)"

definition normalize_login_handle :: "string \<Rightarrow> api_error + string" where
  "normalize_login_handle login_handle =
     (let normalized = to_ascii_lowercase (trim login_handle) in
      if normalized = [] \<or> length normalized > MAX_LOGIN_HANDLE_BYTES \<or> has_control normalized
      then Inl BadRequest else Inr normalized)"

definition validate_short_text :: "string \<Rightarrow> nat \<Rightarrow> api_error + string" where
  "validate_short_text value max_bytes =
     (let trimmed = trim value in
      if trimmed = [] \<or> length trimmed > max_bytes \<or> has_control trimmed
      then Inl BadRequest else Inr trimmed)"

definition auth_key_from_vec :: "bytes \<Rightarrow> api_error + bytes" where
  "auth_key_from_vec value =
     (if length value = AUTH_KEY_BYTES then Inr value else Inl ServiceUnavailable)"

record encrypted_envelope_request =
  eq_crypto_version :: string
  eq_key_id :: string
  eq_nonce :: string
  eq_ciphertext :: string

record validated_envelope =
  ve_crypto_version :: string
  ve_key_id :: string
  ve_nonce :: bytes
  ve_ciphertext :: bytes

definition envelope_from_request ::
  "externals \<Rightarrow> encrypted_envelope_request \<Rightarrow> string \<Rightarrow> api_error + validated_envelope" where
  "envelope_from_request X request expected_crypto_version =
     (if eq_crypto_version request \<noteq> expected_crypto_version then Inl BadRequest
      else
        and_then (validate_short_text (eq_key_id request) 128) (\<lambda>key_id.
        and_then (map_err (\<lambda>_. BadRequest) (decode_base64url_array X AEAD_NONCE_BYTES (eq_nonce request))) (\<lambda>nonce.
        and_then (map_err (\<lambda>_. BadRequest) (decode_base64url X (eq_ciphertext request))) (\<lambda>ciphertext.
        if ciphertext = [] \<or> length ciphertext > MAX_ENCRYPTED_ENVELOPE_BYTES then Inl BadRequest
        else Inr \<lparr>ve_crypto_version = eq_crypto_version request, ve_key_id = key_id,
               ve_nonce = nonce, ve_ciphertext = ciphertext\<rparr>))))"

record device_request =
  dq_label :: string
  dq_client_type :: string
  dq_public_metadata :: json

record validated_device =
  vd_label :: string
  vd_client_type :: string
  vd_public_metadata :: json

definition device_from_parts :: "externals \<Rightarrow> string \<Rightarrow> string \<Rightarrow> json \<Rightarrow> api_error + validated_device" where
  "device_from_parts X label client_type public_metadata =
     and_then (validate_short_text label MAX_DEVICE_LABEL_BYTES) (\<lambda>label.
     if client_type \<notin> set [''browser'', ''browser-extension'', ''ios'', ''android'', ''cli'']
     then Inl BadRequest
     else if \<not> is_object public_metadata then Inl BadRequest
     else if json_size X public_metadata > MAX_DEVICE_PUBLIC_METADATA_BYTES then Inl BadRequest
     else Inr \<lparr>vd_label = label, vd_client_type = client_type, vd_public_metadata = public_metadata\<rparr>)"

definition device_from_request :: "externals \<Rightarrow> device_request \<Rightarrow> api_error + validated_device" where
  "device_from_request X request =
     device_from_parts X (dq_label request) (dq_client_type request) (dq_public_metadata request)"

section \<open>Challenge metadata\<close>

definition PBKDF2_BROWSER_PROFILE_ID :: string where
  "PBKDF2_BROWSER_PROFILE_ID = ''pbkdf2-sha256-browser-v1''"

definition PBKDF2_BROWSER_ITERATIONS :: nat where
  "PBKDF2_BROWSER_ITERATIONS = 600000"

definition default_kdf_profile :: json where
  "default_kdf_profile = JObj
     [(''algorithm'', JStr ''PBKDF2-HMAC-SHA-256''), (''hash'', JStr ''SHA-256''),
      (''id'', JStr PBKDF2_BROWSER_PROFILE_ID), (''iterations'', JNum (int PBKDF2_BROWSER_ITERATIONS))]"

text \<open>Deserialising a metadata struct fails on a missing or ill-typed field.\<close>

definition field :: "'a option \<Rightarrow> api_error + 'a" where
  "field x = ok_or ServiceUnavailable x"

record register_metadata =
  rm_kdf_profile :: json
  rm_account_salt :: string
  rm_auth_verifier_profile :: string
  rm_auth_verifier_salt :: string
  rm_auth_verifier_iterations :: nat

definition register_metadata_json :: "register_metadata \<Rightarrow> json" where
  "register_metadata_json m = JObj
     [(''account_salt'', JStr (rm_account_salt m)),
      (''auth_verifier_iterations'', JNum (int (rm_auth_verifier_iterations m))),
      (''auth_verifier_profile'', JStr (rm_auth_verifier_profile m)),
      (''auth_verifier_salt'', JStr (rm_auth_verifier_salt m)),
      (''kdf_profile'', rm_kdf_profile m)]"

definition decode_register_challenge_metadata :: "json \<Rightarrow> api_error + register_metadata" where
  "decode_register_challenge_metadata value =
     and_then (field (json_get value ''kdf_profile'')) (\<lambda>kdf_profile.
     and_then (field (json_str (json_get value ''account_salt''))) (\<lambda>account_salt.
     and_then (field (json_str (json_get value ''auth_verifier_profile''))) (\<lambda>verifier_profile.
     and_then (field (json_str (json_get value ''auth_verifier_salt''))) (\<lambda>verifier_salt.
     and_then (field (json_u32 (json_get value ''auth_verifier_iterations''))) (\<lambda>iterations.
     if kdf_profile \<noteq> default_kdf_profile \<or> verifier_profile \<noteq> PROFILE_ID
        \<or> iterations \<noteq> DEFAULT_ITERATIONS
     then Inl ServiceUnavailable
     else Inr \<lparr>rm_kdf_profile = kdf_profile, rm_account_salt = account_salt,
            rm_auth_verifier_profile = verifier_profile, rm_auth_verifier_salt = verifier_salt,
            rm_auth_verifier_iterations = iterations\<rparr>)))))"

record login_challenge_metadata =
  lm_client_nonce :: string
  lm_server_nonce :: string
  lm_combined_nonce :: string
  lm_auth_verifier_profile :: string
  lm_auth_verifier_iterations :: nat
  lm_synthetic :: bool

definition login_metadata_json :: "login_challenge_metadata \<Rightarrow> json" where
  "login_metadata_json m = JObj
     [(''auth_verifier_iterations'', JNum (int (lm_auth_verifier_iterations m))),
      (''auth_verifier_profile'', JStr (lm_auth_verifier_profile m)),
      (''client_nonce'', JStr (lm_client_nonce m)),
      (''combined_nonce'', JStr (lm_combined_nonce m)),
      (''server_nonce'', JStr (lm_server_nonce m)),
      (''synthetic'', JBool (lm_synthetic m))]"

definition decode_login_challenge_metadata :: "json \<Rightarrow> api_error + login_challenge_metadata" where
  "decode_login_challenge_metadata value =
     and_then (field (json_str (json_get value ''client_nonce''))) (\<lambda>client_nonce.
     and_then (field (json_str (json_get value ''server_nonce''))) (\<lambda>server_nonce.
     and_then (field (json_str (json_get value ''combined_nonce''))) (\<lambda>combined_nonce.
     and_then (field (json_str (json_get value ''auth_verifier_profile''))) (\<lambda>verifier_profile.
     and_then (field (json_u32 (json_get value ''auth_verifier_iterations''))) (\<lambda>iterations.
     and_then (field (json_bool (json_get value ''synthetic''))) (\<lambda>synthetic.
     if verifier_profile \<noteq> PROFILE_ID \<or> iterations \<noteq> DEFAULT_ITERATIONS then Inl ServiceUnavailable
     else Inr \<lparr>lm_client_nonce = client_nonce, lm_server_nonce = server_nonce,
            lm_combined_nonce = combined_nonce, lm_auth_verifier_profile = verifier_profile,
            lm_auth_verifier_iterations = iterations, lm_synthetic = synthetic\<rparr>))))))"

record pre_mfa_metadata =
  pm_login_challenge_id :: uuid
  pm_device :: device_request

definition from_validated :: "validated_device \<Rightarrow> device_request" where
  "from_validated device =
     \<lparr>dq_label = vd_label device, dq_client_type = vd_client_type device,
      dq_public_metadata = vd_public_metadata device\<rparr>"

definition into_validated :: "externals \<Rightarrow> device_request \<Rightarrow> api_error + validated_device" where
  "into_validated X d = device_from_parts X (dq_label d) (dq_client_type d) (dq_public_metadata d)"

definition pre_mfa_metadata_json :: "externals \<Rightarrow> pre_mfa_metadata \<Rightarrow> json" where
  "pre_mfa_metadata_json X m = JObj
     [(''device'', JObj
        [(''client_type'', JStr (dq_client_type (pm_device m))),
         (''label'', JStr (dq_label (pm_device m))),
         (''public_metadata'', dq_public_metadata (pm_device m))]),
      (''login_challenge_id'', JStr (uuid_text X (pm_login_challenge_id m)))]"

definition decode_pre_mfa_challenge_metadata :: "externals \<Rightarrow> json \<Rightarrow> api_error + pre_mfa_metadata" where
  "decode_pre_mfa_challenge_metadata X value =
     and_then (field (Option.bind (json_str (json_get value ''login_challenge_id'')) (uuid_parse X))) (\<lambda>challenge.
     and_then (field (json_get value ''device'')) (\<lambda>device.
     and_then (field (json_str (json_get device ''label''))) (\<lambda>label.
     and_then (field (json_str (json_get device ''client_type''))) (\<lambda>client_type.
     and_then (field (json_get device ''public_metadata'')) (\<lambda>public_metadata.
     Inr \<lparr>pm_login_challenge_id = challenge, pm_device =
            \<lparr>dq_label = label, dq_client_type = client_type, dq_public_metadata = public_metadata\<rparr>\<rparr>)))))"

section \<open>Statements on challenges\<close>

record insert_challenge_input =
  ic_id :: uuid
  ic_account_id :: "uuid option"
  ic_login_handle_normalized :: string
  ic_challenge_type :: string
  ic_server_nonce :: bytes
  ic_public_metadata :: json
  ic_expires_at :: time

definition challenge_of :: "insert_challenge_input \<Rightarrow> time \<Rightarrow> challenge_row" where
  "challenge_of i t =
     \<lparr>ch_id = ic_id i, ch_account_id = ic_account_id i,
      ch_login_handle_normalized = ic_login_handle_normalized i,
      ch_challenge_type = ic_challenge_type i, ch_auth_protocol = AUTH_PROTOCOL,
      ch_server_nonce = ic_server_nonce i, ch_public_metadata = ic_public_metadata i,
      ch_attempts = 0, ch_expires_at = ic_expires_at i, ch_consumed_at = None, ch_created_at = t\<rparr>"

definition insert_challenge_stmt :: "insert_challenge_input \<Rightarrow> unit stmt" where
  "insert_challenge_stmt i = command (\<lambda>t. insert_challenge (challenge_of i t))"

definition insert_auth_challenge :: "insert_challenge_input \<Rightarrow> (api_error, unit) io" where
  "insert_auth_challenge input = pool_call (insert_challenge_stmt input)"

definition insert_auth_challenge_tx :: "insert_challenge_input \<Rightarrow> (api_error, unit) io" where
  "insert_auth_challenge_tx input = tx_call (insert_challenge_stmt input)"

definition set_consumed :: "uuid \<Rightarrow> time \<Rightarrow> db \<Rightarrow> db" where
  "set_consumed challenge_id now d = d\<lparr>auth_challenges :=
     update_where (\<lambda>c. ch_id c = challenge_id) (\<lambda>c. c\<lparr>ch_consumed_at := Some now\<rparr>) (auth_challenges d)\<rparr>"

definition consume_auth_challenge :: "uuid \<Rightarrow> time \<Rightarrow> (api_error, unit) io" where
  "consume_auth_challenge challenge_id now =
     tx_call (command (\<lambda>_ d. Inr (set_consumed challenge_id now d)))"

text \<open>\<open>attempts\<close> is an \<open>integer\<close> column: an increment past its range is an error.\<close>

definition count_attempt :: "uuid \<Rightarrow> time \<Rightarrow> db \<Rightarrow> sql_error + db" where
  "count_attempt challenge_id now d =
     (if list_all (\<lambda>c. ch_id c = challenge_id \<longrightarrow> ch_attempts c + 1 < 2 ^ 31) (auth_challenges d)
      then Inr (d\<lparr>auth_challenges := update_where (\<lambda>c. ch_id c = challenge_id)
             (\<lambda>c. c\<lparr>ch_attempts := ch_attempts c + 1,
                   ch_consumed_at := (if MFA_CHALLENGE_MAX_ATTEMPTS \<le> ch_attempts c + 1
                                      then Some now else ch_consumed_at c)\<rparr>) (auth_challenges d)\<rparr>)
      else Inl SqlFailure)"

definition increment_challenge_attempts :: "uuid \<Rightarrow> time \<Rightarrow> (api_error, unit) io" where
  "increment_challenge_attempts challenge_id now =
     tx_call (command (\<lambda>_. count_attempt challenge_id now))"

definition drop_expired_challenges :: "time \<Rightarrow> db \<Rightarrow> db" where
  "drop_expired_challenges now d =
     d\<lparr>auth_challenges := delete_where (\<lambda>c. ch_expires_at c < now) (auth_challenges d)\<rparr>"

definition cleanup_expired_challenges :: "(api_error, unit) io" where
  "cleanup_expired_challenges = pool_call (command (\<lambda>t d. Inr (drop_expired_challenges t d)))"

record pre_mfa_challenge =
  pc_id :: uuid
  pc_account_id :: uuid
  pc_metadata :: pre_mfa_metadata
  pc_attempts :: int

definition open_challenge :: "string \<Rightarrow> uuid \<Rightarrow> time \<Rightarrow> challenge_row \<Rightarrow> bool" where
  "open_challenge challenge_type challenge_id now c \<longleftrightarrow>
     ch_id c = challenge_id \<and> ch_challenge_type c = challenge_type \<and> ch_auth_protocol c = AUTH_PROTOCOL
     \<and> ch_consumed_at c = None \<and> now \<le> ch_expires_at c"

definition load_pre_mfa_challenge :: "uuid \<Rightarrow> time \<Rightarrow> (api_error, pre_mfa_challenge option) io" where
  "load_pre_mfa_challenge challenge_id now =
     try_io (tx_call (query (\<lambda>d. find (open_challenge ''pre_mfa'' challenge_id now) (auth_challenges d)))) (\<lambda>row.
     case row of
       None \<Rightarrow> ret None
     | Some c \<Rightarrow>
         try_io (lift (field (ch_account_id c))) (\<lambda>account_id.
         try_io ask (\<lambda>e.
         try_io (lift (decode_pre_mfa_challenge_metadata (ext e) (ch_public_metadata c))) (\<lambda>metadata.
         ret (Some \<lparr>pc_id = ch_id c, pc_account_id = account_id, pc_metadata = metadata,
                pc_attempts = ch_attempts c\<rparr>)))))"

definition enforce_challenge_rate_limit :: "string \<Rightarrow> string \<Rightarrow> (api_error, unit) io" where
  "enforce_challenge_rate_limit handle challenge_type =
     try_io now_utc_second (\<lambda>now.
     let window_start = now - AUTH_CHALLENGE_RATE_LIMIT_WINDOW in
     try_io (pool_call (query (\<lambda>d. count_where (\<lambda>c. ch_login_handle_normalized c = handle
         \<and> ch_challenge_type c = challenge_type \<and> window_start \<le> ch_created_at c) (auth_challenges d)))) (\<lambda>count.
     if count \<ge> AUTH_CHALLENGE_RATE_LIMIT
     then try_io (rate_limited_request ''auth_challenge'' challenge_type) (\<lambda>_. throw RateLimited)
     else ret ()))"

section \<open>Audit events\<close>

definition insert_audit_event ::
  "uuid \<Rightarrow> uuid option \<Rightarrow> string \<Rightarrow> json \<Rightarrow> (api_error, unit) io" where
  "insert_audit_event account_id actor_device_id event_type event_metadata =
     tx_call (command (\<lambda>_. insert_audit
       \<lparr>au_account_id = Some account_id, au_actor_device_id = actor_device_id,
        au_event_type = event_type, au_event_metadata = event_metadata\<rparr>))"

section \<open>Starting a registration\<close>

record register_start_response =
  rg_registration_id :: uuid
  rg_auth_protocol :: string
  rg_kdf_profile :: json
  rg_account_salt :: string
  rg_auth_verifier_profile :: string
  rg_auth_verifier_salt :: string
  rg_auth_verifier_iterations :: nat
  rg_expires_at :: string

definition register_start :: "string \<Rightarrow> string \<Rightarrow> (api_error, register_start_response response) io" where
  "register_start login_handle auth_protocol = handler (
     try_io (lift (ensure_supported_protocol auth_protocol)) (\<lambda>_.
     try_io database_pool (\<lambda>_.
     try_io (lift (normalize_login_handle login_handle)) (\<lambda>handle.
     try_io cleanup_expired_challenges (\<lambda>_.
     try_io (enforce_challenge_rate_limit handle ''register'') (\<lambda>_.
     try_io new_uuid (\<lambda>registration_id.
     try_io (random_bytes DEFAULT_SALT_BYTES) (\<lambda>account_salt.
     try_io (random_bytes DEFAULT_SALT_BYTES) (\<lambda>verifier_salt.
     try_io (random_bytes SERVER_NONCE_BYTES) (\<lambda>server_nonce.
     try_io now_utc_second (\<lambda>now.
     try_io ask (\<lambda>e.
     let expires_at = now + REGISTER_CHALLENGE_TTL;
         metadata = \<lparr>rm_kdf_profile = default_kdf_profile,
           rm_account_salt = encode_base64url (ext e) account_salt,
           rm_auth_verifier_profile = PROFILE_ID,
           rm_auth_verifier_salt = encode_base64url (ext e) verifier_salt,
           rm_auth_verifier_iterations = DEFAULT_ITERATIONS\<rparr> in
     try_io (insert_auth_challenge
       \<lparr>ic_id = registration_id, ic_account_id = None, ic_login_handle_normalized = handle,
        ic_challenge_type = ''register'', ic_server_nonce = server_nonce,
        ic_public_metadata = register_metadata_json metadata, ic_expires_at = expires_at\<rparr>) (\<lambda>_.
     try_io (registration_event ''start'' ''issued'') (\<lambda>_.
     try_io (format_rfc3339 expires_at) (\<lambda>expires.
     ret (no_store_json 200
       \<lparr>rg_registration_id = registration_id, rg_auth_protocol = AUTH_PROTOCOL,
        rg_kdf_profile = rm_kdf_profile metadata, rg_account_salt = rm_account_salt metadata,
        rg_auth_verifier_profile = PROFILE_ID, rg_auth_verifier_salt = rm_auth_verifier_salt metadata,
        rg_auth_verifier_iterations = DEFAULT_ITERATIONS, rg_expires_at = expires\<rparr>))))))))))))))))"

section \<open>Lemmas\<close>

lemma lower_char_ws: "p \<in> set ws_chars \<Longrightarrow> c \<in> set p \<Longrightarrow> lower_char x = c \<longleftrightarrow> x = c"
proof -
  assume p: "p \<in> set ws_chars" and c: "c \<in> set p"
  have "list_all (list_all (\<lambda>c. (of_char c :: nat) < 65 \<or> 122 < (of_char c :: nat))) ws_chars"
    by (simp add: ws_chars_def)
  with p c have plain: "(of_char c :: nat) < 65 \<or> 122 < (of_char c :: nat)"
    by (auto simp: list_all_iff)
  show "lower_char x = c \<longleftrightarrow> x = c"
  proof
    assume l: "lower_char x = c"
    then have "(of_char (lower_char x) :: nat) = of_char c" by simp
    with plain have "\<not> (65 \<le> (of_char x :: nat) \<and> (of_char x :: nat) \<le> 90)"
      by (auto simp: of_char_lower_char split: if_splits)
    then have "lower_char x = x" unfolding lower_char_def by (rule if_not_P)
    with l show "x = c" by simp
  next
    assume "x = c"
    with plain show "lower_char x = c" by (auto simp: lower_char_def)
  qed
qed

lemma map_lower_prefix:
  assumes "\<And>c. c \<in> set p \<Longrightarrow> \<forall>x. lower_char x = c \<longleftrightarrow> x = c"
  shows "(\<exists>r. map lower_char s = p @ r) \<longleftrightarrow> (\<exists>r. s = p @ r)"
  using assms
proof (induction p arbitrary: s)
  case (Cons c p)
  show ?case
  proof (cases s)
    case (Cons x s')
    with Cons.IH [of s'] Cons.prems show ?thesis by auto
  qed simp
qed simp

lemma strip_any_lower:
  assumes "\<And>p c. p \<in> set ps \<Longrightarrow> c \<in> set p \<Longrightarrow> \<forall>x. lower_char x = c \<longleftrightarrow> x = c"
  shows "strip_any ps (map lower_char s) = None \<longleftrightarrow> strip_any ps s = None"
proof -
  have "(\<exists>r. map lower_char s = p @ r) \<longleftrightarrow> (\<exists>r. s = p @ r)" if "p \<in> set ps" for p
    using that assms by (intro map_lower_prefix) blast
  then show ?thesis unfolding strip_any_None_iff by blast
qed

lemma trim_lower_trim: "trim (to_ascii_lowercase (trim s)) = to_ascii_lowercase (trim s)"
proof (rule trim_fix)
  have "strip_any ws_chars (map lower_char (trim s)) = None \<longleftrightarrow> strip_any ws_chars (trim s) = None"
    by (rule strip_any_lower) (use lower_char_ws in blast)
  then show "strip_any ws_chars (to_ascii_lowercase (trim s)) = None"
    by (simp add: to_ascii_lowercase_def no_ws_front_trim)
  have "strip_any (map rev ws_chars) (map lower_char (rev (trim s))) = None
      \<longleftrightarrow> strip_any (map rev ws_chars) (rev (trim s)) = None"
  proof (rule strip_any_lower)
    fix p c assume "p \<in> set (map rev ws_chars)" and "c \<in> set p"
    then obtain q where "q \<in> set ws_chars" and "c \<in> set q" by auto
    then show "\<forall>x. lower_char x = c \<longleftrightarrow> x = c" using lower_char_ws by blast
  qed
  then show "strip_any (map rev ws_chars) (rev (to_ascii_lowercase (trim s))) = None"
    by (simp add: to_ascii_lowercase_def rev_map no_ws_back_trim)
qed

text \<open>Login handles have one spelling: two handles that differ only in ASCII case or in
  surrounding white space name the same account, and a normalised handle is a fixed point that is
  not empty, has at most 320 bytes and holds no control character.\<close>

theorem normalize_login_handle_canonical:
  assumes "normalize_login_handle h = Inr n"
  shows "normalize_login_handle n = Inr n \<and> n = to_ascii_lowercase (trim h)
    \<and> n \<noteq> [] \<and> length n \<le> MAX_LOGIN_HANDLE_BYTES \<and> \<not> has_control n"
  using assms by (auto simp: normalize_login_handle_def Let_def trim_lower_trim split: if_splits)

theorem normalize_login_handle_canonical_witness:
  "normalize_login_handle ''ann'' = Inr ''ann'' \<and> ''ann'' = to_ascii_lowercase (trim ''Ann'')"
proof -
  have "trim ''Ann'' = ''Ann''" by (rule trim_visible) (simp add: visible_char_def)
  moreover have "to_ascii_lowercase ''Ann'' = ''ann''" by code_simp
  ultimately have "normalize_login_handle ''Ann'' = Inr ''ann''"
    by (simp add: normalize_login_handle_def MAX_LOGIN_HANDLE_BYTES_def)
  from normalize_login_handle_canonical [OF this] show ?thesis by blast
qed

text \<open>Documented behaviour of the uuid crate: parsing the text of a UUID gives it back.\<close>

definition uuid_roundtrip :: "externals \<Rightarrow> bool" where
  "uuid_roundtrip X \<longleftrightarrow> (\<forall>u. uuid_parse X (uuid_text X u) = Some u)"

lemma sample_uuid_roundtrip: "uuid_roundtrip sample"
proof -
  have "unat u < 2 ^ 128" for u :: uuid using unsigned_less [of u] by simp
  then show ?thesis by (simp add: uuid_roundtrip_def sample_def Let_def del: dec.simps)
qed

lemma json_get_field [simp]:
  "json_get (JObj ((k, v) # kvs)) k' = (if k = k' then Some v else json_get (JObj kvs) k')"
  by simp

lemma decode_register_json:
  "rm_kdf_profile m = default_kdf_profile \<Longrightarrow> rm_auth_verifier_profile m = PROFILE_ID \<Longrightarrow>
   rm_auth_verifier_iterations m = DEFAULT_ITERATIONS \<Longrightarrow>
     decode_register_challenge_metadata (register_metadata_json m) = Inr m"
  by (simp add: decode_register_challenge_metadata_def register_metadata_json_def field_def
      DEFAULT_ITERATIONS_def)

lemma decode_login_json:
  "lm_auth_verifier_profile m = PROFILE_ID \<Longrightarrow> lm_auth_verifier_iterations m = DEFAULT_ITERATIONS \<Longrightarrow>
     decode_login_challenge_metadata (login_metadata_json m) = Inr m"
  by (simp add: decode_login_challenge_metadata_def login_metadata_json_def field_def
      DEFAULT_ITERATIONS_def)

lemma decode_pre_mfa_json:
  "uuid_roundtrip X \<Longrightarrow> decode_pre_mfa_challenge_metadata X (pre_mfa_metadata_json X m) = Inr m"
  by (simp add: decode_pre_mfa_challenge_metadata_def pre_mfa_metadata_json_def field_def
      uuid_roundtrip_def)

text \<open>What a challenge stores is what the next request reads: the metadata that the start of a
  registration, the start of a login and the first factor of a login write as JSON decode to the
  same metadata, so the salts, nonces and the device bound to a challenge survive between requests.\<close>

theorem challenge_metadata_roundtrip:
  assumes "uuid_roundtrip X"
    and "rm_kdf_profile r = default_kdf_profile" and "rm_auth_verifier_profile r = PROFILE_ID"
    and "rm_auth_verifier_iterations r = DEFAULT_ITERATIONS"
    and "lm_auth_verifier_profile l = PROFILE_ID" and "lm_auth_verifier_iterations l = DEFAULT_ITERATIONS"
  shows "decode_register_challenge_metadata (register_metadata_json r) = Inr r
    \<and> decode_login_challenge_metadata (login_metadata_json l) = Inr l
    \<and> decode_pre_mfa_challenge_metadata X (pre_mfa_metadata_json X m) = Inr m"
  using assms by (simp add: decode_register_json decode_login_json decode_pre_mfa_json)

theorem challenge_metadata_roundtrip_witness:
  "decode_pre_mfa_challenge_metadata sample (pre_mfa_metadata_json sample
     \<lparr>pm_login_challenge_id = 7, pm_device = \<lparr>dq_label = ''phone'', dq_client_type = ''ios'',
        dq_public_metadata = JObj []\<rparr>\<rparr>)
   = Inr \<lparr>pm_login_challenge_id = 7, pm_device = \<lparr>dq_label = ''phone'', dq_client_type = ''ios'',
        dq_public_metadata = JObj []\<rparr>\<rparr>"
  using challenge_metadata_roundtrip [OF sample_uuid_roundtrip,
    of "\<lparr>rm_kdf_profile = default_kdf_profile, rm_account_salt = [], rm_auth_verifier_profile = PROFILE_ID,
          rm_auth_verifier_salt = [], rm_auth_verifier_iterations = DEFAULT_ITERATIONS\<rparr>"
       "\<lparr>lm_client_nonce = [], lm_server_nonce = [], lm_combined_nonce = [],
          lm_auth_verifier_profile = PROFILE_ID, lm_auth_verifier_iterations = DEFAULT_ITERATIONS,
          lm_synthetic = False\<rparr>"] by simp

section \<open>The rate limit\<close>

definition recent_challenges :: "string \<Rightarrow> string \<Rightarrow> time \<Rightarrow> db \<Rightarrow> nat" where
  "recent_challenges handle challenge_type since d =
     count_where (\<lambda>c. ch_login_handle_normalized c = handle \<and> ch_challenge_type c = challenge_type
       \<and> since \<le> ch_created_at c) (auth_challenges d)"

lemma recent_insert:
  "insert_challenge r d = Inr d' \<Longrightarrow>
     recent_challenges handle type since d' \<le> recent_challenges handle type since d + 1"
  by (auto simp: insert_challenge_def recent_challenges_def count_where_def)

lemma wp_rate_limit:
  assumes "\<And>w'. w_db w' = w_db w \<Longrightarrow> w_txn w' = w_txn w \<Longrightarrow> w_tick w' = w_tick w + 2 \<Longrightarrow>
       recent_challenges handle type
         (clock e (w_tick w) div 1000000 * 1000000 - AUTH_CHALLENGE_RATE_LIMIT_WINDOW) (w_db w)
       < AUTH_CHALLENGE_RATE_LIMIT \<Longrightarrow> Q () w'"
    and "\<And>x w'. w_db w' = w_db w \<Longrightarrow> w_txn w' = w_txn w \<Longrightarrow> R x w'"
  shows "wp e (enforce_challenge_rate_limit handle type) Q R w"
  using assms
  by (simp add: enforce_challenge_rate_limit_def wp_eqs Let_def query_def rate_limited_request_def
      recent_challenges_def)



section \<open>Steps of the challenge code\<close>

locale challenge_steps =
  fixes S :: "db \<Rightarrow> db \<Rightarrow> bool"
  assumes expire_step: "S d (drop_expired_challenges t d)"
    and challenge_step: "insert_challenge (challenge_of input t) d = Inr d' \<Longrightarrow> S d d'"
    and consume_step: "S d (set_consumed i now d)"
    and attempt_step: "count_attempt i now d = Inr d' \<Longrightarrow> S d d'"
    and audit_step: "insert_audit a d = Inr d' \<Longrightarrow> S d d'"
begin

lemma moves_cleanup: "moves S e cleanup_expired_challenges"
  unfolding cleanup_expired_challenges_def
  by (intro moves_unavailable moves_command) (auto intro: expire_step)

lemma moves_rate_limit: "moves S e (enforce_challenge_rate_limit h t)"
  unfolding enforce_challenge_rate_limit_def Let_def by (intro moves_intros moves_telemetry)

lemma moves_insert_challenge: "moves S e (insert_auth_challenge i)"
  unfolding insert_auth_challenge_def insert_challenge_stmt_def
  by (intro moves_unavailable moves_command) (rule challenge_step)

lemma goes_insert_challenge: "goes S e (insert_auth_challenge_tx i)"
  unfolding insert_auth_challenge_tx_def insert_challenge_stmt_def
  by (intro goes_unavailable goes_tx_command) (rule challenge_step)

lemma goes_consume: "goes S e (consume_auth_challenge i now)"
  unfolding consume_auth_challenge_def
  by (intro goes_unavailable goes_tx_command) (auto intro: consume_step)

lemma goes_increment: "goes S e (increment_challenge_attempts i now)"
  unfolding increment_challenge_attempts_def
  by (intro goes_unavailable goes_tx_command) (rule attempt_step)

lemma goes_audit: "goes S e (insert_audit_event a v t m)"
  unfolding insert_audit_event_def by (intro goes_unavailable goes_tx_command) (rule audit_step)

lemma goes_load_pre_mfa: "goes S e (load_pre_mfa_challenge i now)"
  unfolding load_pre_mfa_challenge_def by (intro goes_intros)

lemmas moves_challenge = moves_intros moves_telemetry moves_cleanup moves_rate_limit moves_insert_challenge

lemma moves_register_start: "moves S e (register_start h p)"
  unfolding register_start_def Let_def by (intro moves_challenge)

end

end
