(* ===== verification/PV_Register.thy ===== *)
theory PV_Register
  imports PV_Challenge
begin

text \<open>
  \<open>register_finish\<close> in \<^verbatim>\<open>crates/api/src/auth/routes.rs\<close>: the transaction that turns a
  registration challenge into an account with its keyset, first device, empty vault, wrapped vault
  key and enrolment session. Each SQL statement is a definition of its own.
\<close>

section \<open>Constants\<close>

definition ACCOUNT_KEYSET_CRYPTO_VERSION :: string where
  "ACCOUNT_KEYSET_CRYPTO_VERSION = ''account-keyset-v1''"

definition VAULT_KEY_WRAP_CRYPTO_VERSION :: string where
  "VAULT_KEY_WRAP_CRYPTO_VERSION = ''vault-key-wrap-v1''"

definition VAULT_CRYPTO_PROFILE_ID :: string where
  "VAULT_CRYPTO_PROFILE_ID = ''vault-crypto-v1''"

section \<open>Request and response\<close>

record initial_vault_request =
  iv_vault_id :: uuid
  iv_encrypted_vault_key :: encrypted_envelope_request

record register_finish_request =
  rq_registration_id :: uuid
  rq_auth_protocol :: string
  rq_auth_stored_key :: string
  rq_auth_server_key :: string
  rq_encrypted_account_keyset :: encrypted_envelope_request
  rq_initial_vault :: initial_vault_request
  rq_device :: device_request

record session_response =
  sr_state :: string
  sr_vault_access :: bool
  sr_idle_expires_at :: string
  sr_absolute_expires_at :: string

record register_finish_response =
  rf_account_id :: uuid
  rf_session :: session_response
  rf_next_step :: string

section \<open>Rows and statements\<close>

definition genesis_head_hash :: "externals \<Rightarrow> uuid \<Rightarrow> bytes" where
  "genesis_head_hash X vault_id =
     sha256 X (as_bytes ''password-vault/vault-genesis/v1'' @ [0] @ uuid_bytes X vault_id)"

definition register_challenge :: "uuid \<Rightarrow> time \<Rightarrow> db \<Rightarrow> challenge_row option" where
  "register_challenge registration_id now d =
     find (open_challenge ''register'' registration_id now) (auth_challenges d)"

definition new_account ::
  "uuid \<Rightarrow> string \<Rightarrow> register_metadata \<Rightarrow> bytes \<Rightarrow> bytes \<Rightarrow> bytes \<Rightarrow> bytes \<Rightarrow> time \<Rightarrow> db \<Rightarrow> sql_error + db" where
  "new_account account_id handle metadata account_salt verifier_salt stored_key server_key t =
     insert_account
       \<lparr>acc_id = account_id, acc_login_handle_normalized = handle, acc_auth_protocol = AUTH_PROTOCOL,
        acc_kdf_profile = rm_kdf_profile metadata, acc_account_salt = account_salt,
        acc_auth_verifier_profile = PROFILE_ID, acc_auth_verifier_salt = verifier_salt,
        acc_auth_verifier_iterations = int (rm_auth_verifier_iterations metadata),
        acc_auth_stored_key = stored_key, acc_auth_server_key = server_key, acc_created_at = t\<rparr>"

definition new_keyset :: "uuid \<Rightarrow> uuid \<Rightarrow> validated_envelope \<Rightarrow> db \<Rightarrow> sql_error + db" where
  "new_keyset keyset_id account_id keyset =
     insert_keyset
       \<lparr>ks_id = keyset_id, ks_account_id = account_id, ks_crypto_version = ve_crypto_version keyset,
        ks_key_id = ve_key_id keyset, ks_nonce = ve_nonce keyset, ks_ciphertext = ve_ciphertext keyset\<rparr>"

definition new_device :: "uuid \<Rightarrow> uuid \<Rightarrow> validated_device \<Rightarrow> time option \<Rightarrow> db \<Rightarrow> sql_error + db" where
  "new_device device_id account_id device last_seen_at =
     insert_device
       \<lparr>dev_id = device_id, dev_account_id = account_id, dev_display_name = vd_label device,
        dev_client_type = vd_client_type device, dev_public_metadata = vd_public_metadata device,
        dev_last_seen_at = last_seen_at, dev_revoked_at = None\<rparr>"

definition new_vault :: "uuid \<Rightarrow> uuid \<Rightarrow> bytes \<Rightarrow> time \<Rightarrow> db \<Rightarrow> sql_error + db" where
  "new_vault vault_id account_id genesis t =
     insert_vault
       \<lparr>va_id = vault_id, va_account_id = account_id, va_crypto_profile_id = VAULT_CRYPTO_PROFILE_ID,
        va_head_seq = 0, va_genesis_head_hash = genesis, va_head_hash = genesis,
        va_created_at = t, va_updated_at = t\<rparr>"

definition new_key_wrap :: "uuid \<Rightarrow> uuid \<Rightarrow> uuid \<Rightarrow> validated_envelope \<Rightarrow> db \<Rightarrow> sql_error + db" where
  "new_key_wrap wrap_id vault_id account_id key =
     insert_key_wrap
       \<lparr>kw_id = wrap_id, kw_vault_id = vault_id, kw_account_id = account_id, kw_key_id = ve_key_id key,
        kw_crypto_version = ve_crypto_version key, kw_nonce = ve_nonce key,
        kw_ciphertext = ve_ciphertext key\<rparr>"

definition new_session ::
  "uuid \<Rightarrow> uuid \<Rightarrow> uuid \<Rightarrow> bytes \<Rightarrow> string \<Rightarrow> time \<Rightarrow> time \<Rightarrow> time option \<Rightarrow> db \<Rightarrow> sql_error + db" where
  "new_session session_id account_id device_id token_hash state idle absolute last_seen_at =
     insert_session
       \<lparr>se_id = session_id, se_account_id = account_id, se_device_id = Some device_id,
        se_session_token_hash = token_hash, se_csrf_token_hash = None, se_session_state = state,
        se_last_seen_at = last_seen_at, se_expires_at = idle, se_idle_expires_at = idle,
        se_absolute_expires_at = absolute, se_revoked_at = None\<rparr>"

definition registered_event :: json where
  "registered_event = JObj
     [(''auth_protocol'', JStr AUTH_PROTOCOL), (''session_state'', JStr ''mfa_enrollment_required'')]"

definition unavailable_if_taken :: "(sql_error, 'a) io \<Rightarrow> (api_error, 'a) io" where
  "unavailable_if_taken m =
     map_err_io (\<lambda>x. if is_unique_violation x then RegistrationUnavailable else ServiceUnavailable) m"

section \<open>The handler\<close>

text \<open>The statements between \<open>begin\<close> and \<open>commit\<close>.\<close>

definition register_tx ::
  "register_finish_request \<Rightarrow> bytes \<Rightarrow> bytes \<Rightarrow> validated_envelope \<Rightarrow> validated_envelope \<Rightarrow> validated_device
   \<Rightarrow> time \<Rightarrow> uuid \<Rightarrow> uuid \<Rightarrow> uuid \<Rightarrow> uuid \<Rightarrow> uuid \<Rightarrow> bytes \<Rightarrow> (api_error, unit) io" where
  "register_tx request stored_key server_key keyset vault_key device now
     account_id keyset_id wrap_id device_id session_id token_hash =
     try_io ask (\<lambda>e.
     try_io (tx_call (query (register_challenge (rq_registration_id request) now))) (\<lambda>challenge.
     try_io (lift (ok_or RegistrationUnavailable challenge)) (\<lambda>challenge.
     try_io (lift (decode_register_challenge_metadata (ch_public_metadata challenge))) (\<lambda>metadata.
     try_io (lift (map_err (\<lambda>_. ServiceUnavailable)
       (decode_base64url_array (ext e) DEFAULT_SALT_BYTES (rm_account_salt metadata)))) (\<lambda>account_salt.
     try_io (lift (map_err (\<lambda>_. ServiceUnavailable)
       (decode_base64url_array (ext e) DEFAULT_SALT_BYTES (rm_auth_verifier_salt metadata)))) (\<lambda>verifier_salt.
     try_io (unavailable_if_taken (run_tx (command
       (new_account account_id (ch_login_handle_normalized challenge) metadata account_salt verifier_salt
          stored_key server_key)))) (\<lambda>_.
     try_io (tx_call (command (\<lambda>_. new_keyset keyset_id account_id keyset))) (\<lambda>_.
     try_io (tx_call (command (\<lambda>_. new_device device_id account_id device None))) (\<lambda>_.
     try_io (unavailable_if_taken (run_tx (command
       (new_vault (iv_vault_id (rq_initial_vault request)) account_id
          (genesis_head_hash (ext e) (iv_vault_id (rq_initial_vault request))))))) (\<lambda>_.
     try_io (tx_call (command (\<lambda>_. new_key_wrap wrap_id (iv_vault_id (rq_initial_vault request))
       account_id vault_key))) (\<lambda>_.
     try_io (tx_call (command (\<lambda>_. new_session session_id account_id device_id token_hash
       ''mfa_enrollment_required'' (now + SESSION_IDLE_TTL) (now + SESSION_ABSOLUTE_TTL) None))) (\<lambda>_.
     try_io (insert_audit_event account_id (Some device_id) ''account_registered'' registered_event) (\<lambda>_.
     consume_auth_challenge (rq_registration_id request) now)))))))))))))"

definition register_finish ::
  "register_finish_request \<Rightarrow> (api_error, register_finish_response response) io" where
  "register_finish request = handler (
     try_io (lift (ensure_supported_protocol (rq_auth_protocol request))) (\<lambda>_.
     try_io database_pool (\<lambda>_.
     try_io ask (\<lambda>e.
     try_io (lift (map_err (\<lambda>_. BadRequest)
       (decode_base64url_array (ext e) AUTH_KEY_BYTES (rq_auth_stored_key request)))) (\<lambda>stored_key.
     try_io (lift (map_err (\<lambda>_. BadRequest)
       (decode_base64url_array (ext e) AUTH_KEY_BYTES (rq_auth_server_key request)))) (\<lambda>server_key.
     if stored_key = server_key then throw BadRequest
     else
     try_io (lift (envelope_from_request (ext e) (rq_encrypted_account_keyset request)
       ACCOUNT_KEYSET_CRYPTO_VERSION)) (\<lambda>keyset.
     try_io (lift (envelope_from_request (ext e) (iv_encrypted_vault_key (rq_initial_vault request))
       VAULT_KEY_WRAP_CRYPTO_VERSION)) (\<lambda>vault_key.
     if ve_key_id keyset \<noteq> ve_key_id vault_key then throw BadRequest
     else
     try_io (lift (device_from_request (ext e) (rq_device request))) (\<lambda>device.
     try_io now_utc_second (\<lambda>now.
     try_io new_uuid (\<lambda>account_id.
     try_io new_uuid (\<lambda>keyset_id.
     try_io new_uuid (\<lambda>wrap_id.
     try_io new_uuid (\<lambda>device_id.
     try_io new_uuid (\<lambda>session_id.
     try_io random_token (\<lambda>session_token.
     try_io (unavailable begin_tx) (\<lambda>_.
     try_io (register_tx request stored_key server_key keyset vault_key device now
       account_id keyset_id wrap_id device_id session_id (sha256_verifier (ext e) session_token)) (\<lambda>_.
     try_io (unavailable commit_tx) (\<lambda>_.
     try_io (registration_event ''finish'' ''success'') (\<lambda>_.
     try_io (account_created ''success'') (\<lambda>_.
     try_io (session_event ''created'' ''mfa_enrollment_required'') (\<lambda>_.
     try_io (format_rfc3339 (now + SESSION_IDLE_TTL)) (\<lambda>idle.
     try_io (format_rfc3339 (now + SESSION_ABSOLUTE_TTL)) (\<lambda>absolute.
     try_io (header_value (session_cookie (ext e) session_token)) (\<lambda>cookie.
     ret ((no_store_json 201
       \<lparr>rf_account_id = account_id, rf_session =
          \<lparr>sr_state = ''mfa_enrollment_required'', sr_vault_access = False,
           sr_idle_expires_at = idle, sr_absolute_expires_at = absolute\<rparr>,
        rf_next_step = ''enroll_totp''\<rparr>)\<lparr>rs_set_cookie := Some cookie\<rparr>))))))))))))))))))))))))))"

text \<open>\<open>create_session_with_device\<close>: a device and a session of a given state.\<close>

definition create_session_with_device ::
  "uuid \<Rightarrow> validated_device \<Rightarrow> string \<Rightarrow> time \<Rightarrow> (api_error, uuid \<times> bytes \<times> time \<times> time) io" where
  "create_session_with_device account_id device session_state now =
     try_io new_uuid (\<lambda>device_id.
     try_io new_uuid (\<lambda>session_id.
     try_io random_token (\<lambda>session_token.
     try_io ask (\<lambda>e.
     let token_hash = sha256_verifier (ext e) session_token;
         idle = now + SESSION_IDLE_TTL; absolute = now + SESSION_ABSOLUTE_TTL in
     try_io (tx_call (command (\<lambda>_. new_device device_id account_id device (Some now)))) (\<lambda>_.
     try_io (tx_call (command (\<lambda>_. new_session session_id account_id device_id token_hash
       session_state idle absolute (Some now)))) (\<lambda>_.
     ret (device_id, session_token, idle, absolute)))))))"

section \<open>What a registration does\<close>

text \<open>The specification: a consumed challenge, and one new row in each of the seven tables, all of
  the same new account, whose vault is empty.\<close>

definition registers :: "externals \<Rightarrow> uuid \<Rightarrow> uuid \<Rightarrow> db \<Rightarrow> db \<Rightarrow> bool" where
  "registers X registration_id vault_id d d' \<longleftrightarrow>
     (\<exists>c a k dv v kw s au now.
        find (open_challenge ''register'' registration_id now) (auth_challenges d) = Some c
        \<and> d' = d\<lparr>accounts := accounts d @ [a], account_keysets := account_keysets d @ [k],
             devices := devices d @ [dv], vaults := vaults d @ [v],
             vault_key_wraps := vault_key_wraps d @ [kw], sessions := sessions d @ [s],
             audit_events := audit_events d @ [au],
             auth_challenges := auth_challenges (set_consumed registration_id now d)\<rparr>
        \<and> acc_login_handle_normalized a = ch_login_handle_normalized c
        \<and> acc_login_handle_normalized a \<notin> acc_login_handle_normalized ` set (accounts d)
        \<and> acc_id a \<notin> acc_id ` set (accounts d)
        \<and> ks_account_id k = acc_id a \<and> dev_account_id dv = acc_id a
        \<and> va_id v = vault_id \<and> va_id v \<notin> va_id ` set (vaults d) \<and> va_account_id v = acc_id a
        \<and> va_head_seq v = 0 \<and> va_head_hash v = genesis_head_hash X vault_id
        \<and> va_genesis_head_hash v = genesis_head_hash X vault_id
        \<and> kw_account_id kw = acc_id a \<and> kw_vault_id kw = vault_id \<and> kw_key_id kw = ks_key_id k
        \<and> se_account_id s = acc_id a \<and> se_device_id s = Some (dev_id dv)
        \<and> se_session_state s = ''mfa_enrollment_required'' \<and> se_revoked_at s = None
        \<and> se_session_token_hash s \<notin> se_session_token_hash ` set (sessions d)
        \<and> au_account_id au = Some (acc_id a))"

lemmas register_rows =
  account_checks_def
  new_account_def new_keyset_def new_device_def new_vault_def new_key_wrap_def new_session_def
  insert_account_def insert_keyset_def insert_device_def insert_vault_def insert_key_wrap_def
  insert_session_def insert_audit_def

lemma registers_intro:
  assumes "find (open_challenge ''register'' registration_id now) (auth_challenges d) = Some c"
    and "new_account i (ch_login_handle_normalized c) m s1 s2 k1 k2 t d = Inr d1"
    and "new_keyset j i keyset d1 = Inr d2" and "new_device l i device None d2 = Inr d3"
    and "new_vault vault_id i (genesis_head_hash X vault_id) t d3 = Inr d4"
    and "new_key_wrap n vault_id i key d4 = Inr d5"
    and "new_session p i l h ''mfa_enrollment_required'' idle absolute None d5 = Inr d6"
    and "insert_audit au d6 = Inr d7"
    and "ve_key_id keyset = ve_key_id key" and "au_account_id au = Some i"
  shows "registers X registration_id vault_id d (set_consumed registration_id now d7)"
proof -
  from assms(2) obtain a where a: "d1 = d\<lparr>accounts := accounts d @ [a]\<rparr>" "acc_id a = i"
      "acc_login_handle_normalized a = ch_login_handle_normalized c"
      "acc_login_handle_normalized a \<notin> acc_login_handle_normalized ` set (accounts d)"
      "acc_id a \<notin> acc_id ` set (accounts d)"
    by (auto simp: register_rows)
  from assms(3) obtain k where k: "d2 = d1\<lparr>account_keysets := account_keysets d1 @ [k]\<rparr>"
      "ks_account_id k = i" "ks_key_id k = ve_key_id keyset"
    by (auto simp: register_rows)
  from assms(4) obtain dv where dv: "d3 = d2\<lparr>devices := devices d2 @ [dv]\<rparr>"
      "dev_account_id dv = i" "dev_id dv = l"
    by (auto simp: register_rows)
  from assms(5) obtain v where v: "d4 = d3\<lparr>vaults := vaults d3 @ [v]\<rparr>" "va_id v = vault_id"
      "va_id v \<notin> va_id ` set (vaults d3)" "va_account_id v = i" "va_head_seq v = 0"
      "va_head_hash v = genesis_head_hash X vault_id"
      "va_genesis_head_hash v = genesis_head_hash X vault_id"
    by (auto simp: register_rows)
  from assms(6) obtain kw where kw: "d5 = d4\<lparr>vault_key_wraps := vault_key_wraps d4 @ [kw]\<rparr>"
      "kw_account_id kw = i" "kw_vault_id kw = vault_id" "kw_key_id kw = ve_key_id key"
    by (auto simp: register_rows)
  from assms(7) obtain s where s: "d6 = d5\<lparr>sessions := sessions d5 @ [s]\<rparr>" "se_account_id s = i"
      "se_device_id s = Some l" "se_session_state s = ''mfa_enrollment_required''" "se_revoked_at s = None"
      "se_session_token_hash s \<notin> se_session_token_hash ` set (sessions d5)"
    by (auto simp: register_rows)
  from assms(8) have au: "d7 = d6\<lparr>audit_events := audit_events d6 @ [au]\<rparr>"
    by (simp add: register_rows)
  show ?thesis
    unfolding registers_def
    by (rule exI [of _ c], rule exI [of _ a], rule exI [of _ k], rule exI [of _ dv], rule exI [of _ v],
        rule exI [of _ kw], rule exI [of _ s], rule exI [of _ au], rule exI [of _ now])
      (use a k dv v kw s au assms(1,9,10) in \<open>simp add: set_consumed_def\<close>)
qed

lemma wp_register_tx:
  assumes "ve_key_id keyset = ve_key_id vault_key" and "w_txn w = Some (d, t)"
  shows "wp e (register_tx request stored_key server_key keyset vault_key device now
       account_id keyset_id wrap_id device_id session_id token_hash)
      (\<lambda>_ w'. w_db w' = w_db w \<and> (\<exists>d'. w_txn w' = Some (d', t)
          \<and> registers (ext e) (rq_registration_id request) (iv_vault_id (rq_initial_vault request)) d d'))
      (\<lambda>_ w'. w_db w' = w_db w) w"
  unfolding register_tx_def insert_audit_event_def consume_auth_challenge_def unavailable_if_taken_def
    register_challenge_def
  by (intro vc_rules) (use assms in \<open>auto simp: same_state_def intro: registers_intro\<close>)

lemma wp_register_finish:
  assumes "w_txn w = None"
  shows "wp e (register_finish request)
      (\<lambda>_ w'. registers (ext e) (rq_registration_id request) (iv_vault_id (rq_initial_vault request)) (w_db w) (w_db w'))
      (\<lambda>_ w'. w_db w' = w_db w
        \<or> registers (ext e) (rq_registration_id request) (iv_vault_id (rq_initial_vault request)) (w_db w) (w_db w')) w"
proof -
  note body = wp_mono [OF wp_register_tx]
  show ?thesis
    unfolding register_finish_def telemetry_defs counter_def random_token_def
    by (intro vc_rules body) (use assms in \<open>auto simp: same_state_def\<close>)
qed

text \<open>C31. Registration is all or nothing, whatever the database does: if \<open>register_finish\<close> succeeds,
  exactly the registration has happened (an open challenge for that handle was consumed, the
  handle and the vault identifier were free, and the account, keyset, device, empty vault, wrapped
  key, enrolment session and audit event were added and nothing else changed); if it fails, either
  nothing changed or the whole registration was committed and only its reply was lost.\<close>

theorem register_finish_atomic:
  assumes "register_finish request e w = (r, w')" and "w_txn w = None"
  shows "case r of
      Inr resp \<Rightarrow> registers (ext e) (rq_registration_id request)
        (iv_vault_id (rq_initial_vault request)) (w_db w) (w_db w')
    | Inl x \<Rightarrow> w_db w' = w_db w \<or> registers (ext e) (rq_registration_id request)
        (iv_vault_id (rq_initial_vault request)) (w_db w) (w_db w')"
  using wp_result [OF assms(1) wp_register_finish [OF assms(2)]] by (cases r) simp_all

definition sample_envelope :: "string \<Rightarrow> encrypted_envelope_request" where
  "sample_envelope version =
     \<lparr>eq_crypto_version = version, eq_key_id = ''k'', eq_nonce = hex_encode (replicate 12 0),
      eq_ciphertext = hex_encode [1]\<rparr>"

definition sample_registration :: register_finish_request where
  "sample_registration =
     \<lparr>rq_registration_id = 99, rq_auth_protocol = AUTH_PROTOCOL,
      rq_auth_stored_key = hex_encode (replicate 32 1), rq_auth_server_key = hex_encode (replicate 32 2),
      rq_encrypted_account_keyset = sample_envelope ACCOUNT_KEYSET_CRYPTO_VERSION,
      rq_initial_vault = \<lparr>iv_vault_id = 77,
        iv_encrypted_vault_key = sample_envelope VAULT_KEY_WRAP_CRYPTO_VERSION\<rparr>,
      rq_device = \<lparr>dq_label = ''d'', dq_client_type = ''cli'', dq_public_metadata = JObj []\<rparr>\<rparr>"

definition sample_challenge :: challenge_row where
  "sample_challenge = challenge_of
     \<lparr>ic_id = 99, ic_account_id = None, ic_login_handle_normalized = ''ann'',
      ic_challenge_type = ''register'', ic_server_nonce = replicate 32 0,
      ic_public_metadata = register_metadata_json
        \<lparr>rm_kdf_profile = default_kdf_profile, rm_account_salt = hex_encode (replicate 32 3),
         rm_auth_verifier_profile = PROFILE_ID, rm_auth_verifier_salt = hex_encode (replicate 32 4),
         rm_auth_verifier_iterations = DEFAULT_ITERATIONS\<rparr>,
      ic_expires_at = seconds 1500\<rparr> (seconds 900)"

lemma sample_decode: "decode_base64url_array sample n (hex_encode b)
    = (if length b = n then Inr b else Inl (InvalidLength n (length b)))"
  using decode_encode [OF sample_base64url, of n b] by (simp add: encode_base64url_def sample_def)

lemma sample_decode_any: "decode_base64url sample (hex_encode b) = Inr b"
  by (simp add: decode_base64url_def sample_def hex_roundtrip)

lemma sample_envelope_valid:
  "envelope_from_request sample (sample_envelope v) v
     = Inr \<lparr>ve_crypto_version = v, ve_key_id = ''k'', ve_nonce = replicate 12 0, ve_ciphertext = [1]\<rparr>"
proof -
  have "trim ''k'' = ''k''" by (rule trim_visible) (simp add: visible_char_def)
  then show ?thesis
    using sample_decode [of 12 "replicate 12 0"] sample_decode_any [of "[1]"]
    by (simp add: envelope_from_request_def sample_envelope_def validate_short_text_def
        AEAD_NONCE_BYTES_def MAX_ENCRYPTED_ENVELOPE_BYTES_def del: hex_encode.simps)
qed

lemma sample_device_valid:
  "device_from_request sample \<lparr>dq_label = ''d'', dq_client_type = ''cli'', dq_public_metadata = JObj []\<rparr>
     = Inr \<lparr>vd_label = ''d'', vd_client_type = ''cli'', vd_public_metadata = JObj []\<rparr>"
proof -
  have "trim ''d'' = ''d''" by (rule trim_visible) (simp add: visible_char_def)
  then show ?thesis
    by (simp add: device_from_request_def device_from_parts_def validate_short_text_def
        MAX_DEVICE_LABEL_BYTES_def MAX_DEVICE_PUBLIC_METADATA_BYTES_def sample_def)
qed

lemma sample_rfc3339: "0 \<le> t \<Longrightarrow> rfc3339 sample t = Some (dec (nat t))"
  by (simp add: sample_def)

lemma sample_header: "header_value_ok sample s"
  by (simp add: sample_def)

lemma kdf_profile: "default_kdf_profile = pbkdf2_browser_profile"
  by (simp add: default_kdf_profile_def pbkdf2_browser_profile_def PBKDF2_BROWSER_PROFILE_ID_def
      PBKDF2_BROWSER_ITERATIONS_def)

theorem register_finish_atomic_witness:
  "\<exists>resp w'. register_finish sample_registration sample_env
       (world_of (empty_db\<lparr>auth_challenges := [sample_challenge]\<rparr>)) = (Inr resp, w')
     \<and> registers sample 99 77 (empty_db\<lparr>auth_challenges := [sample_challenge]\<rparr>) (w_db w')"
proof -
  let ?w = "world_of (empty_db\<lparr>auth_challenges := [sample_challenge]\<rparr>)"
  note decoded = decode_register_json [of "\<lparr>rm_kdf_profile = default_kdf_profile,
      rm_account_salt = hex_encode (replicate 32 3), rm_auth_verifier_profile = PROFILE_ID,
      rm_auth_verifier_salt = hex_encode (replicate 32 4), rm_auth_verifier_iterations = DEFAULT_ITERATIONS\<rparr>",
    unfolded kdf_profile PROFILE_ID_def DEFAULT_ITERATIONS_def, simplified]
  have "wp sample_env (register_finish sample_registration) (\<lambda>_ _. True) (\<lambda>_ _. False) ?w"
    by (simp add: register_finish_def wp_eqs sample_registration_def ensure_supported_protocol_def
        sample_decode AUTH_KEY_BYTES_def sample_envelope_valid sample_device_valid random_token_def
        register_tx_def query_def command_def register_challenge_def sample_challenge_def
        challenge_of_def open_challenge_def seconds_def decoded DEFAULT_SALT_BYTES_def
        unavailable_if_taken_def register_rows empty_db_def Let_def sample_rfc3339
        telemetry_defs kdf_profile constrained_def nonblank_def AUTH_PROTOCOL_def DEFAULT_ITERATIONS_def
        PROFILE_ID_def ACCOUNT_KEYSET_CRYPTO_VERSION_def VAULT_KEY_WRAP_CRYPTO_VERSION_def
        VAULT_CRYPTO_PROFILE_ID_def account_exists_def opt_all_def device_of_def session_checks_def
        genesis_head_hash_def sha256_verifier_def sample_sha256_length insert_audit_event_def
        consume_auth_challenge_def SESSION_IDLE_TTL_def SESSION_ABSOLUTE_TTL_def minutes_def hours_def
        sample_header del: hex_encode.simps)
  then obtain resp w' where run: "register_finish sample_registration sample_env ?w = (Inr resp, w')"
    by (auto elim: run_of_wp)
  from register_finish_atomic [OF run] run show ?thesis by (auto simp: sample_registration_def)
qed

section \<open>New sessions\<close>

text \<open>What the two operations that later handlers share do to the working copy.\<close>

definition session_added :: "uuid \<Rightarrow> string \<Rightarrow> db \<Rightarrow> db \<Rightarrow> bool" where
  "session_added a state d d' \<longleftrightarrow>
     (\<exists>s. sessions d' = sessions d @ [s] \<and> se_account_id s = a \<and> se_session_state s = state)"

lemma new_device_effect:
  "new_device i a dv seen d = Inr d' \<Longrightarrow> \<exists>r. d' = d\<lparr>devices := devices d @ [r]\<rparr>"
  unfolding new_device_def insert_device_def constrained_Inr_iff by blast

lemma new_session_effect:
  assumes "new_session i a b k state idle absolute seen d = Inr d'"
  shows "\<exists>s. d' = d\<lparr>sessions := sessions d @ [s]\<rparr> \<and> se_account_id s = a \<and> se_session_state s = state"
proof -
  from assms have "d' = d\<lparr>sessions := sessions d @ [\<lparr>se_id = i, se_account_id = a, se_device_id = Some b,
      se_session_token_hash = k, se_csrf_token_hash = None, se_session_state = state,
      se_last_seen_at = seen, se_expires_at = idle, se_idle_expires_at = idle,
      se_absolute_expires_at = absolute, se_revoked_at = None\<rparr>]\<rparr>"
    unfolding new_session_def insert_session_def constrained_Inr_iff by blast
  then show ?thesis by (metis session_row.select_convs(2,6))
qed

lemma wp_create_session:
  assumes "\<And>d t d' i token w'. w_txn w = Some (d, t) \<Longrightarrow> w_db w' = w_db w \<Longrightarrow> w_txn w' = Some (d', t) \<Longrightarrow>
      session_added a state d d' \<Longrightarrow> accounts d' = accounts d \<Longrightarrow> auth_challenges d' = auth_challenges d \<Longrightarrow>
      totp_factors d' = totp_factors d \<Longrightarrow> recovery_codes d' = recovery_codes d \<Longrightarrow>
      Q (i, token, now + SESSION_IDLE_TTL, now + SESSION_ABSOLUTE_TTL) w'"
    and "\<And>x w'. w_db w' = w_db w \<Longrightarrow> R x w'"
  shows "wp e (create_session_with_device a dv state now) Q R w"
  unfolding create_session_with_device_def random_token_def Let_def
  apply (intro vc_rules)
  apply (simp_all add: same_state_def assms(2))
  apply (elim conjE, rule assms(1), erule sym, assumption, assumption)
  apply (auto simp: session_added_def dest!: new_device_effect new_session_effect)
  done

lemma wp_audit_event:
  assumes "\<And>d t au w'. w_txn w = Some (d, t) \<Longrightarrow> w_db w' = w_db w \<Longrightarrow>
      w_txn w' = Some (d\<lparr>audit_events := audit_events d @ [au]\<rparr>, t) \<Longrightarrow> Q () w'"
    and "\<And>x w'. w_db w' = w_db w \<Longrightarrow> R x w'"
  shows "wp e (insert_audit_event a v ty m) Q R w"
  unfolding insert_audit_event_def
  by (intro vc_rules) (use assms in \<open>auto simp: insert_audit_def\<close>)

section \<open>Steps of the registration code\<close>

locale register_steps = challenge_steps +
  assumes account_step: "new_account i h m s1 s2 k1 k2 t d = Inr d' \<Longrightarrow> S d d'"
    and keyset_step: "new_keyset i a keyset d = Inr d' \<Longrightarrow> S d d'"
    and device_step: "new_device i a device seen d = Inr d' \<Longrightarrow> S d d'"
    and vault_step: "new_vault i a (genesis_head_hash X i) t d = Inr d' \<Longrightarrow> S d d'"
    and wrap_step: "new_key_wrap i a b key d = Inr d' \<Longrightarrow> S d d'"
    and session_step: "new_session i a b token_hash state idle absolute seen d = Inr d' \<Longrightarrow> S d d'"
begin

lemma goes_unavailable_if_taken: "goes S e m \<Longrightarrow> goes S e (unavailable_if_taken m)"
  unfolding unavailable_if_taken_def by (rule goes_map_err)

lemma goes_register_tx: "goes S e (register_tx r k1 k2 ks vk dv now a b c d s h)"
  unfolding register_tx_def
  by (intro goes_intros goes_unavailable_if_taken goes_tx_command goes_audit goes_consume)
    (rule account_step keyset_step device_step vault_step wrap_step session_step, assumption)+

lemma goes_random_token: "goes S e random_token"
  unfolding random_token_def by (rule goes_random)

lemma moves_register_finish: "moves S e (register_finish r)"
  unfolding register_finish_def
  by (intro moves_handler_opens opens_goes goes_intros goes_register_tx goes_telemetry goes_random_token)

lemma goes_create_session: "goes S e (create_session_with_device a dv st now)"
  unfolding create_session_with_device_def Let_def
  by (intro goes_intros goes_random_token goes_tx_command)
    (rule device_step session_step, assumption)+

end

end
