(* ===== verification/PV_Login.thy ===== *)
theory PV_Login
  imports PV_Register
begin

text \<open>
  \<open>login_start\<close> and \<open>login_finish\<close> in \<^verbatim>\<open>crates/api/src/auth/routes.rs\<close>: the login
  challenge, with synthetic metadata for handles that have no account, and the verification of the
  client's proof against it, which ends in a second-factor challenge or an enrolment session.
\<close>

section \<open>Requests and responses\<close>

record login_start_request =
  ls_login_handle :: string
  ls_auth_protocol :: string
  ls_client_nonce :: string

record login_start_response =
  lr_login_challenge_id :: uuid
  lr_auth_protocol :: string
  lr_kdf_profile :: json
  lr_account_salt :: string
  lr_auth_verifier_profile :: string
  lr_auth_verifier_salt :: string
  lr_auth_verifier_iterations :: nat
  lr_server_nonce :: string
  lr_combined_nonce :: string
  lr_expires_at :: string

record login_finish_request =
  lf_login_challenge_id :: uuid
  lf_auth_protocol :: string
  lf_client_nonce :: string
  lf_server_nonce :: string
  lf_client_final_without_proof :: string
  lf_client_proof :: string
  lf_device :: device_request

datatype login_finish_response =
    MfaChallenge string uuid "string list" string
      \<comment> \<open>result, challenge, available methods, expiry\<close>
  | SessionCreated string session_response string
      \<comment> \<open>result, session, next step\<close>

section \<open>Login metadata\<close>

record login_metadata =
  lo_account_id :: "uuid option"
  lo_kdf_profile :: json
  lo_account_salt :: bytes
  lo_auth_verifier_salt :: bytes
  lo_auth_verifier_iterations :: nat

definition account_by_handle :: "string \<Rightarrow> db \<Rightarrow> account_row option" where
  "account_by_handle handle d = find (\<lambda>a. acc_login_handle_normalized a = handle) (accounts d)"

definition load_login_metadata :: "string \<Rightarrow> (api_error, login_metadata option) io" where
  "load_login_metadata handle =
     try_io (pool_call (query (account_by_handle handle))) (\<lambda>row.
     case row of
       None \<Rightarrow> ret None
     | Some a \<Rightarrow>
         if acc_auth_verifier_iterations a < 0 then throw ServiceUnavailable
         else if length (acc_account_salt a) \<noteq> DEFAULT_SALT_BYTES
            \<or> length (acc_auth_verifier_salt a) \<noteq> DEFAULT_SALT_BYTES
            \<or> nat (acc_auth_verifier_iterations a) \<noteq> DEFAULT_ITERATIONS
            \<or> acc_kdf_profile a \<noteq> default_kdf_profile
         then throw ServiceUnavailable
         else ret (Some
           \<lparr>lo_account_id = Some (acc_id a), lo_kdf_profile = acc_kdf_profile a,
            lo_account_salt = acc_account_salt a, lo_auth_verifier_salt = acc_auth_verifier_salt a,
            lo_auth_verifier_iterations = nat (acc_auth_verifier_iterations a)\<rparr>))"

definition synthetic_bytes :: "externals \<Rightarrow> bytes \<Rightarrow> string \<Rightarrow> string \<Rightarrow> bytes" where
  "synthetic_bytes X key domain handle =
     hmac_sha256 X key (as_bytes domain @ [0] @ as_bytes handle)"

definition synthetic_login_metadata :: "externals \<Rightarrow> bytes \<Rightarrow> string \<Rightarrow> login_metadata" where
  "synthetic_login_metadata X key handle =
     \<lparr>lo_account_id = None, lo_kdf_profile = default_kdf_profile,
      lo_account_salt = synthetic_bytes X key ''password-vault/synthetic-account-salt/v1'' handle,
      lo_auth_verifier_salt =
        synthetic_bytes X key ''password-vault/synthetic-auth-verifier-salt/v1'' handle,
      lo_auth_verifier_iterations = DEFAULT_ITERATIONS\<rparr>"

section \<open>Starting a login\<close>

definition login_start :: "login_start_request \<Rightarrow> (api_error, login_start_response response) io" where
  "login_start request = handler (
     try_io (lift (ensure_supported_protocol (ls_auth_protocol request))) (\<lambda>_.
     try_io database_pool (\<lambda>_.
     try_io ask (\<lambda>e.
     try_io (lift (ok_or ServiceUnavailable (cf_synthetic_metadata_key (conf e)))) (\<lambda>synthetic_key.
     try_io (lift (normalize_login_handle (ls_login_handle request))) (\<lambda>handle.
     try_io (lift (map_err (\<lambda>_. BadRequest)
       (decode_base64url_array (ext e) CLIENT_NONCE_BYTES (ls_client_nonce request)))) (\<lambda>client_nonce.
     try_io cleanup_expired_challenges (\<lambda>_.
     try_io (enforce_challenge_rate_limit handle ''login'') (\<lambda>_.
     try_io (load_login_metadata handle) (\<lambda>loaded.
     let metadata = (case loaded of Some m \<Rightarrow> m | None \<Rightarrow> synthetic_login_metadata (ext e) synthetic_key handle) in
     try_io new_uuid (\<lambda>login_challenge_id.
     try_io (random_bytes SERVER_NONCE_BYTES) (\<lambda>server_nonce.
     let combined_nonce = client_nonce @ server_nonce in
     try_io now_utc_second (\<lambda>now.
     let expires_at = now + LOGIN_CHALLENGE_TTL;
         challenge_metadata =
           \<lparr>lm_client_nonce = encode_base64url (ext e) client_nonce,
            lm_server_nonce = encode_base64url (ext e) server_nonce,
            lm_combined_nonce = encode_base64url (ext e) combined_nonce,
            lm_auth_verifier_profile = PROFILE_ID,
            lm_auth_verifier_iterations = lo_auth_verifier_iterations metadata,
            lm_synthetic = (lo_account_id metadata = None)\<rparr> in
     try_io (insert_auth_challenge
       \<lparr>ic_id = login_challenge_id, ic_account_id = lo_account_id metadata,
        ic_login_handle_normalized = handle, ic_challenge_type = ''login'',
        ic_server_nonce = server_nonce, ic_public_metadata = login_metadata_json challenge_metadata,
        ic_expires_at = expires_at\<rparr>) (\<lambda>_.
     try_io (login_start_event ''issued'') (\<lambda>_.
     try_io (format_rfc3339 expires_at) (\<lambda>expires.
     ret (no_store_json 200
       \<lparr>lr_login_challenge_id = login_challenge_id, lr_auth_protocol = AUTH_PROTOCOL,
        lr_kdf_profile = lo_kdf_profile metadata,
        lr_account_salt = encode_base64url (ext e) (lo_account_salt metadata),
        lr_auth_verifier_profile = PROFILE_ID,
        lr_auth_verifier_salt = encode_base64url (ext e) (lo_auth_verifier_salt metadata),
        lr_auth_verifier_iterations = lo_auth_verifier_iterations metadata,
        lr_server_nonce = lm_server_nonce challenge_metadata,
        lr_combined_nonce = lm_combined_nonce challenge_metadata,
        lr_expires_at = expires\<rparr>)))))))))))))))))"

section \<open>Finishing a login\<close>

definition login_challenge :: "uuid \<Rightarrow> time \<Rightarrow> db \<Rightarrow> challenge_row option" where
  "login_challenge challenge_id now d =
     find (open_challenge ''login'' challenge_id now) (auth_challenges d)"

definition account_stored_key :: "uuid \<Rightarrow> string \<Rightarrow> db \<Rightarrow> bytes option" where
  "account_stored_key account_id handle d =
     map_option acc_auth_stored_key
       (find (\<lambda>a. acc_id a = account_id \<and> acc_login_handle_normalized a = handle
          \<and> acc_auth_protocol a = AUTH_PROTOCOL) (accounts d))"

definition active_totp_factor :: "uuid \<Rightarrow> db \<Rightarrow> uuid option" where
  "active_totp_factor account_id d =
     map_option tf_id (find (\<lambda>f. tf_account_id f = account_id \<and> tf_verified_at f \<noteq> None) (totp_factors d))"

text \<open>The check of the client's proof. For a synthetic challenge the code verifies against a zero
  key, so that the request takes as long, and ignores the outcome.\<close>

definition check_login_proof ::
  "uuid option \<Rightarrow> login_challenge_metadata \<Rightarrow> string \<Rightarrow> bytes \<Rightarrow> bytes \<Rightarrow> (api_error, bool) io" where
  "check_login_proof account_id metadata handle auth_message proof_bytes =
     try_io ask (\<lambda>e.
     case (if lm_synthetic metadata then None else account_id) of
       None \<Rightarrow> ret False
     | Some account_id \<Rightarrow>
         try_io (tx_call (query (account_stored_key account_id handle))) (\<lambda>account.
         try_io (case account of
                   None \<Rightarrow> ret False
                 | Some key \<Rightarrow>
                     try_io (lift (auth_key_from_vec key)) (\<lambda>stored_key.
                     lift (map_err (\<lambda>_. AuthFailed)
                       (verify_client_proof (ext e) stored_key auth_message proof_bytes)))) (\<lambda>proof_ok.
         if proof_ok then ret True
         else try_io (insert_audit_event account_id None ''auth_login_failed''
                (JObj [(''reason'', JStr ''proof_failed'')])) (\<lambda>_. ret False))))"

definition reject_login :: "uuid \<Rightarrow> time \<Rightarrow> string \<Rightarrow> (api_error, 'a) io" where
  "reject_login challenge_id now failure_class =
     try_io (consume_auth_challenge challenge_id now) (\<lambda>_.
     try_io (unavailable commit_tx) (\<lambda>_.
     try_io (login_attempt ''failed'' failure_class) (\<lambda>_.
     throw AuthFailed)))"

definition issue_mfa_challenge ::
  "uuid \<Rightarrow> uuid \<Rightarrow> string \<Rightarrow> validated_device \<Rightarrow> time \<Rightarrow> (api_error, login_finish_response response) io" where
  "issue_mfa_challenge challenge_id account_id handle device now =
     try_io ask (\<lambda>e.
     try_io new_uuid (\<lambda>mfa_challenge_id.
     try_io (random_bytes SERVER_NONCE_BYTES) (\<lambda>mfa_server_nonce.
     let expires_at = now + LOGIN_CHALLENGE_TTL in
     try_io (insert_auth_challenge_tx
       \<lparr>ic_id = mfa_challenge_id, ic_account_id = Some account_id,
        ic_login_handle_normalized = handle, ic_challenge_type = ''pre_mfa'',
        ic_server_nonce = mfa_server_nonce,
        ic_public_metadata = pre_mfa_metadata_json (ext e)
          \<lparr>pm_login_challenge_id = challenge_id, pm_device = from_validated device\<rparr>,
        ic_expires_at = expires_at\<rparr>) (\<lambda>_.
     try_io (insert_audit_event account_id None ''auth_login_password_verified''
       (JObj [(''mfa_required'', JBool True)])) (\<lambda>_.
     try_io (unavailable commit_tx) (\<lambda>_.
     try_io (login_attempt ''success'' ''none'') (\<lambda>_.
     try_io (mfa_event ''totp_login'' ''challenge_issued'') (\<lambda>_.
     try_io (format_rfc3339 expires_at) (\<lambda>expires.
     ret (no_store_json 200
       (MfaChallenge ''mfa_required'' mfa_challenge_id [''totp'', ''recovery_code''] expires)))))))))))"

definition create_setup_session ::
  "uuid \<Rightarrow> validated_device \<Rightarrow> time \<Rightarrow> (api_error, login_finish_response response) io" where
  "create_setup_session account_id device now =
     try_io ask (\<lambda>e.
     try_io (create_session_with_device account_id device ''mfa_enrollment_required'' now)
       (\<lambda>(device_id, session_token, idle_expires_at, absolute_expires_at).
     try_io (insert_audit_event account_id None ''auth_login_setup_session_created''
       (JObj [(''mfa_required'', JBool False)])) (\<lambda>_.
     try_io (unavailable commit_tx) (\<lambda>_.
     try_io (login_attempt ''success'' ''none'') (\<lambda>_.
     try_io (session_event ''created'' ''mfa_enrollment_required'') (\<lambda>_.
     try_io (format_rfc3339 idle_expires_at) (\<lambda>idle.
     try_io (format_rfc3339 absolute_expires_at) (\<lambda>absolute.
     try_io (header_value (session_cookie (ext e) session_token)) (\<lambda>cookie.
     ret ((no_store_json 200 (SessionCreated ''session_created''
       \<lparr>sr_state = ''mfa_enrollment_required'', sr_vault_access = False,
        sr_idle_expires_at = idle, sr_absolute_expires_at = absolute\<rparr>
       ''enroll_totp''))\<lparr>rs_set_cookie := Some cookie\<rparr>))))))))))"

text \<open>The part of the handler between \<open>begin\<close> and the answer.\<close>

definition login_tx ::
  "uuid \<Rightarrow> bytes \<Rightarrow> bytes \<Rightarrow> bytes \<Rightarrow> bytes \<Rightarrow> validated_device \<Rightarrow> time
   \<Rightarrow> (api_error, login_finish_response response) io" where
  "login_tx login_challenge_id client_nonce server_nonce client_final proof_bytes device now =
     try_io ask (\<lambda>e.
     try_io (tx_call (query (login_challenge login_challenge_id now))) (\<lambda>challenge.
     case challenge of
       None \<Rightarrow> try_io (login_attempt ''failed'' ''challenge_unavailable'') (\<lambda>_. throw AuthFailed)
     | Some c \<Rightarrow>
         try_io (lift (decode_login_challenge_metadata (ch_public_metadata c))) (\<lambda>metadata.
         if \<not> (lm_client_nonce metadata = encode_base64url (ext e) client_nonce
               \<and> lm_server_nonce metadata = encode_base64url (ext e) server_nonce
               \<and> ch_server_nonce c = server_nonce
               \<and> lm_auth_verifier_profile metadata = PROFILE_ID
               \<and> lm_auth_verifier_iterations metadata = DEFAULT_ITERATIONS)
         then reject_login (ch_id c) now ''challenge_mismatch''
         else
           let auth_message = login_auth_message (ext e)
             \<lparr>la_challenge_id = ch_id c, la_auth_protocol = AUTH_PROTOCOL,
              la_login_handle_normalized = ch_login_handle_normalized c,
              la_client_nonce = client_nonce, la_server_nonce = server_nonce,
              la_client_final_without_proof = client_final\<rparr> in
           try_io (check_login_proof (ch_account_id c) metadata (ch_login_handle_normalized c)
             auth_message proof_bytes) (\<lambda>proof_ok.
           if \<not> proof_ok then reject_login (ch_id c) now ''proof_failed''
           else
             try_io (lift (ok_or ServiceUnavailable (ch_account_id c))) (\<lambda>account_id.
             try_io (consume_auth_challenge (ch_id c) now) (\<lambda>_.
             try_io (tx_call (query (active_totp_factor account_id))) (\<lambda>factor.
             if factor \<noteq> None
             then issue_mfa_challenge (ch_id c) account_id (ch_login_handle_normalized c) device now
             else create_setup_session account_id device now)))))))"

definition login_finish ::
  "headers \<Rightarrow> login_finish_request \<Rightarrow> (api_error, login_finish_response response) io" where
  "login_finish h request = handler (
     try_io (lift (ensure_unsafe_request_context h)) (\<lambda>_.
     try_io database_pool (\<lambda>_.
     try_io ask (\<lambda>e.
     if lf_auth_protocol request \<noteq> AUTH_PROTOCOL
     then try_io (login_attempt ''failed'' ''unsupported_protocol'') (\<lambda>_. throw AuthFailed)
     else
     try_io (lift (map_err (\<lambda>_. BadRequest)
       (decode_base64url_array (ext e) CLIENT_NONCE_BYTES (lf_client_nonce request)))) (\<lambda>client_nonce.
     try_io (lift (map_err (\<lambda>_. BadRequest)
       (decode_base64url_array (ext e) SERVER_NONCE_BYTES (lf_server_nonce request)))) (\<lambda>server_nonce.
     try_io (lift (map_err (\<lambda>_. BadRequest)
       (decode_base64url (ext e) (lf_client_final_without_proof request)))) (\<lambda>client_final.
     if client_final = [] \<or> length client_final > MAX_DEVICE_PUBLIC_METADATA_BYTES then throw BadRequest
     else
     try_io (lift (map_err (\<lambda>_. BadRequest)
       (decode_base64url_array (ext e) AUTH_KEY_BYTES (lf_client_proof request)))) (\<lambda>proof_bytes.
     try_io (lift (device_from_request (ext e) (lf_device request))) (\<lambda>device.
     try_io now_utc_second (\<lambda>now.
     try_io (unavailable begin_tx) (\<lambda>_.
     login_tx (lf_login_challenge_id request) client_nonce server_nonce client_final proof_bytes
       device now)))))))))))"

section \<open>What a login does\<close>

text \<open>The request proves knowledge of the account's secret for challenge \<open>c\<close>: the stored key of the
  account verifies its proof over the transcript of this very challenge, handle and nonces.\<close>

definition proves_login :: "externals \<Rightarrow> db \<Rightarrow> challenge_row \<Rightarrow> login_finish_request \<Rightarrow> uuid \<Rightarrow> bool" where
  "proves_login X d c request a \<longleftrightarrow>
     (\<exists>key cn sn cf p. ch_account_id c = Some a
        \<and> account_stored_key a (ch_login_handle_normalized c) d = Some key
        \<and> decode_base64url_array X CLIENT_NONCE_BYTES (lf_client_nonce request) = Inr cn
        \<and> decode_base64url_array X SERVER_NONCE_BYTES (lf_server_nonce request) = Inr sn
        \<and> sn = ch_server_nonce c
        \<and> decode_base64url X (lf_client_final_without_proof request) = Inr cf
        \<and> decode_base64url_array X AUTH_KEY_BYTES (lf_client_proof request) = Inr p
        \<and> verify_client_proof X key (login_auth_message X
             \<lparr>la_challenge_id = ch_id c, la_auth_protocol = AUTH_PROTOCOL,
              la_login_handle_normalized = ch_login_handle_normalized c,
              la_client_nonce = cn, la_server_nonce = sn, la_client_final_without_proof = cf\<rparr>) p
           = Inr True)"

definition rejects_login :: "uuid \<Rightarrow> db \<Rightarrow> db \<Rightarrow> bool" where
  "rejects_login i d d' \<longleftrightarrow> (\<exists>now c. login_challenge i now d = Some c
     \<and> auth_challenges d' = auth_challenges (set_consumed i now d)
     \<and> sessions d' = sessions d \<and> devices d' = devices d \<and> totp_factors d' = totp_factors d)"

definition accepts_login :: "externals \<Rightarrow> login_finish_request \<Rightarrow> db \<Rightarrow> db \<Rightarrow> bool" where
  "accepts_login X request d d' \<longleftrightarrow>
     (\<exists>now c a. login_challenge (lf_login_challenge_id request) now d = Some c
       \<and> proves_login X d c request a \<and> totp_factors d' = totp_factors d
       \<and> (if active_totp_factor a d = None
          then auth_challenges d' = auth_challenges (set_consumed (ch_id c) now d)
            \<and> (\<exists>s. sessions d' = sessions d @ [s] \<and> se_account_id s = a
                  \<and> se_session_state s = ''mfa_enrollment_required'')
          else sessions d' = sessions d \<and> devices d' = devices d
            \<and> (\<exists>m. auth_challenges d' = auth_challenges (set_consumed (ch_id c) now d) @ [m]
                  \<and> ch_challenge_type m = ''pre_mfa'' \<and> ch_account_id m = Some a \<and> ch_attempts m = 0)))"

lemma set_consumed_simps [simp]:
  "accounts (set_consumed i now d) = accounts d" "sessions (set_consumed i now d) = sessions d"
  "devices (set_consumed i now d) = devices d" "totp_factors (set_consumed i now d) = totp_factors d"
  by (simp_all add: set_consumed_def)

lemma set_consumed_cong:
  "auth_challenges d = auth_challenges d2 \<Longrightarrow>
     auth_challenges (set_consumed i now d) = auth_challenges (set_consumed i now d2)"
  by (simp add: set_consumed_def)

lemma login_challenge_id: "login_challenge i now d = Some c \<Longrightarrow> ch_id c = i"
  by (auto simp: login_challenge_def open_challenge_def dest: find_Some_mem)

lemma wp_check_login_proof:
  assumes "w_txn w = Some (d, t)"
  shows "wp e (check_login_proof a m h msg p)
     (\<lambda>b w'. w_db w' = w_db w \<and> (\<exists>d'. w_txn w' = Some (d', t)
        \<and> accounts d' = accounts d \<and> auth_challenges d' = auth_challenges d \<and> sessions d' = sessions d
        \<and> devices d' = devices d \<and> totp_factors d' = totp_factors d
        \<and> (b \<longrightarrow> d' = d \<and> (\<exists>i key. a = Some i \<and> account_stored_key i h d = Some key
              \<and> verify_client_proof (ext e) key msg p = Inr True))))
     (\<lambda>_ w'. w_db w' = w_db w) w"
  unfolding check_login_proof_def insert_audit_event_def
  by (intro vc_rules)
    (use assms in \<open>auto simp: same_state_def insert_audit_def auth_key_from_vec_def split: if_splits\<close>)

lemma wp_reject_login:
  "wp e (reject_login i now f) Q
     (\<lambda>_ w'. w_db w' = w_db w \<or> (\<exists>d t. w_txn w = Some (d, t) \<and> w_db w' = set_consumed i now d)) w"
  unfolding reject_login_def consume_auth_challenge_def telemetry_defs counter_def
  by (intro vc_rules) (auto simp: same_state_def)

definition mfa_challenge_added :: "uuid \<Rightarrow> db \<Rightarrow> db \<Rightarrow> bool" where
  "mfa_challenge_added a d d' \<longleftrightarrow> (\<exists>m. auth_challenges d' = auth_challenges d @ [m]
     \<and> ch_challenge_type m = ''pre_mfa'' \<and> ch_account_id m = Some a \<and> ch_attempts m = 0
     \<and> sessions d' = sessions d \<and> devices d' = devices d \<and> totp_factors d' = totp_factors d)"

definition setup_session_added :: "uuid \<Rightarrow> db \<Rightarrow> db \<Rightarrow> bool" where
  "setup_session_added a d d' \<longleftrightarrow> auth_challenges d' = auth_challenges d
     \<and> totp_factors d' = totp_factors d \<and> (\<exists>s. sessions d' = sessions d @ [s] \<and> se_account_id s = a
        \<and> se_session_state s = ''mfa_enrollment_required'')"

lemma wp_issue_mfa:
  assumes "w_txn w = Some (d, t)"
  shows "wp e (issue_mfa_challenge i a h dv now)
     (\<lambda>_ w'. mfa_challenge_added a d (w_db w'))
     (\<lambda>_ w'. w_db w' = w_db w \<or> mfa_challenge_added a d (w_db w')) w"
  unfolding issue_mfa_challenge_def insert_auth_challenge_tx_def insert_challenge_stmt_def
    insert_audit_event_def telemetry_defs counter_def Let_def mfa_challenge_added_def
  by (intro vc_rules)
    (use assms in \<open>auto simp: same_state_def insert_challenge_def challenge_of_def insert_audit_def\<close>)

lemma wp_create_setup_session:
  assumes "w_txn w = Some (d, t)"
  shows "wp e (create_setup_session a dv now)
     (\<lambda>_ w'. setup_session_added a d (w_db w'))
     (\<lambda>_ w'. w_db w' = w_db w \<or> setup_session_added a d (w_db w')) w"
  unfolding create_setup_session_def create_session_with_device_def random_token_def
    insert_audit_event_def telemetry_defs counter_def Let_def setup_session_added_def
  by (intro vc_rules)
    (use assms in \<open>auto simp: same_state_def new_device_def insert_device_def new_session_def
       insert_session_def insert_audit_def\<close>)

lemma rejects_intro:
  "login_challenge i now d = Some c \<Longrightarrow> auth_challenges d' = auth_challenges (set_consumed (ch_id c) now d) \<Longrightarrow>
   sessions d' = sessions d \<Longrightarrow> devices d' = devices d \<Longrightarrow> totp_factors d' = totp_factors d \<Longrightarrow>
     rejects_login i d d'"
  unfolding rejects_login_def using login_challenge_id by blast

lemma rejects_intro_tx:
  "login_challenge i now d = Some c \<Longrightarrow> auth_challenges d2 = auth_challenges d \<Longrightarrow>
   sessions d2 = sessions d \<Longrightarrow> devices d2 = devices d \<Longrightarrow> totp_factors d2 = totp_factors d \<Longrightarrow>
     rejects_login i d (set_consumed (ch_id c) now d2)"
  by (rule rejects_intro) (auto intro: set_consumed_cong)

lemma accepts_session_intro:
  "login_challenge (lf_login_challenge_id request) now d = Some c \<Longrightarrow> ch_account_id c = Some a \<Longrightarrow>
   account_stored_key a (ch_login_handle_normalized c) d = Some key \<Longrightarrow>
   decode_base64url_array X CLIENT_NONCE_BYTES (lf_client_nonce request) = Inr cn \<Longrightarrow>
   decode_base64url_array X SERVER_NONCE_BYTES (lf_server_nonce request) = Inr (ch_server_nonce c) \<Longrightarrow>
   decode_base64url X (lf_client_final_without_proof request) = Inr cf \<Longrightarrow>
   decode_base64url_array X AUTH_KEY_BYTES (lf_client_proof request) = Inr p \<Longrightarrow>
   verify_client_proof X key (login_auth_message X
     \<lparr>la_challenge_id = ch_id c, la_auth_protocol = AUTH_PROTOCOL,
      la_login_handle_normalized = ch_login_handle_normalized c, la_client_nonce = cn,
      la_server_nonce = ch_server_nonce c, la_client_final_without_proof = cf\<rparr>) p = Inr True \<Longrightarrow>
   active_totp_factor a d = None \<Longrightarrow>
   setup_session_added a (set_consumed (ch_id c) now d) d' \<Longrightarrow> accepts_login X request d d'"
  unfolding accepts_login_def proves_login_def setup_session_added_def
  by (rule exI [of _ now], rule exI [of _ c], rule exI [of _ a]) auto

lemma accepts_mfa_intro:
  "login_challenge (lf_login_challenge_id request) now d = Some c \<Longrightarrow> ch_account_id c = Some a \<Longrightarrow>
   account_stored_key a (ch_login_handle_normalized c) d = Some key \<Longrightarrow>
   decode_base64url_array X CLIENT_NONCE_BYTES (lf_client_nonce request) = Inr cn \<Longrightarrow>
   decode_base64url_array X SERVER_NONCE_BYTES (lf_server_nonce request) = Inr (ch_server_nonce c) \<Longrightarrow>
   decode_base64url X (lf_client_final_without_proof request) = Inr cf \<Longrightarrow>
   decode_base64url_array X AUTH_KEY_BYTES (lf_client_proof request) = Inr p \<Longrightarrow>
   verify_client_proof X key (login_auth_message X
     \<lparr>la_challenge_id = ch_id c, la_auth_protocol = AUTH_PROTOCOL,
      la_login_handle_normalized = ch_login_handle_normalized c, la_client_nonce = cn,
      la_server_nonce = ch_server_nonce c, la_client_final_without_proof = cf\<rparr>) p = Inr True \<Longrightarrow>
   active_totp_factor a d = Some f \<Longrightarrow>
   mfa_challenge_added a (set_consumed (ch_id c) now d) d' \<Longrightarrow> accepts_login X request d d'"
  unfolding accepts_login_def proves_login_def mfa_challenge_added_def
  by (rule exI [of _ now], rule exI [of _ c], rule exI [of _ a]) auto

lemma active_totp_factor_cong [simp]:
  "active_totp_factor a (set_consumed i now d) = active_totp_factor a d"
  by (simp add: active_totp_factor_def)

lemma wp_login_tx:
  assumes "w_txn w = Some (w_db w, t)"
    and "decode_base64url_array (ext e) CLIENT_NONCE_BYTES (lf_client_nonce request) = Inr cn"
    and "decode_base64url_array (ext e) SERVER_NONCE_BYTES (lf_server_nonce request) = Inr sn"
    and "decode_base64url (ext e) (lf_client_final_without_proof request) = Inr cf"
    and "decode_base64url_array (ext e) AUTH_KEY_BYTES (lf_client_proof request) = Inr p"
  shows "wp e (login_tx (lf_login_challenge_id request) cn sn cf p dv now)
     (\<lambda>_ w'. accepts_login (ext e) request (w_db w) (w_db w'))
     (\<lambda>_ w'. w_db w' = w_db w \<or> rejects_login (lf_login_challenge_id request) (w_db w) (w_db w')
        \<or> accepts_login (ext e) request (w_db w) (w_db w')) w"
proof -
  note parts = wp_mono [OF wp_reject_login] wp_mono [OF wp_issue_mfa] wp_mono [OF wp_create_setup_session]
    wp_mono [OF wp_check_login_proof [where t = t and d = "w_db w"]]
  show ?thesis
    unfolding login_tx_def consume_auth_challenge_def Let_def telemetry_defs counter_def
    apply (intro vc_rules parts)
    apply (use assms in \<open>simp_all add: same_state_def del: not_None_eq\<close>)
    apply (auto intro: rejects_intro rejects_intro_tx accepts_session_intro accepts_mfa_intro)
    done
qed

lemma wp_login_finish:
  assumes "w_txn w = None"
  shows "wp e (login_finish h request)
     (\<lambda>_ w'. ensure_unsafe_request_context h = Inr () \<and> accepts_login (ext e) request (w_db w) (w_db w'))
     (\<lambda>_ w'. w_db w' = w_db w \<or> rejects_login (lf_login_challenge_id request) (w_db w) (w_db w')
        \<or> accepts_login (ext e) request (w_db w) (w_db w')) w"
  unfolding login_finish_def telemetry_defs counter_def
  apply (intro vc_rules wp_mono [OF wp_login_tx])
  apply (use assms in \<open>simp_all add: same_state_def\<close>)
  done

text \<open>C17. A login succeeds only with a proof. Whatever the request and the faults, \<open>login_finish\<close>
  either changes nothing, or burns the challenge and creates no session, or has verified the
  client's proof against the stored key of the challenge's account over this challenge's
  transcript; then it burns the challenge and, if the account has a verified TOTP factor, only
  issues a second-factor challenge, and otherwise opens one enrolment session, without vault
  access. Success is always the last case.\<close>

theorem login_finish_sound:
  assumes "login_finish h request e w = (r, w')" and "w_txn w = None"
  shows "case r of
      Inr resp \<Rightarrow> ensure_unsafe_request_context h = Inr ()
        \<and> accepts_login (ext e) request (w_db w) (w_db w')
    | Inl x \<Rightarrow> w_db w' = w_db w \<or> rejects_login (lf_login_challenge_id request) (w_db w) (w_db w')
        \<or> accepts_login (ext e) request (w_db w) (w_db w')"
  using wp_result [OF assms(1) wp_login_finish [OF assms(2)]] by (cases r) simp_all

lemma consumed_not_open:
  assumes "auth_challenges d' = auth_challenges (set_consumed i now d) @ ms"
    and "list_all (\<lambda>m. ch_challenge_type m = ''pre_mfa'') ms"
  shows "login_challenge i now' d' = None"
proof -
  have "\<not> open_challenge ''login'' i now' c" if "c \<in> set (auth_challenges (set_consumed i now d))" for c
  proof -
    from that have "(\<exists>x. c = x\<lparr>ch_consumed_at := Some now\<rparr>) \<or> ch_id c \<noteq> i"
      by (auto simp: set_consumed_def update_where_def)
    then show ?thesis by (elim disjE exE) (simp_all add: open_challenge_def)
  qed
  moreover have "\<not> open_challenge ''login'' i now' c" if "c \<in> set ms" for c
    using that assms(2) by (auto simp: list_all_iff open_challenge_def)
  ultimately show ?thesis
    unfolding login_challenge_def find_None_iff assms(1) set_append by blast
qed

lemma login_effect_closes:
  "rejects_login (lf_login_challenge_id request) d d' \<or> accepts_login X request d d' \<Longrightarrow>
     login_challenge (lf_login_challenge_id request) now d' = None"
proof (elim disjE)
  assume "rejects_login (lf_login_challenge_id request) d d'"
  then show ?thesis
    using consumed_not_open [where ms = "[]"] by (auto simp: rejects_login_def)
next
  assume "accepts_login X request d d'"
  then obtain t c a where c: "login_challenge (lf_login_challenge_id request) t d = Some c"
    and ms: "auth_challenges d' = auth_challenges (set_consumed (ch_id c) t d)
      \<or> (\<exists>m. auth_challenges d' = auth_challenges (set_consumed (ch_id c) t d) @ [m]
           \<and> ch_challenge_type m = ''pre_mfa'')"
    by (auto simp: accepts_login_def split: if_splits)
  have "ch_id c = lf_login_challenge_id request" using c by (rule login_challenge_id)
  with ms show ?thesis
    using consumed_not_open [where ms = "[]"] consumed_not_open [where ms = "[m]" for m] by auto
qed


section \<open>Unknown handles\<close>

lemma wp_load_login_metadata:
  assumes "\<And>m w'. same_state w w' \<Longrightarrow> account_by_handle h (w_db w) = None \<Longrightarrow> Q None w'"
    and "\<And>a w'. same_state w w' \<Longrightarrow> account_by_handle h (w_db w) = Some a \<Longrightarrow>
      length (acc_account_salt a) = DEFAULT_SALT_BYTES \<Longrightarrow>
      length (acc_auth_verifier_salt a) = DEFAULT_SALT_BYTES \<Longrightarrow>
      Q (Some \<lparr>lo_account_id = Some (acc_id a), lo_kdf_profile = default_kdf_profile,
           lo_account_salt = acc_account_salt a, lo_auth_verifier_salt = acc_auth_verifier_salt a,
           lo_auth_verifier_iterations = DEFAULT_ITERATIONS\<rparr>) w'"
    and "\<And>x w'. same_state w w' \<Longrightarrow> R x w'"
  shows "wp e (load_login_metadata h) Q R w"
  unfolding load_login_metadata_def by (intro vc_rules) (use assms in auto)

definition known_salts :: "externals \<Rightarrow> bytes \<Rightarrow> string \<Rightarrow> db \<Rightarrow> bytes \<times> bytes" where
  "known_salts X key handle d =
     (case account_by_handle handle d of
        Some a \<Rightarrow> (acc_account_salt a, acc_auth_verifier_salt a)
      | None \<Rightarrow> (synthetic_bytes X key ''password-vault/synthetic-account-salt/v1'' handle,
          synthetic_bytes X key ''password-vault/synthetic-auth-verifier-salt/v1'' handle))"

lemma account_by_handle_expire [simp]:
  "account_by_handle h (drop_expired_challenges t d) = account_by_handle h d"
  by (simp add: account_by_handle_def drop_expired_challenges_def)

lemma wp_cleanup:
  assumes "\<And>t w'. w_db w' = drop_expired_challenges t (w_db w) \<Longrightarrow> w_txn w' = w_txn w \<Longrightarrow> Q () w'"
    and "\<And>x w'. R x w'"
  shows "wp e cleanup_expired_challenges Q R w"
  using assms(2) by (simp add: cleanup_expired_challenges_def wp_eqs command_def Let_def assms(1))

lemma wp_login_start:
  assumes "hmac_lengths (ext e)" and "cf_synthetic_metadata_key (conf e) = Some key"
    and "normalize_login_handle (ls_login_handle request) = Inr handle"
  shows "wp e (login_start request)
     (\<lambda>resp _. \<exists>s v. known_salts (ext e) key handle (w_db w) = (s, v)
        \<and> length s = DEFAULT_SALT_BYTES \<and> length v = DEFAULT_SALT_BYTES
        \<and> lr_account_salt (rs_body resp) = encode_base64url (ext e) s
        \<and> lr_auth_verifier_salt (rs_body resp) = encode_base64url (ext e) v
        \<and> lr_kdf_profile (rs_body resp) = default_kdf_profile
        \<and> lr_auth_verifier_profile (rs_body resp) = PROFILE_ID
        \<and> lr_auth_verifier_iterations (rs_body resp) = DEFAULT_ITERATIONS)
     (\<lambda>_ _. True) w"
proof -
  have len: "length (synthetic_bytes (ext e) key domain handle) = DEFAULT_SALT_BYTES" for domain
    using assms(1) by (simp add: synthetic_bytes_def hmac_lengths_def DEFAULT_SALT_BYTES_def)
  show ?thesis
    unfolding login_start_def insert_auth_challenge_def
      insert_challenge_stmt_def telemetry_defs counter_def Let_def assms(3)
    by (intro vc_rules wp_cleanup wp_load_login_metadata wp_rate_limit)
      (use assms len in \<open>simp_all add: same_state_def known_salts_def synthetic_login_metadata_def
         no_store_json_def\<close>)
qed

text \<open>C30. The start of a login does not tell whether the handle has an account: every successful
  answer has the same key-derivation profile, verifier profile and iteration count and two salts
  of 32 bytes. For a handle without account the salts depend only on the handle and the server's
  key, so asking again gives the same salts, as it does for an account.\<close>

theorem login_start_uniform:
  assumes "hmac_lengths (ext e)" and "cf_synthetic_metadata_key (conf e) = Some key"
    and "normalize_login_handle (ls_login_handle request) = Inr handle"
    and "login_start request e w = (Inr resp, w')"
  shows "\<exists>s v. known_salts (ext e) key handle (w_db w) = (s, v)
    \<and> length s = DEFAULT_SALT_BYTES \<and> length v = DEFAULT_SALT_BYTES
    \<and> lr_account_salt (rs_body resp) = encode_base64url (ext e) s
    \<and> lr_auth_verifier_salt (rs_body resp) = encode_base64url (ext e) v
    \<and> lr_kdf_profile (rs_body resp) = default_kdf_profile
    \<and> lr_auth_verifier_profile (rs_body resp) = PROFILE_ID
    \<and> lr_auth_verifier_iterations (rs_body resp) = DEFAULT_ITERATIONS"
  using wp_result [OF assms(4) wp_login_start [OF assms(1,2,3)]] by simp

theorem login_start_uniform_witness:
  "\<exists>resp w' s v. login_start \<lparr>ls_login_handle = ''ann'', ls_auth_protocol = AUTH_PROTOCOL,
        ls_client_nonce = hex_encode (replicate 32 5)\<rparr> sample_env (world_of empty_db) = (Inr resp, w')
     \<and> known_salts sample (replicate 32 1) ''ann'' empty_db = (s, v)
     \<and> lr_account_salt (rs_body resp) = encode_base64url sample s"
proof -
  let ?request = "\<lparr>ls_login_handle = ''ann'', ls_auth_protocol = AUTH_PROTOCOL,
        ls_client_nonce = hex_encode (replicate 32 5)\<rparr>"
  have trim: "trim ''ann'' = ''ann''" by (rule trim_visible) (simp add: visible_char_def)
  have lower: "to_ascii_lowercase ''ann'' = ''ann''" by code_simp
  have handle: "normalize_login_handle (ls_login_handle ?request) = Inr ''ann''"
    by (simp add: normalize_login_handle_def trim lower MAX_LOGIN_HANDLE_BYTES_def)
  have "wp sample_env (login_start ?request) (\<lambda>_ _. True) (\<lambda>_ _. False) (world_of empty_db)"
    using handle by (simp add: login_start_def wp_eqs ensure_supported_protocol_def sample_decode
        cleanup_expired_challenges_def command_def drop_expired_challenges_def empty_db_def delete_where_def
        enforce_challenge_rate_limit_def query_def count_where_def AUTH_CHALLENGE_RATE_LIMIT_def Let_def
        load_login_metadata_def account_by_handle_def CLIENT_NONCE_BYTES_def
        insert_auth_challenge_def insert_challenge_stmt_def insert_challenge_def challenge_of_def
        SERVER_NONCE_BYTES_def nonblank_def AUTH_PROTOCOL_def opt_all_def constrained_def
        synthetic_login_metadata_def telemetry_defs sample_rfc3339 seconds_def LOGIN_CHALLENGE_TTL_def
        minutes_def del: hex_encode.simps)
  then obtain resp w' where run: "login_start ?request sample_env (world_of empty_db) = (Inr resp, w')"
    by (auto elim: run_of_wp)
  from login_start_uniform [OF _ _ handle run, of "replicate 32 1"] run show ?thesis by auto
qed

section \<open>Witnesses\<close>

definition sample_login :: login_finish_request where
  "sample_login =
     \<lparr>lf_login_challenge_id = 98, lf_auth_protocol = AUTH_PROTOCOL,
      lf_client_nonce = hex_encode (replicate 32 5), lf_server_nonce = hex_encode (replicate 32 6),
      lf_client_final_without_proof = hex_encode [9], lf_client_proof = hex_encode (replicate 32 0),
      lf_device = \<lparr>dq_label = ''d'', dq_client_type = ''cli'', dq_public_metadata = JObj []\<rparr>\<rparr>"

definition sample_login_challenge :: challenge_row where
  "sample_login_challenge = challenge_of
     \<lparr>ic_id = 98, ic_account_id = Some 1000, ic_login_handle_normalized = ''ann'',
      ic_challenge_type = ''login'', ic_server_nonce = replicate 32 6,
      ic_public_metadata = login_metadata_json
        \<lparr>lm_client_nonce = hex_encode (replicate 32 5), lm_server_nonce = hex_encode (replicate 32 6),
         lm_combined_nonce = [], lm_auth_verifier_profile = PROFILE_ID,
         lm_auth_verifier_iterations = DEFAULT_ITERATIONS, lm_synthetic = False\<rparr>,
      ic_expires_at = seconds 1500\<rparr> (seconds 900)"

definition sample_account :: account_row where
  "sample_account =
     \<lparr>acc_id = 1000, acc_login_handle_normalized = ''ann'', acc_auth_protocol = AUTH_PROTOCOL,
      acc_kdf_profile = default_kdf_profile, acc_account_salt = replicate 32 3,
      acc_auth_verifier_profile = PROFILE_ID, acc_auth_verifier_salt = replicate 32 4,
      acc_auth_verifier_iterations = int DEFAULT_ITERATIONS, acc_auth_stored_key = replicate 32 1,
      acc_auth_server_key = replicate 32 2, acc_created_at = 0\<rparr>"

definition sample_login_db :: db where
  "sample_login_db = empty_db\<lparr>accounts := [sample_account], auth_challenges := [sample_login_challenge]\<rparr>"

lemma sample_proof: "verify_client_proof sample (replicate 32 1) msg (replicate 32 0) = Inr True"
proof -
  have "hmac_sha256 sample (replicate 32 1) msg = replicate 32 1"
    by (simp add: sample_def take_pad_def)
  moreover have "xor_keys (replicate 32 0) (replicate 32 1) = replicate 32 (1 :: byte)"
    by (simp add: xor_keys_def map_replicate_const zip_replicate)
  moreover have "sha256 sample (replicate 32 1) = replicate 32 (1 :: byte)"
    by (simp add: sample_def take_pad_def)
  ultimately show ?thesis by (simp add: verify_client_proof_def KEY_LEN_def)
qed

lemma sample_encode: "encode_base64url sample b = hex_encode b"
  by (simp add: encode_base64url_def sample_def)

lemma sample_login_runs:
  "wp sample_env (login_finish (\<lambda>_. None) sample_login) (\<lambda>_ _. True) (\<lambda>_ _. False) (world_of sample_login_db)"
proof -
  note decoded = decode_login_json [of "\<lparr>lm_client_nonce = hex_encode (replicate 32 5),
      lm_server_nonce = hex_encode (replicate 32 6), lm_combined_nonce = [],
      lm_auth_verifier_profile = PROFILE_ID, lm_auth_verifier_iterations = DEFAULT_ITERATIONS,
      lm_synthetic = False\<rparr>", simplified]
  show ?thesis
    by (simp add: login_finish_def wp_eqs sample_login_def ensure_unsafe_request_context_def
        sample_decode sample_decode_any CLIENT_NONCE_BYTES_def SERVER_NONCE_BYTES_def AUTH_KEY_BYTES_def
        MAX_DEVICE_PUBLIC_METADATA_BYTES_def sample_device_valid login_tx_def query_def command_def
        login_challenge_def sample_login_db_def sample_login_challenge_def challenge_of_def
        open_challenge_def seconds_def decoded sample_encode check_login_proof_def account_stored_key_def
        sample_account_def auth_key_from_vec_def sample_proof consume_auth_challenge_def
        active_totp_factor_def create_setup_session_def create_session_with_device_def random_token_def
        new_device_def insert_device_def new_session_def insert_session_def insert_audit_event_def
        insert_audit_def set_consumed_def empty_db_def Let_def constrained_def nonblank_def
        account_exists_def opt_all_def device_of_def session_checks_def sha256_verifier_def
        sample_sha256_length SESSION_IDLE_TTL_def SESSION_ABSOLUTE_TTL_def minutes_def hours_def
        sample_rfc3339 sample_header telemetry_defs del: hex_encode.simps)
qed

theorem login_finish_sound_witness:
  "\<exists>resp w'. login_finish (\<lambda>_. None) sample_login sample_env (world_of sample_login_db) = (Inr resp, w')
     \<and> accepts_login sample sample_login sample_login_db (w_db w')"
proof -
  obtain resp w' where run: "login_finish (\<lambda>_. None) sample_login sample_env (world_of sample_login_db)
      = (Inr resp, w')"
    using sample_login_runs by (auto elim: run_of_wp)
  from login_finish_sound [OF run] run show ?thesis by auto
qed

lemma accepts_changes:
  assumes "accepts_login X request d d'"
  shows "d' \<noteq> d"
proof
  assume "d' = d"
  moreover obtain now where "login_challenge (lf_login_challenge_id request) now d \<noteq> None"
    using assms unfolding accepts_login_def by blast
  moreover have "login_challenge (lf_login_challenge_id request) now d' = None"
    by (rule login_effect_closes [of request d d' X]) (use assms in blast)
  ultimately show False by simp
qed


section \<open>Steps of the login code\<close>

context register_steps
begin

lemma moves_login_start: "moves S e (login_start r)"
  unfolding login_start_def load_login_metadata_def Let_def by (intro moves_challenge)

lemmas goes_login = goes_intros goes_telemetry goes_consume goes_audit goes_insert_challenge goes_create_session

lemma moves_login_finish: "moves S e (login_finish h r)"
  unfolding login_finish_def login_tx_def check_login_proof_def reject_login_def issue_mfa_challenge_def
    create_setup_session_def Let_def
  by (intro moves_handler_opens opens_goes goes_login)

end

end
