(* ===== verification/PV_Base32.thy ===== *)
theory PV_Base32
  imports PV_Base
begin

text \<open>
  \<open>base32_no_padding\<close> of \<^verbatim>\<open>crates/api/src/auth/totp.rs\<close> (it renders TOTP seeds and
  recovery codes), with its 16-bit shift buffer, and the decoder that the repository's tests
  use on its output. Both are related to the bit string of the input: \<open>lowbits w n\<close> is the
  part of the buffer that is still pending.
\<close>

section \<open>The encoder\<close>

definition ALPHABET :: string where
  "ALPHABET = ''ABCDEFGHIJKLMNOPQRSTUVWXYZ234567''"

fun base32_emit :: "16 word \<Rightarrow> nat \<Rightarrow> string \<Rightarrow> nat \<times> string" where
  "base32_emit buffer bits out =
     (if bits \<ge> 5
      then (let index = unat (drop_bit (bits - 5) buffer AND 31)
            in base32_emit buffer (bits - 5) (out @ [ALPHABET ! index]))
      else (bits, out))"

declare base32_emit.simps [simp del]

fun base32_loop :: "16 word \<Rightarrow> nat \<Rightarrow> string \<Rightarrow> bytes \<Rightarrow> 16 word \<times> nat \<times> string" where
  "base32_loop buffer bits out [] = (buffer, bits, out)"
| "base32_loop buffer bits out (b # bs) =
     (let buffer = push_bit 8 buffer OR ucast b;
          (bits, out) = base32_emit buffer (bits + 8) out
      in base32_loop buffer bits out bs)"

definition base32_finish :: "16 word \<times> nat \<times> string \<Rightarrow> string" where
  "base32_finish r =
     (case r of (buffer, bits, out) \<Rightarrow>
        if bits > 0
        then (let index = unat (push_bit (5 - bits) buffer AND 31) in out @ [ALPHABET ! index])
        else out)"

definition base32_no_padding :: "bytes \<Rightarrow> string" where
  "base32_no_padding bs = base32_finish (base32_loop 0 0 [] bs)"

section \<open>The decoder\<close>

definition base32_value :: "char \<Rightarrow> 32 word option" where
  "base32_value c =
     (let b = (of_char c :: nat) in
      if 65 \<le> b \<and> b \<le> 90 then Some (of_nat (b - 65))
      else if 97 \<le> b \<and> b \<le> 122 then Some (of_nat (b - 97))
      else if 50 \<le> b \<and> b \<le> 55 then Some (of_nat (b - 50 + 26))
      else None)"

fun decode_base32_loop :: "32 word \<Rightarrow> nat \<Rightarrow> bytes \<Rightarrow> string \<Rightarrow> bytes option" where
  "decode_base32_loop buffer bits out [] = Some out"
| "decode_base32_loop buffer bits out (c # cs) =
     (case base32_value c of
        None \<Rightarrow> None
      | Some v \<Rightarrow>
          (let buffer = push_bit 5 buffer OR v; bits = bits + 5 in
           if bits \<ge> 8
           then decode_base32_loop buffer (bits - 8)
                  (out @ [ucast (drop_bit (bits - 8) buffer AND 255)]) cs
           else decode_base32_loop buffer bits out cs))"

definition decode_base32_no_padding :: "string \<Rightarrow> bytes option" where
  "decode_base32_no_padding s = decode_base32_loop 0 0 [] s"

section \<open>Bit strings\<close>

text \<open>The \<open>n\<close> low bits of a word, most significant first.\<close>

definition lowbits :: "'a::len word \<Rightarrow> nat \<Rightarrow> bool list" where
  "lowbits w n = rev (map (bit w) [0..<n])"

fun bval :: "bool list \<Rightarrow> nat" where
  "bval bs = horner_sum of_bool 2 (rev bs)"

declare bval.simps [simp del]

lemma length_lowbits [simp]: "length (lowbits w n) = n"
  by (simp add: lowbits_def)

lemma nth_lowbits: "i < n \<Longrightarrow> lowbits w n ! i = bit w (n - 1 - i)"
  by (simp add: lowbits_def rev_nth)

lemma lowbits_0 [simp]: "lowbits w 0 = []"
  by (simp add: lowbits_def)

lemma bval_lowbits: "bval (lowbits w n) = take_bit n (unat w)"
proof -
  have eq: "map (bit w) [0..<n] = map (bit (unat w)) [0..<n]"
    by (simp add: bit_unsigned_iff possible_bit_def bit_imp_le_length cong: map_cong)
  show ?thesis
    unfolding bval.simps lowbits_def rev_rev_ident eq by (rule horner_sum_bit_eq_take_bit)
qed

lemma bval_less: "bval bs < 2 ^ length bs"
proof (induction bs rule: rev_induct)
  case (snoc b bs)
  then show ?case by (cases b) (simp_all add: bval.simps)
qed (simp add: bval.simps)

lemma unat_and_mask: "unat (w AND mask n) = bval (lowbits w n)"
  by (simp add: bval_lowbits flip: take_bit_eq_mask) (simp add: unsigned_take_bit_eq)

lemma lowbits_drop: "lowbits (drop_bit k w) n = take n (lowbits w (k + n))"
proof (rule nth_equalityI)
  fix i assume "i < length (lowbits (drop_bit k w) n)"
  then show "lowbits (drop_bit k w) n ! i = take n (lowbits w (k + n)) ! i"
    by (simp add: nth_lowbits bit_simps)
qed simp

lemma drop_lowbits: "drop n (lowbits w (n + k)) = lowbits w k"
proof (rule nth_equalityI)
  fix i assume i: "i < length (drop n (lowbits w (n + k)))"
  have "n + k - 1 - (n + i) = k - 1 - i" using i by simp
  then show "drop n (lowbits w (n + k)) ! i = lowbits w k ! i"
    using i by (simp add: nth_lowbits)
qed simp

lemma lowbits_append:
  fixes w v :: "'a::len word"
  assumes "n + m \<le> LENGTH('a)" and "\<And>i. m \<le> i \<Longrightarrow> \<not> bit v i"
  shows "lowbits (push_bit m w OR v) (n + m) = lowbits w n @ lowbits v m"
proof (rule nth_equalityI)
  fix i assume i: "i < length (lowbits (push_bit m w OR v) (n + m))"
  show "lowbits (push_bit m w OR v) (n + m) ! i = (lowbits w n @ lowbits v m) ! i"
  proof (cases "i < n")
    case True
    then have "m \<le> n + m - 1 - i" and "n + m - 1 - i - m = n - 1 - i"
      and "n + m - Suc i < LENGTH('a)" using assms(1) by auto
    with True i assms show ?thesis
      by (simp add: nth_lowbits nth_append bit_simps)
  next
    case False
    with i have "n + m - 1 - i < m" and "m - 1 - (i - n) = n + m - 1 - i" by auto
    with False i show ?thesis
      by (simp add: nth_lowbits nth_append bit_simps)
  qed
qed simp

lemma lowbits_push:
  fixes w :: "'a::len word"
  assumes "n + m \<le> LENGTH('a)"
  shows "lowbits (push_bit m w) (n + m) = lowbits w n @ replicate m False"
proof -
  have "lowbits (0 :: 'a word) m = replicate m False"
    by (auto simp: list_eq_iff_nth_eq nth_lowbits)
  then show ?thesis
    using lowbits_append [of n m 0 w] assms by simp
qed

definition byte_bits :: "byte \<Rightarrow> bool list" where
  "byte_bits b = lowbits b 8"

lemma length_byte_bits [simp]: "length (byte_bits b) = 8"
  by (simp add: byte_bits_def)

lemma lowbits_ucast_byte: "lowbits (ucast (b :: byte) :: 16 word) 8 = byte_bits b"
  by (auto simp: list_eq_iff_nth_eq nth_lowbits byte_bits_def bit_simps)

lemma byte_bits_inject: "byte_bits a = byte_bits b \<longleftrightarrow> a = b"
proof
  assume "byte_bits a = byte_bits b"
  then have "bval (byte_bits a) = bval (byte_bits b)" by simp
  then have "take_bit 8 (unat a) = take_bit 8 (unat b)" by (simp add: byte_bits_def bval_lowbits)
  then have "unat (take_bit 8 a) = unat (take_bit 8 b)" by (simp add: unsigned_take_bit_eq)
  then show "a = b" by (simp add: take_bit_word_eq_self word_unat_eq_iff)
qed simp

lemma length_concat_byte_bits [simp]: "length (concat (map byte_bits bs)) = 8 * length bs"
  by (induction bs) auto

section \<open>What the encoder computes\<close>

text \<open>The specification (RFC 4648 without padding characters): the bit string of the input is
  cut in groups of five bits, the last one filled with zeros, and each group selects a letter.\<close>

fun groups5 :: "bool list \<Rightarrow> bool list list" where
  "groups5 bs =
     (if bs = [] then []
      else if length bs < 5 then [bs @ replicate (5 - length bs) False]
      else take 5 bs # groups5 (drop 5 bs))"

declare groups5.simps [simp del]

definition letters :: "bool list \<Rightarrow> string" where
  "letters bs = map (\<lambda>g. ALPHABET ! bval g) (groups5 bs)"

lemma letters_Nil [simp]: "letters [] = []"
  by (simp add: letters_def groups5.simps)

lemma letters_long: "length g = 5 \<Longrightarrow> letters (g @ t) = ALPHABET ! bval g # letters t"
  by (cases "g = []") (simp_all add: letters_def groups5.simps [of "g @ t"])

lemma letters_short:
  "bs \<noteq> [] \<Longrightarrow> length bs < 5 \<Longrightarrow> letters bs = [ALPHABET ! bval (bs @ replicate (5 - length bs) False)]"
  by (simp add: letters_def groups5.simps [of bs])

lemma mask5: "(31 :: 'a::len word) = mask 5"
  by (simp add: mask_eq_exp_minus_1)

lemma base32_emit_letters:
  "base32_emit w n out = (n', out') \<Longrightarrow>
     n' < 5 \<and> out' @ letters (lowbits w n' @ t) = out @ letters (lowbits w n @ t)"
proof (induction w n out arbitrary: n' out' rule: base32_emit.induct)
  case (1 w n out)
  show ?case
  proof (cases "5 \<le> n")
    case True
    let ?l = "ALPHABET ! unat (drop_bit (n - 5) w AND 31)"
    have "n = (n - 5) + 5" using True by simp
    then have split: "lowbits w n = take 5 (lowbits w n) @ lowbits w (n - 5)"
      using drop_lowbits [of 5 w "n - 5"] by (metis add.commute append_take_drop_id)
    have "unat (drop_bit (n - 5) w AND 31) = bval (take 5 (lowbits w n))"
      using \<open>n = (n - 5) + 5\<close> lowbits_drop [of "n - 5" w 5]
      by (simp only: mask5 unat_and_mask)
    then have "letters (lowbits w n @ t) = ?l # letters (lowbits w (n - 5) @ t)"
      using True letters_long [of "take 5 (lowbits w n)"] split
      by (metis append.assoc length_lowbits length_take min.absorb2)
    moreover have "base32_emit w (n - 5) (out @ [?l]) = (n', out')"
      using "1.prems" True by (simp add: base32_emit.simps [of w n] Let_def)
    then have "n' < 5 \<and> out' @ letters (lowbits w n' @ t) = (out @ [?l]) @ letters (lowbits w (n - 5) @ t)"
      using "1.IH" True by simp
    ultimately show ?thesis by simp
  next
    case False
    with "1.prems" show ?thesis by (simp add: base32_emit.simps [of w n])
  qed
qed

lemma base32_loop_letters:
  "n < 5 \<Longrightarrow> base32_finish (base32_loop w n out bs)
     = out @ letters (lowbits w n @ concat (map byte_bits bs))"
proof (induction bs arbitrary: w n out)
  case Nil
  show ?case
  proof (cases "n = 0")
    case False
    have "lowbits (push_bit (5 - n) w) 5 = lowbits w n @ replicate (5 - n) False"
      using lowbits_push [of n "5 - n" w] Nil by simp
    then have "unat (push_bit (5 - n) w AND 31) = bval (lowbits w n @ replicate (5 - n) False)"
      by (simp only: mask5 unat_and_mask)
    moreover have "lowbits w n \<noteq> []" using False by (metis length_lowbits list.size(3))
    ultimately show ?thesis using Nil False by (simp add: base32_finish_def letters_short)
  qed (simp add: base32_finish_def)
next
  case (Cons b bs)
  let ?w = "push_bit 8 w OR ucast b"
  obtain n' out' where emit: "base32_emit ?w (n + 8) out = (n', out')" by force
  have "\<And>i. 8 \<le> i \<Longrightarrow> \<not> bit (ucast b :: 16 word) i"
    by (auto simp: bit_simps dest: bit_imp_le_length)
  then have low: "lowbits ?w (n + 8) = lowbits w n @ byte_bits b"
    using lowbits_append [of n 8 "ucast b :: 16 word" w] Cons.prems by (simp add: lowbits_ucast_byte)
  from base32_emit_letters [OF emit, of "concat (map byte_bits bs)"]
  have "n' < 5" and "out' @ letters (lowbits ?w n' @ concat (map byte_bits bs))
      = out @ letters (lowbits w n @ concat (map byte_bits (b # bs)))"
    by (simp_all add: low)
  then show ?case using Cons.IH [of n' ?w out'] by (simp add: emit Let_def)
qed

lemma base32_letters: "base32_no_padding bs = letters (concat (map byte_bits bs))"
  using base32_loop_letters [of 0 0 "[]" bs] by (simp add: base32_no_padding_def)

section \<open>The round trip\<close>

lemma all_less_32: "(\<forall>v < 32. P v) \<longleftrightarrow> list_all P [0..<32]"
  by (auto simp: list_all_iff)

lemma base32_value_table:
  "\<forall>v < 32. base32_value (ALPHABET ! v) = Some (word_of_nat v)"
  unfolding all_less_32 by code_simp

lemma base32_value_letter:
  assumes "length g = 5"
  obtains v where "base32_value (ALPHABET ! bval g) = Some v" and "lowbits v 5 = g"
    and "\<And>i. 5 \<le> i \<Longrightarrow> \<not> bit v i"
proof -
  let ?v = "word_of_nat (bval g) :: 32 word"
  have lt: "bval g < 32" using bval_less [of g] assms by simp
  then have "base32_value (ALPHABET ! bval g) = Some ?v" using base32_value_table by blast
  moreover have bits: "bit ?v i = (i < 5 \<and> rev g ! i)" for i
  proof -
    have "bit ?v i = (i < 32 \<and> bit (bval g) i)" by (simp add: bit_simps)
    also have "bit (bval g) i = (i < 5 \<and> rev g ! i)"
      using assms by (simp add: bval.simps bit_horner_sum_bit_iff)
    finally show ?thesis by auto
  qed
  have "lowbits ?v 5 = g" and "\<And>i. 5 \<le> i \<Longrightarrow> \<not> bit ?v i"
    using assms by (auto simp: list_eq_iff_nth_eq nth_lowbits rev_nth bits)
  ultimately show ?thesis using that by blast
qed

text \<open>The decoder on a text of letters reads the groups' bits and returns the full octets.\<close>

fun octets :: "bool list \<Rightarrow> bytes" where
  "octets bs = (if length bs < 8 then [] else word_of_nat (bval (take 8 bs)) # octets (drop 8 bs))"

declare octets.simps [simp del]

lemma octets_byte: "octets (byte_bits b @ t) = b # octets t"
proof -
  have "word_of_nat (bval (byte_bits b)) = b"
    by (simp add: byte_bits_def bval_lowbits flip: unsigned_take_bit_eq)
      (simp add: take_bit_word_eq_self)
  then show ?thesis by (simp add: octets.simps [of "byte_bits b @ t"])
qed

lemma octets_concat: "length t < 8 \<Longrightarrow> octets (concat (map byte_bits bs) @ t) = bs"
  by (induction bs) (simp_all add: octets_byte octets.simps [of t])

lemma ucast_octet: "(ucast (drop_bit k w AND 255 :: 32 word) :: byte) = word_of_nat (bval (lowbits (drop_bit k w) 8))"
proof -
  have "unat (drop_bit k w AND 255) = bval (lowbits (drop_bit k w) 8)"
    using unat_and_mask [of "drop_bit k w" 8] by (simp add: mask_eq_exp_minus_1)
  then show ?thesis by (metis of_nat_unat)
qed

lemma decode_letters_step:
  assumes "n < 8" and "length g = 5"
  shows "\<exists>w'. (n + 5 < 8 \<longrightarrow> lowbits w' (n + 5) = lowbits w n @ g
           \<and> decode_base32_loop w n out (ALPHABET ! bval g # cs) = decode_base32_loop w' (n + 5) out cs)
       \<and> (8 \<le> n + 5 \<longrightarrow> lowbits w' (n + 5) = lowbits w n @ g
           \<and> decode_base32_loop w n out (ALPHABET ! bval g # cs)
             = decode_base32_loop w' (n - 3) (out @ [word_of_nat (bval (take 8 (lowbits w n @ g)))]) cs)"
proof -
  obtain v where v: "base32_value (ALPHABET ! bval g) = Some v" "lowbits v 5 = g"
    "\<And>i. 5 \<le> i \<Longrightarrow> \<not> bit v i"
    using base32_value_letter [OF assms(2)] by blast
  let ?w = "push_bit 5 w OR v"
  have low: "lowbits ?w (n + 5) = lowbits w n @ g"
    using lowbits_append [of n 5 v w] v assms(1) by simp
  moreover have "lowbits (drop_bit (n - 3) ?w) 8 = take 8 (lowbits w n @ g)" if "8 \<le> n + 5"
  proof -
    have "n - 3 + 8 = n + 5" using that by simp
    then show ?thesis using lowbits_drop [of "n - 3" ?w 8] low by metis
  qed
  ultimately show ?thesis
    by (intro exI [of _ ?w]) (auto simp: v Let_def ucast_octet)
qed

lemma decode_groups:
  "n < 8 \<Longrightarrow> \<forall>g \<in> set gs. length g = 5 \<Longrightarrow>
     decode_base32_loop w n out (map (\<lambda>g. ALPHABET ! bval g) gs)
       = Some (out @ octets (lowbits w n @ concat gs))"
proof (induction gs arbitrary: w n out)
  case Nil
  then show ?case by (simp add: octets.simps [of "lowbits w n"])
next
  case (Cons g gs)
  from Cons.prems obtain w' where
    short: "n + 5 < 8 \<longrightarrow> lowbits w' (n + 5) = lowbits w n @ g \<and>
       decode_base32_loop w n out (map (\<lambda>g. ALPHABET ! bval g) (g # gs))
         = decode_base32_loop w' (n + 5) out (map (\<lambda>g. ALPHABET ! bval g) gs)" and
    long: "8 \<le> n + 5 \<longrightarrow> lowbits w' (n + 5) = lowbits w n @ g \<and>
       decode_base32_loop w n out (map (\<lambda>g. ALPHABET ! bval g) (g # gs))
         = decode_base32_loop w' (n - 3) (out @ [word_of_nat (bval (take 8 (lowbits w n @ g)))])
             (map (\<lambda>g. ALPHABET ! bval g) gs)"
    using decode_letters_step [of n g w out "map (\<lambda>g. ALPHABET ! bval g) gs"] by auto
  show ?case
  proof (cases "n + 5 < 8")
    case True
    then show ?thesis using short Cons.IH [of "n + 5" w' out] Cons.prems by simp
  next
    case False
    then have low: "lowbits w' (n + 5) = lowbits w n @ g" using long by simp
    have "8 + (n - 3) = n + 5" using False by simp
    then have "lowbits w' (n - 3) = drop 8 (lowbits w n @ g)"
      using drop_lowbits [of 8 w' "n - 3"] low by metis
    moreover have "octets (lowbits w n @ g @ concat gs) =
        word_of_nat (bval (take 8 (lowbits w n @ g))) # octets (drop 8 (lowbits w n @ g) @ concat gs)"
      using False Cons.prems by (subst octets.simps) simp
    ultimately show ?thesis
      using False long Cons.IH [of "n - 3" w'] Cons.prems by simp
  qed
qed

lemma groups5_length: "g \<in> set (groups5 bs) \<Longrightarrow> length g = 5"
  by (induction bs rule: groups5.induct) (subst (asm) (2) groups5.simps, auto split: if_splits)

lemma concat_groups5: "\<exists>t. length t < 5 \<and> concat (groups5 bs) = bs @ t"
proof (induction bs rule: groups5.induct)
  case (1 bs)
  show ?case
  proof (cases "bs = [] \<or> length bs < 5")
    case True
    then show ?thesis by (subst groups5.simps) auto
  next
    case False
    with "1.IH" obtain t where "length t < 5" "concat (groups5 (drop 5 bs)) = drop 5 bs @ t" by auto
    with False show ?thesis by (subst groups5.simps) (auto intro!: exI [of _ t])
  qed
qed

lemma decode_base32_letters: "decode_base32_loop 0 0 [] (base32_no_padding bs) = Some bs"
proof -
  obtain t where t: "length t < 5"
    "concat (groups5 (concat (map byte_bits bs))) = concat (map byte_bits bs) @ t"
    using concat_groups5 by blast
  have "decode_base32_loop 0 0 [] (base32_no_padding bs)
      = Some (octets (concat (groups5 (concat (map byte_bits bs)))))"
    using decode_groups [of 0 "groups5 (concat (map byte_bits bs))" 0 "[]"]
    by (simp add: base32_letters letters_def groups5_length)
  also have "\<dots> = Some bs" using t by (simp add: octets_concat)
  finally show ?thesis .
qed

lemma base32_inject: "base32_no_padding a = base32_no_padding b \<longleftrightarrow> a = b"
  by (metis decode_base32_letters option.inject)

text \<open>Base32 is faithful: the text that the encoder makes of any byte string (a TOTP seed
  shown to the user, a recovery code's random bytes) decodes to exactly that byte string, so the
  secret that the user types into an authenticator is the secret that the server stores.\<close>

theorem base32_roundtrip: "decode_base32_no_padding (base32_no_padding bs) = Some bs"
  unfolding decode_base32_no_padding_def by (rule decode_base32_letters)

lemma letter_in_alphabet:
  assumes "length g = 5"
  shows "ALPHABET ! bval g \<in> set ALPHABET"
proof (rule nth_mem)
  show "bval g < length ALPHABET"
    using bval_less [of g] assms by (simp add: ALPHABET_def)
qed

lemma base32_chars:
  assumes "c \<in> set (base32_no_padding bs)"
  shows "c \<in> set ALPHABET"
proof -
  from assms obtain g where "g \<in> set (groups5 (concat (map byte_bits bs)))" and "c = ALPHABET ! bval g"
    unfolding base32_letters letters_def set_map by blast
  then show ?thesis using letter_in_alphabet groups5_length by blast
qed

lemma length_groups5: "length (groups5 bs) = (length bs + 4) div 5"
proof (induction bs rule: groups5.induct)
  case (1 bs)
  show ?case
  proof (cases "length bs < 5")
    case True
    then have "bs \<noteq> [] \<Longrightarrow> (length bs + 4) div 5 = 1" by (cases bs) simp_all
    with True show ?thesis by (simp add: groups5.simps [of bs])
  next
    case False
    then have "bs \<noteq> []" by auto
    with False "1.IH" have "length (groups5 (drop 5 bs)) = (length bs - 5 + 4) div 5" by simp
    with False \<open>bs \<noteq> []\<close> show ?thesis by (simp add: groups5.simps [of bs])
  qed
qed

lemma length_base32: "length (base32_no_padding bs) = (8 * length bs + 4) div 5"
  by (simp add: base32_letters letters_def length_groups5)

lemma alphabet_lower:
  assumes "c \<in> set ALPHABET"
  shows "is_ascii_lowercase (lower_char c) \<or> is_ascii_digit (lower_char c)"
proof -
  have "list_all (\<lambda>c. is_ascii_lowercase (lower_char c) \<or> is_ascii_digit (lower_char c)) ALPHABET"
    by (simp add: ALPHABET_def is_ascii_lowercase_def is_ascii_digit_def of_char_lower_char)
  with assms show ?thesis by (auto simp: list_all_iff)
qed

lemma alphabet_lower_inj: "inj_on lower_char (set ALPHABET)"
proof -
  have "distinct (map lower_char ALPHABET)" by code_simp
  then show ?thesis by (simp add: distinct_map)
qed

end
