(* ===== verification/PV_Recovery.thy ===== *)
theory PV_Recovery
  imports PV_Login PV_Base32
begin

text \<open>
  Recovery codes in \<^verbatim>\<open>crates/api/src/auth/routes.rs\<close>: their generation, hashing and
  validation, and the handler \<open>recovery_code_verify\<close>, which exchanges one for a recovery session.
\<close>

section \<open>Recovery codes\<close>

definition RECOVERY_CODE_COUNT :: nat where
  "RECOVERY_CODE_COUNT = 10"

definition RECOVERY_CODE_RANDOM_BYTES :: nat where
  "RECOVERY_CODE_RANDOM_BYTES = 16"

definition RECOVERY_CODE_SALT_BYTES :: nat where
  "RECOVERY_CODE_SALT_BYTES = 16"

definition MAX_RECOVERY_CODE_BYTES :: nat where
  "MAX_RECOVERY_CODE_BYTES = 128"

fun chunks4 :: "string \<Rightarrow> string list" where
  "chunks4 (a # b # c # d # s) = [a, b, c, d] # chunks4 s"
| "chunks4 [] = []"
| "chunks4 s = [s]"

fun join_dashes :: "string list \<Rightarrow> string" where
  "join_dashes [] = []"
| "join_dashes [c] = c"
| "join_dashes (c # cs) = c @ ''-'' @ join_dashes cs"

definition recovery_code_from_random :: "bytes \<Rightarrow> string" where
  "recovery_code_from_random random =
     ''pvrc-'' @ join_dashes (chunks4 (to_ascii_lowercase (base32_no_padding random)))"

fun generate_codes :: "nat \<Rightarrow> ('e, string list) io" where
  "generate_codes 0 = ret []"
| "generate_codes (Suc n) =
     try_io (random_bytes RECOVERY_CODE_RANDOM_BYTES) (\<lambda>random.
     try_io (generate_codes n) (\<lambda>codes.
     ret (recovery_code_from_random random # codes)))"

definition generate_recovery_codes :: "('e, string list) io" where
  "generate_recovery_codes = generate_codes RECOVERY_CODE_COUNT"

definition recovery_code_hash :: "externals \<Rightarrow> uuid \<Rightarrow> bytes \<Rightarrow> string \<Rightarrow> bytes" where
  "recovery_code_hash X account_id salt code =
     sha256 X (as_bytes ''password-vault/recovery-code/v1'' @ [0]
       @ uuid_bytes X account_id @ [0] @ salt @ [0]
       @ as_bytes (to_ascii_lowercase (trim code)))"

definition validate_recovery_code :: "string \<Rightarrow> api_error + string" where
  "validate_recovery_code code =
     (let code = to_ascii_lowercase (trim code) in
      if code = [] \<or> length code > MAX_RECOVERY_CODE_BYTES \<or> \<not> starts_with code ''pvrc-''
         \<or> has_whitespace code
         \<or> list_ex (\<lambda>c. \<not> (is_ascii_lowercase c \<or> is_ascii_digit c \<or> c = CHR ''-'')) code
      then Inl MfaVerificationFailed else Inr code)"

definition recovery_code_salt_from_vec :: "bytes \<Rightarrow> api_error + bytes" where
  "recovery_code_salt_from_vec value =
     (if length value = RECOVERY_CODE_SALT_BYTES then Inr value else Inl ServiceUnavailable)"

text \<open>The loop over the account's unused codes; the last match counts.\<close>

fun match_recovery_code ::
  "externals \<Rightarrow> uuid \<Rightarrow> string \<Rightarrow> recovery_code_row list \<Rightarrow> uuid option \<Rightarrow> api_error + uuid option" where
  "match_recovery_code X account_id code [] matched = Inr matched"
| "match_recovery_code X account_id code (row # rows) matched =
     and_then (recovery_code_salt_from_vec (rc_code_salt row)) (\<lambda>salt.
     match_recovery_code X account_id code rows
       (if length (rc_code_hash row) = length (recovery_code_hash X account_id salt code)
           \<and> rc_code_hash row = recovery_code_hash X account_id salt code
        then Some (rc_id row) else matched))"

definition unused_codes :: "uuid \<Rightarrow> db \<Rightarrow> recovery_code_row list" where
  "unused_codes account_id d =
     filter (\<lambda>r. rc_account_id r = account_id \<and> rc_used_at r = None) (recovery_codes d)"

definition find_matching_recovery_code :: "uuid \<Rightarrow> string \<Rightarrow> (api_error, uuid option) io" where
  "find_matching_recovery_code account_id code =
     try_io (tx_call (query (unused_codes account_id))) (\<lambda>rows.
     try_io ask (\<lambda>e.
     lift (match_recovery_code (ext e) account_id code rows None)))"

definition mark_code_used :: "uuid \<Rightarrow> uuid \<Rightarrow> time \<Rightarrow> db \<Rightarrow> db" where
  "mark_code_used account_id code_id now d = d\<lparr>recovery_codes :=
     update_where (\<lambda>r. rc_id r = code_id \<and> rc_account_id r = account_id \<and> rc_used_at r = None)
       (\<lambda>r. r\<lparr>rc_used_at := Some now\<rparr>) (recovery_codes d)\<rparr>"

definition mark_code_used_stmt :: "uuid \<Rightarrow> uuid \<Rightarrow> time \<Rightarrow> nat stmt" where
  "mark_code_used_stmt account_id code_id now = (\<lambda>_ d.
     Inr (count_where (\<lambda>r. rc_id r = code_id \<and> rc_account_id r = account_id \<and> rc_used_at r = None)
            (recovery_codes d), mark_code_used account_id code_id now d))"

definition consume_recovery_code :: "uuid \<Rightarrow> uuid \<Rightarrow> time \<Rightarrow> (api_error, unit) io" where
  "consume_recovery_code account_id code_id now =
     try_io (tx_call (mark_code_used_stmt account_id code_id now)) (\<lambda>rows_affected.
     if rows_affected = 1 then ret () else throw MfaVerificationFailed)"

section \<open>Logging in with a recovery code\<close>

definition recovery_login_failed :: "uuid \<Rightarrow> uuid \<Rightarrow> time \<Rightarrow> (api_error, 'a) io" where
  "recovery_login_failed challenge_id account_id now =
     try_io (increment_challenge_attempts challenge_id now) (\<lambda>_.
     try_io (insert_audit_event account_id None ''mfa_recovery_code_login_failed'' (JObj [])) (\<lambda>_.
     try_io (unavailable commit_tx) (\<lambda>_.
     try_io (mfa_event ''recovery_code_login'' ''failed'') (\<lambda>_.
     throw MfaVerificationFailed))))"

definition recovery_login_accepted ::
  "uuid \<Rightarrow> uuid \<Rightarrow> uuid \<Rightarrow> validated_device \<Rightarrow> time
   \<Rightarrow> (api_error, (string \<times> session_response \<times> string) response) io" where
  "recovery_login_accepted challenge_id account_id recovery_code_id device now =
     try_io ask (\<lambda>e.
     try_io (consume_recovery_code account_id recovery_code_id now) (\<lambda>_.
     try_io (create_session_with_device account_id device ''mfa_recovery'' now)
       (\<lambda>(device_id, session_token, idle_expires_at, absolute_expires_at).
     try_io (consume_auth_challenge challenge_id now) (\<lambda>_.
     try_io (insert_audit_event account_id (Some device_id) ''mfa_recovery_code_login_verified''
       (JObj [])) (\<lambda>_.
     try_io (unavailable commit_tx) (\<lambda>_.
     try_io (mfa_event ''recovery_code_login'' ''verified'') (\<lambda>_.
     try_io (session_event ''created'' ''mfa_recovery'') (\<lambda>_.
     try_io (format_rfc3339 idle_expires_at) (\<lambda>idle.
     try_io (format_rfc3339 absolute_expires_at) (\<lambda>absolute.
     try_io (header_value (session_cookie (ext e) session_token)) (\<lambda>cookie.
     ret ((no_store_json 200 (''session_created'',
       \<lparr>sr_state = ''mfa_recovery'', sr_vault_access = False,
        sr_idle_expires_at = idle, sr_absolute_expires_at = absolute\<rparr>,
       ''reenroll_totp''))\<lparr>rs_set_cookie := Some cookie\<rparr>))))))))))))"

definition recovery_code_verify_tx ::
  "uuid \<Rightarrow> string \<Rightarrow> time \<Rightarrow> (api_error, (string \<times> session_response \<times> string) response) io" where
  "recovery_code_verify_tx mfa_challenge_id recovery_code now =
     try_io ask (\<lambda>e.
     try_io (load_pre_mfa_challenge mfa_challenge_id now) (\<lambda>challenge.
     case challenge of
       None \<Rightarrow> try_io (mfa_event ''recovery_code_login'' ''challenge_unavailable'') (\<lambda>_.
         throw MfaVerificationFailed)
     | Some c \<Rightarrow>
         if pc_attempts c \<ge> MFA_CHALLENGE_MAX_ATTEMPTS
         then try_io (mfa_event ''recovery_code_login'' ''attempts_exhausted'') (\<lambda>_.
           throw MfaVerificationFailed)
         else
         try_io (lift (into_validated (ext e) (pm_device (pc_metadata c)))) (\<lambda>device.
         try_io (case ok (validate_recovery_code recovery_code) of
                   None \<Rightarrow> ret None
                 | Some code \<Rightarrow> find_matching_recovery_code (pc_account_id c) code) (\<lambda>recovery_code_id.
         case recovery_code_id of
           None \<Rightarrow> recovery_login_failed (pc_id c) (pc_account_id c) now
         | Some i \<Rightarrow> recovery_login_accepted (pc_id c) (pc_account_id c) i device now))))"

definition recovery_code_verify ::
  "headers \<Rightarrow> uuid \<Rightarrow> string
   \<Rightarrow> (api_error, (string \<times> session_response \<times> string) response) io" where
  "recovery_code_verify h mfa_challenge_id recovery_code = handler (
     try_io (lift (ensure_unsafe_request_context h)) (\<lambda>_.
     try_io database_pool (\<lambda>_.
     try_io now_utc_second (\<lambda>now.
     try_io (unavailable begin_tx) (\<lambda>_.
     recovery_code_verify_tx mfa_challenge_id recovery_code now)))))"

section \<open>Codes are accepted as they were issued\<close>

definition dash :: char where
  "dash = CHR ''-''"

lemma undash: "dash \<notin> set s \<Longrightarrow> filter (\<lambda>c. c \<noteq> dash) (join_dashes (chunks4 s)) = s"
proof (induction s rule: chunks4.induct)
  case (1 a b c d s)
  have "filter (\<lambda>x. x \<noteq> dash) (join_dashes ([a, b, c, d] # cs))
      = [a, b, c, d] @ filter (\<lambda>x. x \<noteq> dash) (join_dashes cs)" for cs
    using 1 by (cases cs) (auto simp: dash_def)
  with 1 show ?case by simp
qed (auto simp: dash_def)

lemma set_join: "set (join_dashes cs) \<subseteq> set (concat cs) \<union> {dash}"
  by (induction cs rule: join_dashes.induct) (auto simp: dash_def)

lemma concat_chunks4: "concat (chunks4 s) = s"
  by (induction s rule: chunks4.induct) simp_all

lemma length_join: "length (join_dashes cs) \<le> length (concat cs) + length cs"
  by (induction cs rule: join_dashes.induct) simp_all

lemma length_chunks4: "length (chunks4 s) \<le> length s"
  by (induction s rule: chunks4.induct) simp_all

definition code_char :: "char \<Rightarrow> bool" where
  "code_char c \<longleftrightarrow> is_ascii_lowercase c \<or> is_ascii_digit c \<or> c = dash"

lemma code_char_visible: "code_char c \<Longrightarrow> visible_char c"
  by (auto simp: code_char_def is_ascii_lowercase_def is_ascii_digit_def visible_char_def dash_def)

lemma code_char_lower: "code_char c \<Longrightarrow> lower_char c = c"
  by (auto simp: code_char_def lower_char_def is_ascii_lowercase_def is_ascii_digit_def dash_def)

lemma recovery_code_chars: "list_all code_char (recovery_code_from_random r)"
proof -
  have "list_all code_char (to_ascii_lowercase (base32_no_padding r))"
    using base32_chars [of _ r] alphabet_lower by (auto simp: list_all_iff to_ascii_lowercase_def code_char_def)
  then have "list_all code_char (join_dashes (chunks4 (to_ascii_lowercase (base32_no_padding r))))"
    using set_join [of "chunks4 (to_ascii_lowercase (base32_no_padding r))"]
    by (auto simp: list_all_iff concat_chunks4 code_char_def)
  moreover have "list_all code_char ''pvrc-''" by (simp add: code_char_def is_ascii_lowercase_def dash_def)
  ultimately show ?thesis by (simp add: recovery_code_from_random_def)
qed

lemma recovery_code_length:
  "length r = RECOVERY_CODE_RANDOM_BYTES \<Longrightarrow> length (recovery_code_from_random r) \<le> MAX_RECOVERY_CODE_BYTES"
  using length_join [of "chunks4 (to_ascii_lowercase (base32_no_padding r))"]
    length_chunks4 [of "to_ascii_lowercase (base32_no_padding r)"]
  by (simp add: recovery_code_from_random_def concat_chunks4 length_base32 RECOVERY_CODE_RANDOM_BYTES_def
      MAX_RECOVERY_CODE_BYTES_def)

lemma recovery_code_normal:
  "to_ascii_lowercase (trim (recovery_code_from_random r)) = recovery_code_from_random r"
proof -
  have "trim (recovery_code_from_random r) = recovery_code_from_random r"
    by (rule trim_visible) (use recovery_code_chars [of r] code_char_visible in \<open>auto simp: list_all_iff\<close>)
  moreover have "map lower_char (recovery_code_from_random r) = recovery_code_from_random r"
    by (rule map_idI) (use recovery_code_chars [of r] code_char_lower in \<open>auto simp: list_all_iff\<close>)
  ultimately show ?thesis by (simp add: to_ascii_lowercase_def)
qed

lemma validate_issued_code:
  assumes "length r = RECOVERY_CODE_RANDOM_BYTES"
    and "to_ascii_lowercase (trim s) = recovery_code_from_random r"
  shows "validate_recovery_code s = Inr (recovery_code_from_random r)"
proof -
  let ?c = "recovery_code_from_random r"
  have "?c \<noteq> []" by (simp add: recovery_code_from_random_def)
  moreover have "starts_with ?c ''pvrc-''"
    by (simp add: starts_with_def recovery_code_from_random_def)
  moreover have "\<not> has_whitespace ?c"
    by (rule has_whitespace_visible) (use recovery_code_chars [of r] code_char_visible in \<open>auto simp: list_all_iff\<close>)
  moreover have "\<not> list_ex (\<lambda>c. \<not> (is_ascii_lowercase c \<or> is_ascii_digit c \<or> c = CHR ''-'')) ?c"
    using recovery_code_chars [of r] by (auto simp: list_all_iff list_ex_iff code_char_def dash_def)
  ultimately show ?thesis
    using recovery_code_length [OF assms(1)] by (simp add: validate_recovery_code_def assms(2) Let_def)
qed

definition code_matches :: "externals \<Rightarrow> uuid \<Rightarrow> string \<Rightarrow> recovery_code_row \<Rightarrow> bool" where
  "code_matches X a code row \<longleftrightarrow> rc_code_hash row = recovery_code_hash X a (rc_code_salt row) code"

lemma match_recovery_code_eq:
  "(\<forall>row \<in> set rows. length (rc_code_salt row) = RECOVERY_CODE_SALT_BYTES) \<Longrightarrow>
   match_recovery_code X a code rows m =
     Inr (case find (code_matches X a code) (rev rows) of Some row \<Rightarrow> Some (rc_id row) | None \<Rightarrow> m)"
  by (induction rows arbitrary: m)
    (auto simp: recovery_code_salt_from_vec_def code_matches_def find_append_right split: option.splits)

lemma match_recovery_code_Some:
  "match_recovery_code X a code rows m = Inr (Some i) \<Longrightarrow>
     m = Some i \<or> (\<exists>row \<in> set rows. rc_id row = i \<and> code_matches X a code row)"
  by (induction rows arbitrary: m)
    (auto simp: and_then_Inr_iff recovery_code_salt_from_vec_def code_matches_def split: if_splits)

text \<open>A recovery code is accepted as it was issued, in any letter case and with surrounding
  blanks: whatever the random bytes, what the user types passes the validation and the loop over
  the account's unused codes finds a row whose stored hash is the hash of the issued code under
  that row's own salt; a code whose hash is in no row finds none.\<close>

theorem recovery_code_roundtrip:
  assumes "length r = RECOVERY_CODE_RANDOM_BYTES"
    and "to_ascii_lowercase (trim s) = recovery_code_from_random r"
    and "\<forall>row \<in> set rows. length (rc_code_salt row) = RECOVERY_CODE_SALT_BYTES"
  shows "validate_recovery_code s = Inr (recovery_code_from_random r)
    \<and> (\<exists>found. match_recovery_code X a (recovery_code_from_random r) rows None = Inr found
        \<and> (found \<noteq> None \<longleftrightarrow> (\<exists>row \<in> set rows.
            rc_code_hash row = recovery_code_hash X a (rc_code_salt row) (recovery_code_from_random r))))"
proof -
  let ?found = "find (code_matches X a (recovery_code_from_random r)) (rev rows)"
  have "?found \<noteq> None \<longleftrightarrow> (\<exists>row \<in> set rows. code_matches X a (recovery_code_from_random r) row)"
    by (auto simp: find_None_iff)
  with validate_issued_code [OF assms(1,2)] match_recovery_code_eq [OF assms(3)] show ?thesis
    by (cases ?found) (simp_all add: code_matches_def)
qed

definition sample_codes :: "recovery_code_row list" where
  "sample_codes =
     [\<lparr>rc_id = 5, rc_account_id = 1, rc_code_salt = replicate 16 3,
       rc_code_hash = recovery_code_hash sample 1 (replicate 16 3) (recovery_code_from_random (replicate 16 0)),
       rc_used_at = None\<rparr>]"

theorem recovery_code_roundtrip_witness:
  "validate_recovery_code (recovery_code_from_random (replicate 16 0))
     = Inr (recovery_code_from_random (replicate 16 0))
   \<and> (\<exists>i. match_recovery_code sample 1 (recovery_code_from_random (replicate 16 0)) sample_codes None
        = Inr (Some i))"
  using recovery_code_roundtrip [of "replicate 16 0" "recovery_code_from_random (replicate 16 0)"
      sample_codes sample 1]
  by (auto simp: RECOVERY_CODE_RANDOM_BYTES_def RECOVERY_CODE_SALT_BYTES_def sample_codes_def
      recovery_code_normal)

lemma lower_base32_inject:
  "to_ascii_lowercase (base32_no_padding r) = to_ascii_lowercase (base32_no_padding q) \<longleftrightarrow> r = q"
proof -
  have "set (base32_no_padding r) \<union> set (base32_no_padding q) \<subseteq> set ALPHABET"
    using base32_chars by auto
  then have "inj_on lower_char (set (base32_no_padding r) \<union> set (base32_no_padding q))"
    using alphabet_lower_inj by (rule inj_on_subset [rotated])
  then show ?thesis
    unfolding to_ascii_lowercase_def by (simp add: inj_on_map_eq_map base32_inject)
qed

text \<open>The printed form of a recovery code keeps all of its randomness: different random bytes
  give different codes, so the code space is as large as that of the 16 random bytes.\<close>

theorem recovery_code_injective: "inj recovery_code_from_random"
proof (rule injI)
  fix r q assume eq: "recovery_code_from_random r = recovery_code_from_random q"
  have nodash: "dash \<notin> set (to_ascii_lowercase (base32_no_padding b))" for b
  proof
    assume "dash \<in> set (to_ascii_lowercase (base32_no_padding b))"
    then obtain c where "c \<in> set ALPHABET" and "dash = lower_char c"
      using base32_chars [of _ b] by (auto simp: to_ascii_lowercase_def)
    with alphabet_lower [of c] show False
      by (simp add: dash_def is_ascii_lowercase_def is_ascii_digit_def flip: \<open>dash = lower_char c\<close>)
  qed
  from eq have "join_dashes (chunks4 (to_ascii_lowercase (base32_no_padding r)))
      = join_dashes (chunks4 (to_ascii_lowercase (base32_no_padding q)))"
    by (simp add: recovery_code_from_random_def)
  then have "to_ascii_lowercase (base32_no_padding r) = to_ascii_lowercase (base32_no_padding q)"
    by (metis undash nodash)
  then show "r = q" by (simp add: lower_base32_inject)
qed

section \<open>What a recovery login does\<close>

text \<open>Only the challenge and the audit log change, or the whole exchange happens.\<close>

definition mfa_rejected :: "uuid \<Rightarrow> db \<Rightarrow> db \<Rightarrow> bool" where
  "mfa_rejected i d d' \<longleftrightarrow> (\<exists>now c d1. find (open_challenge ''pre_mfa'' i now) (auth_challenges d) = Some c
     \<and> ch_attempts c < MFA_CHALLENGE_MAX_ATTEMPTS \<and> count_attempt i now d = Inr d1
     \<and> (\<exists>au. d' = d1\<lparr>audit_events := audit_events d1 @ [au]\<rparr>))"

definition recovery_effect :: "uuid \<Rightarrow> uuid \<Rightarrow> uuid \<Rightarrow> time \<Rightarrow> db \<Rightarrow> db \<Rightarrow> bool" where
  "recovery_effect a i code_id now d d' \<longleftrightarrow>
     recovery_codes d' = recovery_codes (mark_code_used a code_id now d)
     \<and> auth_challenges d' = auth_challenges (set_consumed i now d)
     \<and> totp_factors d' = totp_factors d \<and> session_added a ''mfa_recovery'' d d'"

definition recovery_accepted :: "externals \<Rightarrow> uuid \<Rightarrow> string \<Rightarrow> db \<Rightarrow> db \<Rightarrow> bool" where
  "recovery_accepted X i typed d d' \<longleftrightarrow>
     (\<exists>now c a code row. find (open_challenge ''pre_mfa'' i now) (auth_challenges d) = Some c
       \<and> ch_account_id c = Some a \<and> ch_attempts c < MFA_CHALLENGE_MAX_ATTEMPTS
       \<and> validate_recovery_code typed = Inr code
       \<and> row \<in> set (unused_codes a d) \<and> code_matches X a code row
       \<and> recovery_effect a i (rc_id row) now d d')"

lemma mark_code_used_simps [simp]:
  "accounts (mark_code_used a i now d) = accounts d" "sessions (mark_code_used a i now d) = sessions d"
  "devices (mark_code_used a i now d) = devices d" "totp_factors (mark_code_used a i now d) = totp_factors d"
  "auth_challenges (mark_code_used a i now d) = auth_challenges d"
  "recovery_codes (set_consumed i now d) = recovery_codes d"
  by (simp_all add: mark_code_used_def set_consumed_def)

lemma pre_mfa_id: "find (open_challenge ty i now) cs = Some c \<Longrightarrow> ch_id c = i"
  by (auto simp: open_challenge_def dest: find_Some_mem)

lemma wp_consume_recovery_code:
  assumes "\<And>d t w'. w_txn w = Some (d, t) \<Longrightarrow> w_db w' = w_db w \<Longrightarrow>
      w_txn w' = Some (mark_code_used a i now d, t) \<Longrightarrow> Q () w'"
    and "\<And>x w'. w_db w' = w_db w \<Longrightarrow> R x w'"
  shows "wp e (consume_recovery_code a i now) Q R w"
proof (cases "w_txn w")
  case None
  with assms(2) show ?thesis
    by (simp add: consume_recovery_code_def wp_try wp_unavailable) (simp add: wp_def run_tx_def Let_def)
next
  case (Some p)
  obtain d t where p: "p = (d, t)" by force
  with Some assms show ?thesis
    by (simp add: consume_recovery_code_def wp_eqs mark_code_used_stmt_def Let_def)
qed

lemma wp_load_pre_mfa:
  assumes "\<And>d t w'. w_txn w = Some (d, t) \<Longrightarrow> same_state w w' \<Longrightarrow> Q None w'"
    and "\<And>d t c a m w'. w_txn w = Some (d, t) \<Longrightarrow> same_state w w' \<Longrightarrow>
      find (open_challenge ''pre_mfa'' i now) (auth_challenges d) = Some c \<Longrightarrow> ch_account_id c = Some a \<Longrightarrow>
      decode_pre_mfa_challenge_metadata (ext e) (ch_public_metadata c) = Inr m \<Longrightarrow>
      Q (Some \<lparr>pc_id = ch_id c, pc_account_id = a, pc_metadata = m, pc_attempts = ch_attempts c\<rparr>) w'"
    and "\<And>x w'. w_db w' = w_db w \<Longrightarrow> R x w'"
  shows "wp e (load_pre_mfa_challenge i now) Q R w"
  unfolding load_pre_mfa_challenge_def
  by (intro vc_rules) (use assms in \<open>auto simp: same_state_def field_def split: option.splits\<close>)

lemma wp_find_recovery_code:
  assumes "\<And>w'. same_state w w' \<Longrightarrow> Q None w'"
    and "\<And>d t row w'. w_txn w = Some (d, t) \<Longrightarrow> same_state w w' \<Longrightarrow> row \<in> set (unused_codes a d) \<Longrightarrow>
      code_matches (ext e) a code row \<Longrightarrow> Q (Some (rc_id row)) w'"
    and "\<And>x w'. w_db w' = w_db w \<Longrightarrow> R x w'"
  shows "wp e (find_matching_recovery_code a code) Q R w"
proof -
  have "Q found w'" if "w_txn w = Some (d, t)" "same_state w w'"
    "match_recovery_code (ext e) a code (unused_codes a d) None = Inr found" for d t found w'
    using that assms(1,2) match_recovery_code_Some [of "ext e" a code "unused_codes a d" None]
    by (cases found) auto
  then show ?thesis
    unfolding find_matching_recovery_code_def
    by (intro vc_rules) (use assms(3) in \<open>auto simp: same_state_def\<close>)
qed

lemma wp_recovery_failed:
  assumes "w_txn w = Some (d, t)" and "find (open_challenge ''pre_mfa'' i now) (auth_challenges d) = Some c"
    and "ch_attempts c < MFA_CHALLENGE_MAX_ATTEMPTS"
  shows "wp e (recovery_login_failed i a now) Q
     (\<lambda>_ w'. w_db w' = w_db w \<or> mfa_rejected i d (w_db w')) w"
  unfolding recovery_login_failed_def increment_challenge_attempts_def insert_audit_event_def
    telemetry_defs counter_def mfa_rejected_def
  by (intro vc_rules) (use assms in \<open>auto simp: same_state_def insert_audit_def\<close>)

lemma wp_recovery_accepted:
  assumes "w_txn w = Some (d, t)"
  shows "wp e (recovery_login_accepted i a code_id dv now)
     (\<lambda>_ w'. recovery_effect a i code_id now d (w_db w'))
     (\<lambda>_ w'. w_db w' = w_db w \<or> recovery_effect a i code_id now d (w_db w')) w"
  unfolding recovery_login_accepted_def consume_auth_challenge_def telemetry_defs counter_def
    recovery_effect_def
  by (intro vc_rules wp_consume_recovery_code wp_create_session wp_audit_event)
    (use assms in \<open>auto simp: same_state_def session_added_def intro: set_consumed_cong\<close>)

lemma recovery_accepted_intro:
  assumes "recovery_effect a i (rc_id row) now d d'"
    and "find (open_challenge ''pre_mfa'' i now) (auth_challenges d) = Some c"
    and "ch_account_id c = Some a" and "\<not> MFA_CHALLENGE_MAX_ATTEMPTS \<le> ch_attempts c"
    and "validate_recovery_code typed = Inr code" and "row \<in> set (unused_codes a d)"
    and "code_matches X a code row"
  shows "recovery_accepted X i typed d d'"
  using assms unfolding recovery_accepted_def not_le by blast

lemma wp_recovery_tx:
  assumes "w_txn w = Some (w_db w, t)"
  shows "wp e (recovery_code_verify_tx i typed now)
     (\<lambda>_ w'. recovery_accepted (ext e) i typed (w_db w) (w_db w'))
     (\<lambda>_ w'. w_db w' = w_db w \<or> mfa_rejected i (w_db w) (w_db w')
        \<or> recovery_accepted (ext e) i typed (w_db w) (w_db w')) w"
proof -
  note parts = wp_mono [OF wp_recovery_failed [where d = "w_db w" and t = t]]
    wp_mono [OF wp_recovery_accepted [where d = "w_db w" and t = t]]
    wp_load_pre_mfa wp_find_recovery_code
  show ?thesis
    unfolding recovery_code_verify_tx_def telemetry_defs counter_def
    apply (intro vc_rules parts)
    apply (use assms in \<open>simp_all add: same_state_def pre_mfa_id\<close>)
    apply (auto intro: recovery_accepted_intro dest: recovery_accepted_intro simp: pre_mfa_id)
    done
qed

lemma wp_recovery_code_verify:
  assumes "w_txn w = None"
  shows "wp e (recovery_code_verify h i typed)
     (\<lambda>_ w'. ensure_unsafe_request_context h = Inr () \<and> recovery_accepted (ext e) i typed (w_db w) (w_db w'))
     (\<lambda>_ w'. w_db w' = w_db w \<or> mfa_rejected i (w_db w) (w_db w')
        \<or> recovery_accepted (ext e) i typed (w_db w) (w_db w')) w"
  unfolding recovery_code_verify_def
  apply (intro vc_rules wp_mono [OF wp_recovery_tx])
  apply (use assms in \<open>simp_all add: same_state_def\<close>)
  done

text \<open>The code that a recovery login spends is no longer among the account's unused codes.\<close>

lemma recovery_spends:
  assumes "recovery_accepted X i typed d d'"
  shows "\<exists>a code row. validate_recovery_code typed = Inr code \<and> row \<in> set (unused_codes a d)
     \<and> code_matches X a code row \<and> rc_id row \<notin> rc_id ` set (unused_codes a d')"
proof -
  obtain now a code row where row: "validate_recovery_code typed = Inr code" "row \<in> set (unused_codes a d)"
      "code_matches X a code row" and codes: "recovery_codes d' = recovery_codes (mark_code_used a (rc_id row) now d)"
    using assms unfolding recovery_accepted_def recovery_effect_def by blast
  have "rc_id r \<noteq> rc_id row" if "r \<in> set (unused_codes a d')" for r
  proof -
    from that have "r \<in> set (recovery_codes d')" "rc_account_id r = a" "rc_used_at r = None"
      by (auto simp: unused_codes_def)
    moreover obtain q where "r = (if rc_id q = rc_id row \<and> rc_account_id q = a \<and> rc_used_at q = None
        then q\<lparr>rc_used_at := Some now\<rparr> else q)"
      using calculation(1) unfolding codes by (auto simp: mark_code_used_def set_update_where)
    ultimately show ?thesis by (auto split: if_splits)
  qed
  then have "rc_id row \<notin> rc_id ` set (unused_codes a d')" by (metis imageE)
  with row show ?thesis by blast
qed

text \<open>C19. A recovery code logs in once. Whatever the request and the faults,
  \<open>recovery_code_verify\<close> either changes nothing, or counts one failed attempt on the challenge, or
  has matched the typed code with an unused code of the challenge's account while attempts were
  left; then it marks that code used, consumes the challenge and opens one recovery session, which
  has no vault access. Success is always the last case, and the spent code no longer matches.\<close>

theorem recovery_code_verify_sound:
  assumes "recovery_code_verify h i typed e w = (r, w')" and "w_txn w = None"
  shows "case r of
      Inr resp \<Rightarrow> recovery_accepted (ext e) i typed (w_db w) (w_db w')
        \<and> (\<exists>a code row. validate_recovery_code typed = Inr code \<and> row \<in> set (unused_codes a (w_db w))
             \<and> code_matches (ext e) a code row \<and> rc_id row \<notin> rc_id ` set (unused_codes a (w_db w')))
    | Inl x \<Rightarrow> w_db w' = w_db w \<or> mfa_rejected i (w_db w) (w_db w')
        \<or> recovery_accepted (ext e) i typed (w_db w) (w_db w')"
proof (cases r)
  case (Inr resp)
  then have "recovery_accepted (ext e) i typed (w_db w) (w_db w')"
    using wp_result [OF assms(1) wp_recovery_code_verify [OF assms(2)]] by simp
  with recovery_spends [OF this] Inr show ?thesis by simp
qed (use wp_result [OF assms(1) wp_recovery_code_verify [OF assms(2)]] in simp)

section \<open>Witness\<close>

definition sample_pre_mfa :: challenge_row where
  "sample_pre_mfa = challenge_of
     \<lparr>ic_id = 97, ic_account_id = Some 1000, ic_login_handle_normalized = ''ann'',
      ic_challenge_type = ''pre_mfa'', ic_server_nonce = replicate 32 6,
      ic_public_metadata = pre_mfa_metadata_json sample
        \<lparr>pm_login_challenge_id = 98,
         pm_device = \<lparr>dq_label = ''d'', dq_client_type = ''cli'', dq_public_metadata = JObj []\<rparr>\<rparr>,
      ic_expires_at = seconds 1500\<rparr> (seconds 900)"

definition sample_recovery_db :: db where
  "sample_recovery_db = empty_db\<lparr>accounts := [sample_account], auth_challenges := [sample_pre_mfa],
     recovery_codes := [(hd sample_codes)\<lparr>rc_account_id := 1000,
       rc_code_hash := recovery_code_hash sample 1000 (replicate 16 3)
         (recovery_code_from_random (replicate 16 0))\<rparr>]\<rparr>"

lemma sample_recovery_runs:
  "wp sample_env (recovery_code_verify (\<lambda>_. None) 97 (recovery_code_from_random (replicate 16 0)))
     (\<lambda>_ _. True) (\<lambda>_ _. False) (world_of sample_recovery_db)"
proof -
  let ?code = "recovery_code_from_random (replicate 16 0)"
  note decoded = decode_pre_mfa_json [of sample "\<lparr>pm_login_challenge_id = 98,
      pm_device = \<lparr>dq_label = ''d'', dq_client_type = ''cli'', dq_public_metadata = JObj []\<rparr>\<rparr>",
      OF sample_uuid_roundtrip, simplified]
  have valid: "validate_recovery_code ?code = Inr ?code"
    by (rule validate_issued_code) (simp_all add: RECOVERY_CODE_RANDOM_BYTES_def recovery_code_normal)
  have device: "device_from_parts sample ''d'' ''cli'' (JObj [])
      = Inr \<lparr>vd_label = ''d'', vd_client_type = ''cli'', vd_public_metadata = JObj []\<rparr>"
    using sample_device_valid by (simp add: device_from_request_def)
  show ?thesis
    by (simp add: recovery_code_verify_def wp_eqs ensure_unsafe_request_context_def
        recovery_code_verify_tx_def load_pre_mfa_challenge_def query_def sample_recovery_db_def
        sample_pre_mfa_def challenge_of_def open_challenge_def seconds_def decoded field_def
        MFA_CHALLENGE_MAX_ATTEMPTS_def into_validated_def device valid
        sample_codes_def find_matching_recovery_code_def unused_codes_def
        recovery_code_salt_from_vec_def RECOVERY_CODE_SALT_BYTES_def
        recovery_login_accepted_def consume_recovery_code_def mark_code_used_stmt_def
        count_where_def mark_code_used_def command_def create_session_with_device_def random_token_def
        new_device_def insert_device_def new_session_def insert_session_def insert_audit_event_def
        insert_audit_def consume_auth_challenge_def set_consumed_def empty_db_def Let_def constrained_def
        nonblank_def account_exists_def opt_all_def device_of_def session_checks_def sha256_verifier_def
        sample_account_def sample_sha256_length SESSION_IDLE_TTL_def SESSION_ABSOLUTE_TTL_def minutes_def
        hours_def sample_rfc3339 sample_header telemetry_defs del: hex_encode.simps)
qed

theorem recovery_code_verify_sound_witness:
  "\<exists>resp w'. recovery_code_verify (\<lambda>_. None) 97 (recovery_code_from_random (replicate 16 0))
      sample_env (world_of sample_recovery_db) = (Inr resp, w')
     \<and> recovery_accepted sample 97 (recovery_code_from_random (replicate 16 0)) sample_recovery_db (w_db w')"
proof -
  obtain resp w' where run: "recovery_code_verify (\<lambda>_. None) 97 (recovery_code_from_random (replicate 16 0))
      sample_env (world_of sample_recovery_db) = (Inr resp, w')"
    using sample_recovery_runs by (auto elim: run_of_wp)
  from recovery_code_verify_sound [OF run] run show ?thesis by auto
qed

section \<open>Steps of the recovery code\<close>

locale recovery_steps = register_steps +
  assumes use_step: "S d (mark_code_used a i now d)"
begin

lemma goes_consume_code: "goes S e (consume_recovery_code a i now)"
proof -
  have "goes S e (run_tx (mark_code_used_stmt a i now))"
    by (rule goes_run_tx) (auto simp: mark_code_used_stmt_def intro: use_step)
  then show ?thesis
    unfolding consume_recovery_code_def by (intro goes_intros)
qed

lemma goes_find_code: "goes S e (find_matching_recovery_code a code)"
  unfolding find_matching_recovery_code_def by (intro goes_intros)

lemmas goes_recovery = goes_intros goes_telemetry goes_consume goes_increment goes_audit goes_load_pre_mfa
  goes_create_session goes_consume_code goes_find_code

lemma moves_recovery_code_verify: "moves S e (recovery_code_verify h i code)"
  unfolding recovery_code_verify_def recovery_code_verify_tx_def recovery_login_failed_def
    recovery_login_accepted_def
  by (intro moves_handler_opens opens_goes goes_recovery)

end

end
