(* ===== verification/PV_Totp.thy ===== *)
theory PV_Totp
  imports PV_Base32 PV_Sample
begin

text \<open>
  \<^verbatim>\<open>crates/api/src/auth/totp.rs\<close>: time-based one-time passwords, their verification in
  a window of three steps with replay protection, and the provisioning URI. Times, steps and
  periods are the code's \<open>u64\<close> values written as natural numbers with their bound, digits
  its \<open>u32\<close>.
\<close>

section \<open>Profile and errors\<close>

definition MIN_SEED_BYTES :: nat where
  "MIN_SEED_BYTES = 20"

datatype totp_algorithm = Sha1 | Sha256 | Sha512

fun as_uri_value :: "totp_algorithm \<Rightarrow> string" where
  "as_uri_value Sha1 = ''SHA1''"
| "as_uri_value Sha256 = ''SHA256''"
| "as_uri_value Sha512 = ''SHA512''"

record totp_profile =
  tp_algorithm :: totp_algorithm
  tp_digits :: nat
  tp_period_seconds :: nat

definition google_authenticator_default :: totp_profile where
  "google_authenticator_default = \<lparr>tp_algorithm = Sha1, tp_digits = 6, tp_period_seconds = 30\<rparr>"

text \<open>\<open>IndexPanic\<close> is not a value of the code: it stands for the panic of an index out of
  range, so that its absence is something to prove.\<close>

datatype totp_error =
    InvalidDigits
  | InvalidPeriod
  | InvalidCode
  | InvalidSeedLength nat nat \<comment> \<open>minimum, actual\<close>
  | IndexPanic

fun totp_error_text :: "totp_error \<Rightarrow> string" where
  "totp_error_text InvalidDigits = ''TOTP digits must be 6 or 8''"
| "totp_error_text InvalidPeriod = ''TOTP period must be greater than 0''"
| "totp_error_text InvalidCode = ''TOTP code has invalid shape''"
| "totp_error_text (InvalidSeedLength minimum actual) =
     ''TOTP seed must be at least '' @ dec minimum @ '' bytes; got '' @ dec actual"
| "totp_error_text IndexPanic = ''index out of bounds''"

section \<open>Operations\<close>

definition validate_digits :: "nat \<Rightarrow> totp_error + unit" where
  "validate_digits digits = (if digits = 6 \<or> digits = 8 then Inr () else Inl InvalidDigits)"

definition validate_profile :: "totp_profile \<Rightarrow> totp_error + unit" where
  "validate_profile p =
     and_then (validate_digits (tp_digits p)) (\<lambda>_.
     if tp_period_seconds p = 0 then Inl InvalidPeriod else Inr ())"

definition validate_seed :: "bytes \<Rightarrow> totp_error + unit" where
  "validate_seed seed =
     (if length seed < MIN_SEED_BYTES then Inl (InvalidSeedLength MIN_SEED_BYTES (length seed))
      else Inr ())"

definition validate_code :: "string \<Rightarrow> nat \<Rightarrow> totp_error + unit" where
  "validate_code code digits =
     (if length code = digits \<and> list_all is_ascii_digit code then Inr () else Inl InvalidCode)"

definition format_code :: "nat \<Rightarrow> nat \<Rightarrow> string" where
  "format_code value digits = replicate (digits - length (dec value)) CHR ''0'' @ dec value"

definition time_step :: "nat \<Rightarrow> nat \<Rightarrow> totp_error + nat" where
  "time_step unix_time_seconds period_seconds =
     (if period_seconds = 0 then Inl InvalidPeriod else Inr (unix_time_seconds div period_seconds))"

definition hmac_digest :: "externals \<Rightarrow> totp_algorithm \<Rightarrow> bytes \<Rightarrow> bytes \<Rightarrow> bytes" where
  "hmac_digest X algorithm key data =
     (case algorithm of
        Sha1 \<Rightarrow> hmac_sha1 X key data
      | Sha256 \<Rightarrow> hmac_sha256 X key data
      | Sha512 \<Rightarrow> hmac_sha512 X key data)"

definition index :: "bytes \<Rightarrow> nat \<Rightarrow> totp_error + byte" where
  "index xs i = (if i < length xs then Inr (xs ! i) else Inl IndexPanic)"

definition hotp :: "externals \<Rightarrow> bytes \<Rightarrow> nat \<Rightarrow> totp_algorithm \<Rightarrow> nat \<Rightarrow> totp_error + nat" where
  "hotp X seed counter algorithm digits =
     and_then (validate_digits digits) (\<lambda>_.
       let digest = hmac_digest X algorithm seed (be64 (of_nat counter)) in
       and_then (if digest = [] then Inl IndexPanic else index digest (length digest - 1)) (\<lambda>l.
       let offset = unat (l AND 0x0f) in
       and_then (index digest offset) (\<lambda>b0.
       and_then (index digest (offset + 1)) (\<lambda>b1.
       and_then (index digest (offset + 2)) (\<lambda>b2.
       and_then (index digest (offset + 3)) (\<lambda>b3.
         let binary = (push_bit 24 (ucast (b0 AND 0x7f)) :: 32 word)
               OR push_bit 16 (ucast b1) OR push_bit 8 (ucast b2) OR ucast b3
         in Inr (unat binary mod 10 ^ digits)))))))"

definition generate :: "externals \<Rightarrow> bytes \<Rightarrow> nat \<Rightarrow> totp_profile \<Rightarrow> totp_error + string" where
  "generate X seed unix_time_seconds p =
     and_then (validate_profile p) (\<lambda>_.
     and_then (validate_seed seed) (\<lambda>_.
     and_then (time_step unix_time_seconds (tp_period_seconds p)) (\<lambda>counter.
     and_then (hotp X seed counter (tp_algorithm p) (tp_digits p)) (\<lambda>value.
     Inr (format_code value (tp_digits p))))))"

definition checked_sub :: "nat \<Rightarrow> nat \<Rightarrow> nat option" where
  "checked_sub a b = (if b \<le> a then Some (a - b) else None)"

definition checked_add_u64 :: "nat \<Rightarrow> nat \<Rightarrow> nat option" where
  "checked_add_u64 a b = (if a + b < 2 ^ 64 then Some (a + b) else None)"

fun flatten :: "'a option list \<Rightarrow> 'a list" where
  "flatten [] = []"
| "flatten (None # xs) = flatten xs"
| "flatten (Some x # xs) = x # flatten xs"

text \<open>The loop of \<open>verify\<close> over the candidate steps.\<close>

fun verify_candidates ::
  "externals \<Rightarrow> bytes \<Rightarrow> string \<Rightarrow> totp_profile \<Rightarrow> nat option \<Rightarrow> nat list \<Rightarrow> totp_error + nat option" where
  "verify_candidates X seed code p last_accepted [] = Inr None"
| "verify_candidates X seed code p last_accepted (candidate # cs) =
     (if (case last_accepted of None \<Rightarrow> False | Some l \<Rightarrow> candidate \<le> l)
      then verify_candidates X seed code p last_accepted cs
      else
        and_then (hotp X seed candidate (tp_algorithm p) (tp_digits p)) (\<lambda>value.
        if format_code value (tp_digits p) = code then Inr (Some candidate)
        else verify_candidates X seed code p last_accepted cs))"

definition verify ::
  "externals \<Rightarrow> bytes \<Rightarrow> nat \<Rightarrow> string \<Rightarrow> totp_profile \<Rightarrow> nat option \<Rightarrow> totp_error + nat option" where
  "verify X seed unix_time_seconds code p last_accepted_step =
     and_then (validate_profile p) (\<lambda>_.
     and_then (validate_seed seed) (\<lambda>_.
     and_then (validate_code code (tp_digits p)) (\<lambda>_.
     and_then (time_step unix_time_seconds (tp_period_seconds p)) (\<lambda>current.
     verify_candidates X seed code p last_accepted_step
       (flatten [checked_sub current 1, Some current, checked_add_u64 current 1])))))"

fun is_unreserved :: "char \<Rightarrow> bool" where
  "is_unreserved c =
     (let b = (of_char c :: nat) in
      (65 \<le> b \<and> b \<le> 90) \<or> (97 \<le> b \<and> b \<le> 122) \<or> (48 \<le> b \<and> b \<le> 57)
      \<or> b = 45 \<or> b = 46 \<or> b = 95 \<or> b = 126)"

fun percent_encode :: "string \<Rightarrow> string" where
  "percent_encode [] = []"
| "percent_encode (c # cs) =
     (if is_unreserved c then [c]
      else let b = (of_char c :: nat) in [CHR ''%'', hex_upper (b div 16), hex_upper (b mod 16)])
     @ percent_encode cs"

definition provisioning_uri ::
  "string \<Rightarrow> string \<Rightarrow> bytes \<Rightarrow> totp_profile \<Rightarrow> totp_error + string" where
  "provisioning_uri issuer account_label seed p =
     and_then (validate_profile p) (\<lambda>_.
     and_then (validate_seed seed) (\<lambda>_.
       let issuer = percent_encode issuer;
           account_label = percent_encode account_label;
           secret = base32_no_padding seed
       in Inr (''otpauth://totp/'' @ issuer @ '':'' @ account_label @ ''?secret='' @ secret
            @ ''&issuer='' @ issuer @ ''&algorithm='' @ as_uri_value (tp_algorithm p)
            @ ''&digits='' @ dec (tp_digits p) @ ''&period='' @ dec (tp_period_seconds p))))"

section \<open>Codes\<close>

lemma validate_profile_Inr:
  "validate_profile p = Inr u \<longleftrightarrow> tp_digits p \<in> {6, 8} \<and> 0 < tp_period_seconds p"
  by (auto simp: validate_profile_def validate_digits_def and_then_Inr_iff)

lemma validate_seed_Inr: "validate_seed seed = Inr u \<longleftrightarrow> MIN_SEED_BYTES \<le> length seed"
  by (auto simp: validate_seed_def)

lemma length_hmac_digest: "hmac_lengths X \<Longrightarrow> 20 \<le> length (hmac_digest X a k d)"
  by (cases a) (simp_all add: hmac_digest_def hmac_lengths_def)

text \<open>The dynamic truncation never leaves the digest: the offset is at most 15.\<close>

lemma hotp_total:
  assumes "hmac_lengths X" and "digits \<in> {6, 8}"
  obtains v where "hotp X seed counter a digits = Inr v" and "v < 10 ^ digits"
proof -
  let ?d = "hmac_digest X a seed (be64 (of_nat counter))"
  have len: "20 \<le> length ?d" by (rule length_hmac_digest [OF assms(1)])
  have off: "unat (b AND 0x0f) < 16" for b :: byte
  proof -
    have "unat (b AND 0x0f) = unat (take_bit 4 b)"
      by (simp add: take_bit_eq_mask mask_eq_exp_minus_1)
    also have "\<dots> = take_bit 4 (unat b)" by (simp add: unsigned_take_bit_eq)
    also have "\<dots> < 16" using take_bit_nat_less_exp [of 4 "unat b"] by simp
    finally show ?thesis .
  qed
  have "\<exists>v. hotp X seed counter a digits = Inr v \<and> v < 10 ^ digits"
    using len assms(2) off [of "?d ! (length ?d - 1)"]
    by (auto simp: hotp_def Let_def index_def validate_digits_def)
  then show ?thesis using that by blast
qed

lemma length_dec_le: "n < 10 ^ k \<Longrightarrow> 0 < k \<Longrightarrow> length (dec n) \<le> k"
proof (induction k arbitrary: n)
  case (Suc k)
  show ?case
  proof (cases "n < 10")
    case True
    then show ?thesis by (subst dec.simps) simp
  next
    case False
    with Suc.prems have "n div 10 < 10 ^ k" by (simp add: less_mult_imp_div_less mult.commute)
    moreover from False Suc.prems have "0 < k" by (cases k) auto
    ultimately have "length (dec (n div 10)) \<le> k" by (rule Suc.IH)
    with False show ?thesis by (subst dec.simps) simp
  qed
qed simp

lemma format_code_valid:
  assumes "v < 10 ^ d" and "0 < d"
  shows "validate_code (format_code v d) d = Inr ()"
proof -
  have "length (dec v) \<le> d" using assms by (rule length_dec_le)
  moreover have "is_ascii_digit CHR ''0''" by (simp add: is_ascii_digit_def)
  ultimately show ?thesis
    by (auto simp: validate_code_def format_code_def list_all_iff dec_digits)
qed

lemma format_code_inject:
  assumes "format_code v d = format_code w d" shows "v = w"
proof -
  have z: "dec_val (replicate k CHR ''0'' @ dec n) = n" for k n
  proof (induction n rule: dec.induct)
    case (1 n)
    have zeros: "dec_val (replicate k CHR ''0'') = 0"
      by (induction k) (simp_all add: dec_val.simps digit_val_def foldl_append)
    show ?case
    proof (cases "n < 10")
      case True
      then show ?thesis
        using zeros by (simp add: dec.simps [of n] dec_val_snoc digit_val_digit_char)
    next
      case False
      then show ?thesis
        using "1.IH" dec_val_snoc [of "replicate k CHR ''0'' @ dec (n div 10)"]
        by (simp add: dec.simps [of n] digit_val_digit_char)
    qed
  qed
  show ?thesis using assms z unfolding format_code_def by metis
qed

section \<open>Verification\<close>

definition code_at :: "externals \<Rightarrow> bytes \<Rightarrow> totp_profile \<Rightarrow> nat \<Rightarrow> string \<Rightarrow> bool" where
  "code_at X seed p step code \<longleftrightarrow>
     (\<exists>v. hotp X seed step (tp_algorithm p) (tp_digits p) = Inr v \<and> format_code v (tp_digits p) = code)"

definition fresh_step :: "nat option \<Rightarrow> nat \<Rightarrow> bool" where
  "fresh_step last_accepted s \<longleftrightarrow> (case last_accepted of None \<Rightarrow> True | Some l \<Rightarrow> l < s)"

lemma verify_candidates_Some:
  "verify_candidates X seed code p la cs = Inr (Some s) \<Longrightarrow>
     s \<in> set cs \<and> fresh_step la s \<and> code_at X seed p s code"
proof (induction cs)
  case (Cons c cs)
  then show ?case
    by (auto simp: fresh_step_def code_at_def and_then_Inr_iff split: if_splits option.splits)
qed simp

lemma verify_candidates_total:
  assumes "hmac_lengths X" and "tp_digits p \<in> {6, 8}"
  shows "\<exists>r. verify_candidates X seed code p la cs = Inr r"
proof (induction cs)
  case (Cons c cs)
  obtain v where "hotp X seed c (tp_algorithm p) (tp_digits p) = Inr v"
    using hotp_total [OF assms] by blast
  with Cons show ?case by simp
qed simp

lemma verify_candidates_None:
  "verify_candidates X seed code p la cs = Inr None \<Longrightarrow>
     s \<in> set cs \<Longrightarrow> fresh_step la s \<Longrightarrow> \<not> code_at X seed p s code"
proof (induction cs)
  case (Cons c cs)
  then show ?case
    by (auto simp: fresh_step_def code_at_def and_then_Inr_iff split: if_splits option.splits)
qed simp

lemma set_flatten: "set (flatten xs) = {x. Some x \<in> set xs}"
  by (induction xs rule: flatten.induct) auto

lemma verify_window:
  "set (flatten [checked_sub c 1, Some c, checked_add_u64 c 1]) =
     {s. s < 2 ^ 64 \<or> s \<le> c} \<inter> {s. c \<le> s + 1 \<and> s \<le> c + 1}"
  unfolding set_flatten by (auto simp: checked_sub_def checked_add_u64_def)

lemma verify_Some:
  assumes "verify X seed t code p la = Inr (Some s)"
  shows "fresh_step la s" and "code_at X seed p s code"
    and "t div tp_period_seconds p \<le> s + 1" and "s \<le> t div tp_period_seconds p + 1"
    and "tp_digits p \<in> {6, 8}" and "0 < tp_period_seconds p" and "MIN_SEED_BYTES \<le> length seed"
proof -
  from assms have v: "tp_digits p \<in> {6, 8}" "0 < tp_period_seconds p" "MIN_SEED_BYTES \<le> length seed"
    and c: "verify_candidates X seed code p la
      (flatten [checked_sub (t div tp_period_seconds p) 1, Some (t div tp_period_seconds p),
         checked_add_u64 (t div tp_period_seconds p) 1]) = Inr (Some s)"
    by (auto simp: verify_def and_then_Inr_iff validate_profile_Inr validate_seed_Inr time_step_def
        simp del: flatten.simps split: if_splits)
  from verify_candidates_Some [OF c] verify_window [of "t div tp_period_seconds p"]
  show "fresh_step la s" "code_at X seed p s code"
    "t div tp_period_seconds p \<le> s + 1" "s \<le> t div tp_period_seconds p + 1"
    by auto
  show "tp_digits p \<in> {6, 8}" "0 < tp_period_seconds p" "MIN_SEED_BYTES \<le> length seed"
    using v by auto
qed

section \<open>Replay protection\<close>

text \<open>The interface that the login and enrolment handlers rely on: a check that, given the last
  accepted step, accepts a later step or nothing. A client of it runs a sequence of attempts and
  stores each accepted step.\<close>

fun accepted_steps :: "('a \<Rightarrow> nat option \<Rightarrow> nat option) \<Rightarrow> nat option \<Rightarrow> 'a list \<Rightarrow> nat list" where
  "accepted_steps check la [] = []"
| "accepted_steps check la (a # as) =
     (case check a la of
        None \<Rightarrow> accepted_steps check la as
      | Some s \<Rightarrow> s # accepted_steps check (Some s) as)"

locale replay_guard =
  fixes check :: "'a \<Rightarrow> nat option \<Rightarrow> nat option"
  assumes later: "check a la = Some s \<Longrightarrow> fresh_step la s"
begin

lemma accepted_later: "s \<in> set (accepted_steps check (Some l) as) \<Longrightarrow> l < s"
proof (induction as arbitrary: l)
  case (Cons a as)
  then show ?case
    by (auto simp: fresh_step_def dest!: later split: option.splits) (meson less_trans)
qed simp

lemma accepted_increasing: "sorted_wrt (<) (accepted_steps check la as)"
proof (induction as arbitrary: la)
  case (Cons a as)
  then show ?case by (auto split: option.splits dest: accepted_later)
qed simp

lemma accepted_distinct: "distinct (accepted_steps check la as)"
  using accepted_increasing by (simp add: strict_sorted_iff)

end

definition totp_check ::
  "externals \<Rightarrow> bytes \<Rightarrow> totp_profile \<Rightarrow> nat \<times> string \<Rightarrow> nat option \<Rightarrow> nat option" where
  "totp_check X seed p a la = (case a of (t, code) \<Rightarrow> Option.bind (ok (verify X seed t code p la)) id)"

lemma totp_check_Some: "totp_check X seed p (t, code) la = Some s \<longleftrightarrow> verify X seed t code p la = Inr (Some s)"
  by (auto simp: totp_check_def Option.bind_eq_Some_conv)

interpretation totp: replay_guard "totp_check X seed p" for X seed p
proof unfold_locales
  fix a :: "nat \<times> string" and la s
  assume "totp_check X seed p a la = Some s"
  then show "fresh_step la s" by (cases a) (auto simp: totp_check_Some dest: verify_Some(1))
qed

section \<open>Percent encoding\<close>

definition hex_val :: "char \<Rightarrow> nat" where
  "hex_val c = (if (of_char c :: nat) < 65 then of_char c - 48 else of_char c - 55)"

fun percent_decode :: "string \<Rightarrow> string" where
  "percent_decode [] = []"
| "percent_decode (c # cs) =
     (if c = CHR ''%''
      then (case cs of
              h # l # r \<Rightarrow> char_of (16 * hex_val h + hex_val l) # percent_decode r
            | _ \<Rightarrow> [])
      else c # percent_decode cs)"

lemma of_char_hex_upper: "d < 16 \<Longrightarrow> (of_char (hex_upper d) :: nat) = (if d < 10 then 48 + d else 55 + d)"
  by (simp add: hex_upper_def)

lemma hex_val_upper: "d < 16 \<Longrightarrow> hex_val (hex_upper d) = d"
  by (simp add: hex_val_def of_char_hex_upper)

lemma percent_decode_encode: "percent_decode (percent_encode s) = s"
proof (induction s)
  case (Cons c cs)
  have "(of_char c :: nat) < 256" by (rule nat_of_char_less_256)
  then have "char_of (16 * hex_val (hex_upper (of_char c div 16)) + hex_val (hex_upper (of_char c mod 16))) = c"
    by (simp add: hex_val_upper less_mult_imp_div_less)
  with Cons show ?case by (auto simp: Let_def)
qed simp

lemma percent_encode_inject: "percent_encode s = percent_encode t \<longleftrightarrow> s = t"
  by (metis percent_decode_encode)

lemma percent_encode_chars:
  "c \<in> set (percent_encode s) \<Longrightarrow> is_unreserved c \<or> c = CHR ''%''"
proof (induction s)
  case (Cons d ds)
  have "(of_char d :: nat) < 256" by (rule nat_of_char_less_256)
  then have "(of_char d :: nat) div 16 < 16" by (simp add: less_mult_imp_div_less)
  then have "is_unreserved (hex_upper (of_char d div 16))" "is_unreserved (hex_upper (of_char d mod 16))"
    by (auto simp: of_char_hex_upper Let_def)
  with Cons show ?case by (auto simp: Let_def simp del: is_unreserved.simps split: if_splits)
qed simp

section \<open>The provisioning URI\<close>

lemma marker_not_unreserved:
  "x \<in> {CHR '':'', CHR ''?'', CHR ''&''} \<Longrightarrow> x \<notin> set (percent_encode s)"
  using percent_encode_chars [of x s] by (auto simp: Let_def)

lemma amp_not_in_secret: "CHR ''&'' \<notin> set (base32_no_padding seed)"
  using base32_chars [of "CHR ''&''" seed] by (auto simp: ALPHABET_def)

lemma amp_not_in_dec: "CHR ''&'' \<notin> set (dec n)"
  using dec_digits [of "CHR ''&''" n] by (auto simp: is_ascii_digit_def)

lemma amp_not_in_algorithm: "CHR ''&'' \<notin> set (as_uri_value a)"
  by (cases a) simp_all

lemma as_uri_value_inject: "as_uri_value a = as_uri_value b \<longleftrightarrow> a = b"
  by (cases a; cases b) simp_all

lemmas amp_free = amp_not_in_secret amp_not_in_dec amp_not_in_algorithm

lemma provisioning_uri_Inr:
  "provisioning_uri issuer label seed p = Inr uri \<longleftrightarrow>
     tp_digits p \<in> {6, 8} \<and> 0 < tp_period_seconds p \<and> MIN_SEED_BYTES \<le> length seed
     \<and> uri = ''otpauth://totp/'' @ percent_encode issuer @ CHR '':'' # percent_encode label
         @ CHR ''?'' # ''secret='' @ base32_no_padding seed
         @ CHR ''&'' # ''issuer='' @ percent_encode issuer
         @ CHR ''&'' # ''algorithm='' @ as_uri_value (tp_algorithm p)
         @ CHR ''&'' # ''digits='' @ dec (tp_digits p)
         @ CHR ''&'' # ''period='' @ dec (tp_period_seconds p)"
  by (auto simp: provisioning_uri_def and_then_Inr_iff validate_profile_Inr validate_seed_Inr Let_def)

lemma provisioning_uri_fields:
  assumes "provisioning_uri i a seed p = Inr uri" and "provisioning_uri j b seed' q = Inr uri"
  shows "i = j \<and> a = b \<and> seed = seed' \<and> p = (q :: totp_profile)"
proof -
  have colon: "CHR '':'' \<notin> set (percent_encode s)" and quest: "CHR ''?'' \<notin> set (percent_encode s)"
    and amp: "CHR ''&'' \<notin> set (percent_encode s)" for s
    using marker_not_unreserved by auto
  from assms have "percent_encode i = percent_encode j \<and> percent_encode a = percent_encode b
      \<and> base32_no_padding seed = base32_no_padding seed'
      \<and> as_uri_value (tp_algorithm p) = as_uri_value (tp_algorithm q)
      \<and> dec (tp_digits p) = dec (tp_digits q) \<and> dec (tp_period_seconds p) = dec (tp_period_seconds q)"
    by (simp add: provisioning_uri_Inr append_marker_inject colon quest amp amp_free)
  then show ?thesis
    by (simp add: percent_encode_inject base32_inject as_uri_value_inject)
qed

section \<open>Properties\<close>

text \<open>C22. A code is accepted exactly when some step of the three-step window (the current
  period, the one before and the one after) that lies after the last accepted step has that code;
  an accepted step is such a step. With a well-formed profile, seed and code, verification never
  fails and never leaves the digest's bounds.\<close>

theorem totp_verify_exact:
  assumes "hmac_lengths X" and "tp_digits p \<in> {6, 8}" and "0 < tp_period_seconds p"
    and "MIN_SEED_BYTES \<le> length seed" and "validate_code code (tp_digits p) = Inr ()"
    and "t < 2 ^ 64"
  shows "case verify X seed t code p la of
      Inl e \<Rightarrow> False
    | Inr (Some s) \<Rightarrow> s \<in> {t div tp_period_seconds p - 1..t div tp_period_seconds p + 1}
        \<and> fresh_step la s \<and> code_at X seed p s code
    | Inr None \<Rightarrow> \<forall>s \<in> {t div tp_period_seconds p - 1..t div tp_period_seconds p + 1}.
        s < 2 ^ 64 \<and> fresh_step la s \<longrightarrow> \<not> code_at X seed p s code"
proof -
  let ?c = "t div tp_period_seconds p"
  let ?cs = "flatten [checked_sub ?c 1, Some ?c, checked_add_u64 ?c 1]"
  have run: "verify X seed t code p la = verify_candidates X seed code p la ?cs"
    using assms validate_profile_Inr [of p "()"] validate_seed_Inr [of seed "()"]
    by (simp add: verify_def time_step_def del: flatten.simps)
  obtain r where r: "verify_candidates X seed code p la ?cs = Inr r"
    using verify_candidates_total [OF assms(1,2)] by blast
  show ?thesis
  proof (cases r)
    case None
    have none: "verify_candidates X seed code p la ?cs = Inr None" using r None by simp
    have "\<not> code_at X seed p s code"
      if "s \<in> {?c - 1..?c + 1}" "s < 2 ^ 64" "fresh_step la s" for s
    proof -
      have "s \<in> set ?cs" unfolding verify_window using that by auto
      then show ?thesis using that(3) by (rule verify_candidates_None [OF none])
    qed
    then show ?thesis unfolding run none by simp
  next
    case (Some s)
    with r have "verify X seed t code p la = Inr (Some s)" by (simp add: run)
    from verify_Some [OF this] show ?thesis unfolding run r Some by auto
  qed
qed

lemma sample_hotp:
  "hotp sample (replicate 20 0) (Suc 0) Sha1 6 = Inr 0"
  by (simp add: hotp_def validate_digits_def hmac_digest_def sample_def take_pad_def index_def)

lemma sample_code: "format_code 0 6 = ''000000''"
proof -
  have "dec 0 = ''0''" by code_simp
  then show ?thesis by (simp add: format_code_def numeral_eq_Suc)
qed

theorem totp_verify_exact_witness:
  "\<exists>s. verify sample (replicate 20 0) 59 ''000000'' google_authenticator_default (Some 0) = Inr (Some s)
     \<and> s \<in> {0..2} \<and> fresh_step (Some 0) s"
proof -
  let ?g = google_authenticator_default
  have shape: "validate_code ''000000'' (tp_digits ?g) = Inr ()"
    using format_code_valid [of 0 6] by (simp add: sample_code google_authenticator_default_def)
  have code: "code_at sample (replicate 20 0) ?g 1 ''000000''"
    by (simp add: code_at_def google_authenticator_default_def sample_hotp sample_code)
  have fresh: "fresh_step (Some 0) 1" by (simp add: fresh_step_def)
  have step: "59 div tp_period_seconds ?g = 1" by (simp add: google_authenticator_default_def)
  have "tp_digits ?g \<in> {6, 8}" and "0 < tp_period_seconds ?g"
    and "MIN_SEED_BYTES \<le> length (replicate 20 (0 :: byte))" and "(59 :: nat) < 2 ^ 64"
    by (simp_all add: google_authenticator_default_def MIN_SEED_BYTES_def)
  note exact = totp_verify_exact [OF sample_hmac this(1-3) shape this(4), of "Some 0", unfolded step]
  show ?thesis
  proof (cases "verify sample (replicate 20 0) 59 ''000000'' ?g (Some 0)")
    case (Inr r)
    with exact code fresh show ?thesis by (cases r) auto
  qed (use exact in simp)
qed

text \<open>A code of a step within the window that was not accepted before is accepted.\<close>

lemma window_code_verifies:
  assumes "hmac_lengths X" and "tp_digits p \<in> {6, 8}" and "0 < tp_period_seconds p" and "MIN_SEED_BYTES \<le> length seed"
    and "t div tp_period_seconds p \<le> s + 1" and "s \<le> t div tp_period_seconds p + 1"
    and "s < 2 ^ 64 \<or> s \<le> t div tp_period_seconds p" and "code_at X seed p s code" and "fresh_step la s"
  shows "validate_code code (tp_digits p) = Inr ()" and "\<exists>s'. verify X seed t code p la = Inr (Some s')"
proof -
  let ?c = "t div tp_period_seconds p"
  let ?cs = "flatten [checked_sub ?c 1, Some ?c, checked_add_u64 ?c 1]"
  obtain v where v: "hotp X seed s (tp_algorithm p) (tp_digits p) = Inr v" "code = format_code v (tp_digits p)"
    using assms(8) by (auto simp: code_at_def)
  obtain v' where "hotp X seed s (tp_algorithm p) (tp_digits p) = Inr v'" "v' < 10 ^ tp_digits p"
    using hotp_total [OF assms(1,2)] by blast
  with v assms(2) show shape: "validate_code code (tp_digits p) = Inr ()" by (auto intro: format_code_valid)
  have run: "verify X seed t code p la = verify_candidates X seed code p la ?cs"
    using assms(2-4) shape validate_profile_Inr [of p "()"] validate_seed_Inr [of seed "()"]
    by (simp add: verify_def time_step_def del: flatten.simps)
  obtain r where r: "verify_candidates X seed code p la ?cs = Inr r"
    using verify_candidates_total [OF assms(1,2)] by blast
  have "s \<in> set ?cs" unfolding verify_window using assms(5-7) by auto
  then have "r \<noteq> None"
    using verify_candidates_None [of X seed code p la ?cs s] assms(8,9) r by (cases r) auto
  then show "\<exists>s'. verify X seed t code p la = Inr (Some s')" unfolding run r by (cases r) auto
qed

text \<open>The code that an authenticator shows is accepted: whatever \<open>generate\<close> produces for the
  current time has the right shape and is accepted at that time, unless the current step was
  used before.\<close>

theorem totp_generated_code_verifies:
  assumes "hmac_lengths X" and "generate X seed t p = Inr code"
    and "fresh_step la (t div tp_period_seconds p)"
  shows "validate_code code (tp_digits p) = Inr () \<and> (\<exists>s. verify X seed t code p la = Inr (Some s))"
proof -
  from assms(2) have p: "tp_digits p \<in> {6, 8}" "0 < tp_period_seconds p" "MIN_SEED_BYTES \<le> length seed"
    and "code_at X seed p (t div tp_period_seconds p) code"
    by (auto simp: generate_def and_then_Inr_iff validate_profile_Inr validate_seed_Inr time_step_def code_at_def)
  with window_code_verifies [OF assms(1) p, of t "t div tp_period_seconds p" code la] assms(3) show ?thesis by simp
qed

theorem totp_generated_code_verifies_witness:
  "validate_code ''000000'' 6 = Inr () \<and> (\<exists>s. verify sample (replicate 20 0) 59 ''000000''
     google_authenticator_default (Some 0) = Inr (Some s))"
proof -
  let ?g = google_authenticator_default
  have g: "generate sample (replicate 20 0) 59 ?g = Inr ''000000''"
    by (simp add: generate_def validate_profile_def validate_digits_def validate_seed_def time_step_def
        google_authenticator_default_def MIN_SEED_BYTES_def sample_hotp sample_code)
  have "fresh_step (Some 0) (59 div tp_period_seconds ?g)"
    by (simp add: fresh_step_def google_authenticator_default_def)
  from totp_generated_code_verifies [OF sample_hmac g this]
  show ?thesis by (simp add: google_authenticator_default_def)
qed

text \<open>C21. No replay: over any sequence of verification attempts in which each accepted step is
  stored as the last accepted one, as the handlers do, the accepted steps strictly increase. A
  step is therefore accepted at most once, and accepting a step burns all earlier ones.\<close>

theorem totp_steps_never_replayed:
  "sorted_wrt (<) (accepted_steps (totp_check X seed p) la attempts)
   \<and> distinct (accepted_steps (totp_check X seed p) la attempts)"
  by (rule conjI [OF totp.accepted_increasing totp.accepted_distinct])

text \<open>The provisioning URI is unambiguous: issuer, account label, seed and profile can all be
  read back from it, so no issuer or account label can change the secret or the parameters that
  the authenticator imports.\<close>

theorem provisioning_uri_injective:
  assumes "provisioning_uri i a seed p = Inr uri" and "provisioning_uri j b seed' q = Inr uri"
  shows "i = j \<and> a = b \<and> seed = seed' \<and> p = (q :: totp_profile)"
  using assms by (rule provisioning_uri_fields)

theorem provisioning_uri_injective_witness:
  "\<exists>uri. provisioning_uri ''Password Vault'' ''ann'' (replicate 20 0) google_authenticator_default = Inr uri
     \<and> ''ann'' = to_ascii_lowercase ''Ann''"
proof -
  have "\<exists>uri. provisioning_uri ''Password Vault'' ''ann'' (replicate 20 0) google_authenticator_default = Inr uri"
    by (simp add: provisioning_uri_def validate_profile_def validate_digits_def validate_seed_def
        google_authenticator_default_def MIN_SEED_BYTES_def Let_def)
  then obtain uri where u: "provisioning_uri ''Password Vault'' ''ann'' (replicate 20 0)
      google_authenticator_default = Inr uri" by blast
  have "to_ascii_lowercase ''Ann'' = ''ann''" by code_simp
  with u have "provisioning_uri ''Password Vault'' (to_ascii_lowercase ''Ann'') (replicate 20 0)
      google_authenticator_default = Inr uri" by simp
  from provisioning_uri_injective [OF u this] u show ?thesis by blast
qed

end
