(* ===== verification/PV_Mfa.thy ===== *)
theory PV_Mfa
  imports PV_Recovery PV_Totp
begin

text \<open>
  TOTP as a second factor in \<^verbatim>\<open>crates/api/src/auth/routes.rs\<close>: custody of the encrypted
  seeds, the check of a code against a stored factor, and the handler \<open>totp_verify\<close>.
\<close>

section \<open>Constants\<close>

definition TOTP_ISSUER :: string where
  "TOTP_ISSUER = ''Password Vault''"

definition TOTP_SEED_BYTES :: nat where
  "TOTP_SEED_BYTES = 20"

definition TOTP_SEED_AEAD :: string where
  "TOTP_SEED_AEAD = ''xchacha20poly1305-v1''"

definition TOTP_SEED_KEY_ID :: string where
  "TOTP_SEED_KEY_ID = ''app-totp-seed-key-v1''"

definition XCHACHA20POLY1305_NONCE_BYTES :: nat where
  "XCHACHA20POLY1305_NONCE_BYTES = 24"

section \<open>TOTP factors\<close>

definition ensure_totp_enrollment_session :: "current_session \<Rightarrow> api_error + unit" where
  "ensure_totp_enrollment_session s =
     (if cs_session_state s = ''mfa_enrollment_required'' \<or> cs_session_state s = ''mfa_recovery''
      then Inr () else Inl MfaRequired)"

definition totp_profile_from_row :: "totp_factor_row \<Rightarrow> api_error + totp_profile" where
  "totp_profile_from_row f =
     and_then (if tf_algorithm f = ''SHA1'' then Inr Sha1
               else if tf_algorithm f = ''SHA256'' then Inr Sha256
               else if tf_algorithm f = ''SHA512'' then Inr Sha512
               else Inl ServiceUnavailable) (\<lambda>algorithm.
     if tf_digits f < 0 \<or> tf_period_seconds f < 0 then Inl ServiceUnavailable
     else Inr \<lparr>tp_algorithm = algorithm, tp_digits = nat (tf_digits f),
                 tp_period_seconds = nat (tf_period_seconds f)\<rparr>)"

definition totp_seed_aad :: "externals \<Rightarrow> uuid \<Rightarrow> uuid \<Rightarrow> totp_profile \<Rightarrow> bytes" where
  "totp_seed_aad X account_id factor_id p =
     as_bytes ''password-vault/totp-seed/v1'' @ [0]
     @ uuid_bytes X account_id @ [0]
     @ uuid_bytes X factor_id @ [0]
     @ as_bytes TOTP_SEED_KEY_ID @ [0]
     @ as_bytes (as_uri_value (tp_algorithm p)) @ [0]
     @ be32 (of_nat (tp_digits p)) @ [0]
     @ be64 (of_nat (tp_period_seconds p))"

definition encrypt_totp_seed :: "externals \<Rightarrow> bytes \<Rightarrow> bytes \<Rightarrow> bytes \<Rightarrow> bytes \<Rightarrow> api_error + bytes" where
  "encrypt_totp_seed X key nonce aad seed =
     ok_or ServiceUnavailable (xchacha_encrypt X key nonce aad seed)"

definition decrypt_totp_seed :: "externals \<Rightarrow> bytes \<Rightarrow> bytes \<Rightarrow> bytes \<Rightarrow> bytes \<Rightarrow> api_error + bytes" where
  "decrypt_totp_seed X key nonce aad ciphertext =
     (if length nonce \<noteq> XCHACHA20POLY1305_NONCE_BYTES then Inl ServiceUnavailable
      else ok_or ServiceUnavailable (xchacha_decrypt X key nonce aad ciphertext))"

text \<open>\<open>u64::try_from\<close> on the stored step and \<open>i64::try_from\<close> on an accepted one.\<close>

definition stored_step :: "totp_factor_row \<Rightarrow> api_error + nat option" where
  "stored_step f =
     (case tf_last_accepted_step f of
        None \<Rightarrow> Inr None
      | Some s \<Rightarrow> if 0 \<le> s then Inr (Some (nat s)) else Inl ServiceUnavailable)"

definition step_column :: "nat \<Rightarrow> api_error + int" where
  "step_column s = (if s < 2 ^ 63 then Inr (int s) else Inl ServiceUnavailable)"

text \<open>Reading a factor's seed and checking a code against it, as both \<open>totp_verify\<close> and
  \<open>totp_enroll_confirm\<close> do: the errors of \<open>totp::verify\<close> count as a wrong code.\<close>

definition check_totp_code ::
  "externals \<Rightarrow> bytes \<Rightarrow> uuid \<Rightarrow> totp_factor_row \<Rightarrow> totp_profile \<Rightarrow> string \<Rightarrow> time \<Rightarrow> api_error + nat option" where
  "check_totp_code X key account_id f profile code now =
     (if tf_seed_key_id f \<noteq> TOTP_SEED_KEY_ID \<or> tf_seed_aead f \<noteq> TOTP_SEED_AEAD then Inl ServiceUnavailable
      else
        and_then (stored_step f) (\<lambda>last_accepted_step.
        and_then (decrypt_totp_seed X key (tf_seed_nonce f)
          (totp_seed_aad X account_id (tf_id f) profile) (tf_seed_ciphertext f)) (\<lambda>seed.
        and_then (unix_time_seconds now) (\<lambda>t.
        Inr (Option.bind (ok (verify X seed t code profile last_accepted_step)) id)))))"

section \<open>Statements on factors\<close>

definition verified_factor :: "uuid \<Rightarrow> db \<Rightarrow> totp_factor_row option" where
  "verified_factor account_id d =
     find (\<lambda>f. tf_account_id f = account_id \<and> tf_verified_at f \<noteq> None) (totp_factors d)"

definition set_last_step :: "uuid \<Rightarrow> int \<Rightarrow> db \<Rightarrow> db" where
  "set_last_step factor_id s d = d\<lparr>totp_factors :=
     update_where (\<lambda>f. tf_id f = factor_id) (\<lambda>f. f\<lparr>tf_last_accepted_step := Some s\<rparr>) (totp_factors d)\<rparr>"

section \<open>Verifying a login's second factor\<close>

definition totp_login_challenge :: "uuid \<Rightarrow> time \<Rightarrow> db \<Rightarrow> challenge_row option" where
  "totp_login_challenge challenge_id now d =
     find (open_challenge ''pre_mfa'' challenge_id now) (auth_challenges d)"

text \<open>A wrong code: the attempt is counted, audited and committed.\<close>

definition totp_login_failed :: "uuid \<Rightarrow> uuid \<Rightarrow> uuid \<Rightarrow> time \<Rightarrow> (api_error, 'a) io" where
  "totp_login_failed challenge_id account_id factor_id now =
     try_io ask (\<lambda>e.
     try_io (increment_challenge_attempts challenge_id now) (\<lambda>_.
     try_io (insert_audit_event account_id None ''mfa_totp_login_failed''
       (JObj [(''factor_id'', JStr (uuid_text (ext e) factor_id))])) (\<lambda>_.
     try_io (unavailable commit_tx) (\<lambda>_.
     try_io (mfa_event ''totp_login'' ''failed'') (\<lambda>_.
     throw MfaVerificationFailed)))))"

definition totp_login_accepted ::
  "uuid \<Rightarrow> uuid \<Rightarrow> uuid \<Rightarrow> validated_device \<Rightarrow> nat \<Rightarrow> time
   \<Rightarrow> (api_error, (string \<times> session_response) response) io" where
  "totp_login_accepted challenge_id account_id factor_id device accepted_step now =
     try_io ask (\<lambda>e.
     try_io (create_session_with_device account_id device ''mfa_verified'' now)
       (\<lambda>(device_id, session_token, idle_expires_at, absolute_expires_at).
     try_io (lift (step_column accepted_step)) (\<lambda>s.
     try_io (tx_call (command (\<lambda>_ d. Inr (set_last_step factor_id s d)))) (\<lambda>_.
     try_io (consume_auth_challenge challenge_id now) (\<lambda>_.
     try_io (insert_audit_event account_id (Some device_id) ''mfa_totp_login_verified''
       (JObj [(''factor_id'', JStr (uuid_text (ext e) factor_id))])) (\<lambda>_.
     try_io (unavailable commit_tx) (\<lambda>_.
     try_io (mfa_event ''totp_login'' ''verified'') (\<lambda>_.
     try_io (session_event ''created'' ''mfa_verified'') (\<lambda>_.
     try_io (format_rfc3339 idle_expires_at) (\<lambda>idle.
     try_io (format_rfc3339 absolute_expires_at) (\<lambda>absolute.
     try_io (header_value (session_cookie (ext e) session_token)) (\<lambda>cookie.
     ret ((no_store_json 200 (''session_created'',
       \<lparr>sr_state = ''mfa_verified'', sr_vault_access = True,
        sr_idle_expires_at = idle, sr_absolute_expires_at = absolute\<rparr>))\<lparr>rs_set_cookie := Some cookie\<rparr>)))))))))))))"

definition totp_verify_tx ::
  "uuid \<Rightarrow> string \<Rightarrow> bytes \<Rightarrow> time \<Rightarrow> (api_error, (string \<times> session_response) response) io" where
  "totp_verify_tx mfa_challenge_id code totp_seed_key now =
     try_io ask (\<lambda>e.
     try_io (tx_call (query (totp_login_challenge mfa_challenge_id now))) (\<lambda>challenge.
     case challenge of
       None \<Rightarrow> try_io (mfa_event ''totp_login'' ''challenge_unavailable'') (\<lambda>_. throw MfaVerificationFailed)
     | Some c \<Rightarrow>
         try_io (lift (ok_or ServiceUnavailable (ch_account_id c))) (\<lambda>account_id.
         if ch_attempts c \<ge> MFA_CHALLENGE_MAX_ATTEMPTS
         then try_io (mfa_event ''totp_login'' ''attempts_exhausted'') (\<lambda>_. throw MfaVerificationFailed)
         else
         try_io (lift (decode_pre_mfa_challenge_metadata (ext e) (ch_public_metadata c))) (\<lambda>metadata.
         try_io (lift (into_validated (ext e) (pm_device metadata))) (\<lambda>device.
         try_io (tx_call (query (verified_factor account_id))) (\<lambda>factor.
         case factor of
           None \<Rightarrow> try_io (mfa_event ''totp_login'' ''factor_unavailable'') (\<lambda>_. throw MfaVerificationFailed)
         | Some f \<Rightarrow>
             try_io (lift (totp_profile_from_row f)) (\<lambda>profile.
             try_io (lift (check_totp_code (ext e) totp_seed_key account_id f profile code now)) (\<lambda>accepted.
             case accepted of
               None \<Rightarrow> totp_login_failed (ch_id c) account_id (tf_id f) now
             | Some s \<Rightarrow> totp_login_accepted (ch_id c) account_id (tf_id f) device s now))))))))"

definition totp_verify ::
  "headers \<Rightarrow> uuid \<Rightarrow> string \<Rightarrow> (api_error, (string \<times> session_response) response) io" where
  "totp_verify h mfa_challenge_id code = handler (
     try_io (lift (ensure_unsafe_request_context h)) (\<lambda>_.
     try_io database_pool (\<lambda>_.
     try_io ask (\<lambda>e.
     try_io (lift (ok_or ServiceUnavailable (cf_totp_seed_key (conf e)))) (\<lambda>totp_seed_key.
     try_io now_utc_second (\<lambda>now.
     try_io (unavailable begin_tx) (\<lambda>_.
     totp_verify_tx mfa_challenge_id code totp_seed_key now)))))))"

section \<open>Seeds are bound to their factor\<close>

text \<open>Documented behaviour of the uuid crate: a UUID is 16 bytes, and different UUIDs have
  different bytes.\<close>

definition uuid_bytes_fixed :: "externals \<Rightarrow> bool" where
  "uuid_bytes_fixed X \<longleftrightarrow> (\<forall>u. length (uuid_bytes X u) = 16) \<and> inj (uuid_bytes X)"

lemma zero_not_in_algorithm: "0 \<notin> set (as_bytes (as_uri_value a))"
  by (cases a) (simp_all add: as_bytes_def)

lemma be32_inject: "be32 a = be32 b \<longleftrightarrow> a = b"
proof
  assume eq: "be32 a = be32 b"
  have "bit a n = bit b n" if "n < 32" for n
  proof -
    from eq have *: "(ucast (drop_bit i a) :: byte) = ucast (drop_bit i b)"
      if "i \<in> {24, 16, 8, 0}" for i using that by (auto simp: be32_def)
    have "n - n mod 8 \<in> {24, 16, 8, 0}" using that unfolding insert_iff empty_iff by presburger
    from arg_cong [OF * [OF this], of "\<lambda>w. bit w (n mod 8)"] show ?thesis
      by (simp add: bit_simps) 
  qed
  then show "a = b" by (intro bit_word_eqI) simp
qed simp

lemma be64_inject: "be64 a = be64 b \<longleftrightarrow> a = b"
proof
  assume eq: "be64 a = be64 b"
  have "bit a n = bit b n" if "n < 64" for n
  proof -
    from eq have *: "(ucast (drop_bit i a) :: byte) = ucast (drop_bit i b)"
      if "i \<in> {56, 48, 40, 32, 24, 16, 8, 0}" for i using that by (auto simp: be64_def)
    have "n div 8 < 8" using that by simp
    then have "n div 8 \<in> {7, 6, 5, 4, 3, 2, 1, 0}" unfolding insert_iff empty_iff by linarith
    then have "n - n mod 8 \<in> {56, 48, 40, 32, 24, 16, 8, 0}" by (auto simp: minus_mod_eq_mult_div)
    from arg_cong [OF * [OF this], of "\<lambda>w. bit w (n mod 8)"] show ?thesis
      by (simp add: bit_simps)
  qed
  then show "a = b" by (intro bit_word_eqI) simp
qed simp


lemma length_be64: "length (be64 u) = length (be64 v)"
  by (simp add: be64_def)

lemma sample_uuid_bytes: "uuid_bytes_fixed sample"
proof -
  have "u = v" if "uuid_bytes sample u = uuid_bytes sample v" for u v :: uuid
  proof (rule bit_word_eqI)
    have halves: "ucast (drop_bit 64 u) = (ucast (drop_bit 64 v) :: 64 word)" "ucast u = (ucast v :: 64 word)"
      using that length_be64 by (simp_all add: sample_def be64_inject)
    fix n :: nat assume n: "n < LENGTH(128)"
    show "bit u n \<longleftrightarrow> bit v n"
    proof (cases "n < 64")
      case True
      then show ?thesis using arg_cong [OF halves(2), of "\<lambda>w. bit w n"] by (simp add: bit_simps)
    next
      case False
      with n have "n - 64 < 64" by simp
      then show ?thesis
        using False n arg_cong [OF halves(1), of "\<lambda>w. bit w (n - 64)"] by (simp add: bit_simps)
    qed
  qed
  moreover have "length (uuid_bytes sample u) = 16" for u by (simp add: sample_def be64_def)
  ultimately show ?thesis by (simp add: uuid_bytes_fixed_def inj_def)
qed


section \<open>What the second factor of a login does\<close>

definition totp_effect :: "uuid \<Rightarrow> uuid \<Rightarrow> uuid \<Rightarrow> nat \<Rightarrow> time \<Rightarrow> db \<Rightarrow> db \<Rightarrow> bool" where
  "totp_effect a i factor_id s now d d' \<longleftrightarrow>
     totp_factors d' = totp_factors (set_last_step factor_id (int s) d)
     \<and> auth_challenges d' = auth_challenges (set_consumed i now d)
     \<and> recovery_codes d' = recovery_codes d \<and> session_added a ''mfa_verified'' d d'"

definition totp_accepted :: "externals \<Rightarrow> bytes \<Rightarrow> uuid \<Rightarrow> string \<Rightarrow> db \<Rightarrow> db \<Rightarrow> bool" where
  "totp_accepted X key i code d d' \<longleftrightarrow>
     (\<exists>now c a f p s. find (open_challenge ''pre_mfa'' i now) (auth_challenges d) = Some c
       \<and> ch_account_id c = Some a \<and> ch_attempts c < MFA_CHALLENGE_MAX_ATTEMPTS
       \<and> verified_factor a d = Some f \<and> totp_profile_from_row f = Inr p
       \<and> check_totp_code X key a f p code now = Inr (Some s)
       \<and> totp_effect a i (tf_id f) s now d d')"

lemma set_last_step_simps [simp]:
  "accounts (set_last_step i s d) = accounts d" "sessions (set_last_step i s d) = sessions d"
  "devices (set_last_step i s d) = devices d" "auth_challenges (set_last_step i s d) = auth_challenges d"
  "recovery_codes (set_last_step i s d) = recovery_codes d"
  by (simp_all add: set_last_step_def)

lemma set_last_step_cong:
  "totp_factors d = totp_factors d2 \<Longrightarrow>
     totp_factors (set_last_step i s d) = totp_factors (set_last_step i s d2)"
  by (simp add: set_last_step_def)

text \<open>An accepted code is the code of a step that the factor has not accepted yet, computed from
  the seed that decrypts under the factor's own additional data.\<close>

lemma check_totp_code_Some:
  assumes "check_totp_code X key a f p code now = Inr (Some s)"
  shows "(\<exists>seed t. xchacha_decrypt X key (tf_seed_nonce f) (totp_seed_aad X a (tf_id f) p) (tf_seed_ciphertext f)
        = Some seed \<and> unix_time_seconds now = Inr t
        \<and> verify X seed t code p (map_option nat (tf_last_accepted_step f)) = Inr (Some s))
    \<and> (\<forall>l. tf_last_accepted_step f = Some l \<longrightarrow> l < int s)"
proof -
  from assms obtain la seed t where la: "stored_step f = Inr la"
    and seed: "xchacha_decrypt X key (tf_seed_nonce f) (totp_seed_aad X a (tf_id f) p) (tf_seed_ciphertext f) = Some seed"
    and t: "unix_time_seconds now = Inr t" and v: "verify X seed t code p la = Inr (Some s)"
    by (auto simp: check_totp_code_def and_then_Inr_iff decrypt_totp_seed_def bind_eq_Some_conv
        split: if_splits)
  have fresh: "fresh_step la s" using verify_Some [OF v] by simp
  from la have "la = map_option nat (tf_last_accepted_step f)"
    and "\<forall>l. tf_last_accepted_step f = Some l \<longrightarrow> 0 \<le> l"
    by (auto simp: stored_step_def split: option.splits if_splits)
  with seed t v fresh show ?thesis by (auto simp: fresh_step_def)
qed

lemma wp_totp_failed:
  assumes "w_txn w = Some (d, t)" and "find (open_challenge ''pre_mfa'' i now) (auth_challenges d) = Some c"
    and "ch_attempts c < MFA_CHALLENGE_MAX_ATTEMPTS"
  shows "wp e (totp_login_failed i a factor_id now) Q
     (\<lambda>_ w'. w_db w' = w_db w \<or> mfa_rejected i d (w_db w')) w"
  unfolding totp_login_failed_def increment_challenge_attempts_def telemetry_defs counter_def
    mfa_rejected_def
  by (intro vc_rules wp_audit_event) (use assms in \<open>auto simp: same_state_def\<close>)

lemma wp_totp_accepted:
  assumes "w_txn w = Some (d, t)"
  shows "wp e (totp_login_accepted i a factor_id dv s now)
     (\<lambda>_ w'. totp_effect a i factor_id s now d (w_db w'))
     (\<lambda>_ w'. w_db w' = w_db w \<or> totp_effect a i factor_id s now d (w_db w')) w"
  unfolding totp_login_accepted_def consume_auth_challenge_def telemetry_defs counter_def
    totp_effect_def step_column_def
  by (intro vc_rules wp_create_session wp_audit_event)
    (use assms in \<open>auto simp: same_state_def session_added_def split: if_splits
       intro: set_consumed_cong set_last_step_cong\<close>)

lemma totp_accepted_intro:
  assumes "totp_effect a i (tf_id f) s now d d'"
    and "totp_login_challenge i now d = Some c"
    and "ch_account_id c = Some a" and "\<not> MFA_CHALLENGE_MAX_ATTEMPTS \<le> ch_attempts c"
    and "verified_factor a d = Some f" and "totp_profile_from_row f = Inr p"
    and "check_totp_code X key a f p code now = Inr (Some s)"
  shows "totp_accepted X key i code d d'"
  using assms unfolding totp_accepted_def totp_login_challenge_def not_le by blast

lemma totp_challenge_id: "totp_login_challenge i now d = Some c \<Longrightarrow> ch_id c = i"
  unfolding totp_login_challenge_def by (rule pre_mfa_id)

lemma wp_totp_verify_tx:
  assumes "w_txn w = Some (w_db w, t)"
  shows "wp e (totp_verify_tx i code key now)
     (\<lambda>_ w'. totp_accepted (ext e) key i code (w_db w) (w_db w'))
     (\<lambda>_ w'. w_db w' = w_db w \<or> mfa_rejected i (w_db w) (w_db w')
        \<or> totp_accepted (ext e) key i code (w_db w) (w_db w')) w"
proof -
  note parts = wp_mono [OF wp_totp_failed [where d = "w_db w" and t = t]]
    wp_mono [OF wp_totp_accepted [where d = "w_db w" and t = t]]
  show ?thesis
    unfolding totp_verify_tx_def telemetry_defs counter_def
    apply (intro vc_rules parts)
    apply (use assms in \<open>simp_all add: same_state_def totp_challenge_id\<close>)
    apply (auto intro: totp_accepted_intro simp: totp_challenge_id totp_login_challenge_def)
    done
qed

lemma wp_totp_verify:
  assumes "w_txn w = None"
  shows "wp e (totp_verify h i code)
     (\<lambda>_ w'. ensure_unsafe_request_context h = Inr ()
        \<and> (\<exists>key. cf_totp_seed_key (conf e) = Some key \<and> totp_accepted (ext e) key i code (w_db w) (w_db w')))
     (\<lambda>_ w'. w_db w' = w_db w \<or> mfa_rejected i (w_db w) (w_db w')
        \<or> (\<exists>key. totp_accepted (ext e) key i code (w_db w) (w_db w'))) w"
  unfolding totp_verify_def
  apply (intro vc_rules wp_mono [OF wp_totp_verify_tx])
  apply (use assms in \<open>simp_all add: same_state_def\<close>)
  apply blast
  done

text \<open>C18. A second factor is accepted only with a fresh code. Whatever the request and the faults,
  \<open>totp_verify\<close> either changes nothing, or counts one failed attempt on the challenge, or has
  checked the code against the verified factor of the challenge's account while attempts were
  left; then the account gets one session with vault access, the challenge is consumed and the
  factor stores the accepted step, which is later than the step it stored before. Success is
  always the last case.\<close>

theorem totp_verify_sound:
  assumes "totp_verify h i code e w = (r, w')" and "w_txn w = None"
  shows "case r of
      Inr resp \<Rightarrow> \<exists>key a f p s now. cf_totp_seed_key (conf e) = Some key
        \<and> totp_accepted (ext e) key i code (w_db w) (w_db w')
        \<and> verified_factor a (w_db w) = Some f \<and> check_totp_code (ext e) key a f p code now = Inr (Some s)
        \<and> totp_effect a i (tf_id f) s now (w_db w) (w_db w')
        \<and> (\<forall>l. tf_last_accepted_step f = Some l \<longrightarrow> l < int s)
    | Inl x \<Rightarrow> w_db w' = w_db w \<or> mfa_rejected i (w_db w) (w_db w')
        \<or> (\<exists>key. totp_accepted (ext e) key i code (w_db w) (w_db w'))"
proof (cases r)
  case (Inr resp)
  then obtain key where key: "cf_totp_seed_key (conf e) = Some key"
      "totp_accepted (ext e) key i code (w_db w) (w_db w')"
    using wp_result [OF assms(1) wp_totp_verify [OF assms(2)]] by auto
  then obtain a f p s now where "verified_factor a (w_db w) = Some f"
      "check_totp_code (ext e) key a f p code now = Inr (Some s)"
      "totp_effect a i (tf_id f) s now (w_db w) (w_db w')"
    unfolding totp_accepted_def by blast
  with key check_totp_code_Some Inr show ?thesis by simp blast
qed (use wp_result [OF assms(1) wp_totp_verify [OF assms(2)]] in simp)

definition sample_seed :: bytes where
  "sample_seed = replicate 20 0"

definition sample_nonce :: bytes where
  "sample_nonce = replicate 24 7"

lemma length_sample_seed: "length sample_seed = 20"
  by (simp add: sample_seed_def)

lemma length_sample_nonce: "length sample_nonce = 24"
  by (simp add: sample_nonce_def)

definition sample_factor :: "time option \<Rightarrow> totp_factor_row" where
  "sample_factor verified_at =
     \<lparr>tf_id = 50, tf_account_id = 1000,
      tf_seed_ciphertext = replicate 32 2 @ sample_nonce
        @ totp_seed_aad sample 1000 50 google_authenticator_default @ sample_seed,
      tf_seed_nonce = sample_nonce, tf_seed_key_id = TOTP_SEED_KEY_ID, tf_seed_aead = TOTP_SEED_AEAD,
      tf_algorithm = ''SHA1'', tf_digits = 6, tf_period_seconds = 30,
      tf_last_accepted_step = None, tf_verified_at = verified_at\<rparr>"

definition sample_totp_db :: db where
  "sample_totp_db = empty_db\<lparr>accounts := [sample_account], auth_challenges := [sample_pre_mfa],
     totp_factors := [sample_factor (Some 0)]\<rparr>"

lemma sample_profile: "totp_profile_from_row (sample_factor v) = Inr google_authenticator_default"
  by (simp add: totp_profile_from_row_def sample_factor_def google_authenticator_default_def)

lemma sample_code_zero: "hotp sample sample_seed n Sha1 6 = Inr 0"
  by (simp add: hotp_def validate_digits_def hmac_digest_def sample_def take_pad_def index_def
      sample_seed_def)

lemma sample_check:
  "check_totp_code sample (replicate 32 2) 1000 (sample_factor v) google_authenticator_default ''000000''
     1000000000 = Inr (Some 32)"
proof -
  have shape: "validate_code ''000000'' 6 = Inr ()"
    using format_code_valid [of 0 6] by (simp add: sample_code)
  have "verify sample sample_seed 1000 ''000000'' google_authenticator_default None = Inr (Some 32)"
    by (simp add: verify_def google_authenticator_default_def validate_profile_def validate_digits_def
        validate_seed_def MIN_SEED_BYTES_def length_sample_seed shape time_step_def
        checked_sub_def sample_code_zero sample_code)
  moreover have "xchacha_decrypt sample (replicate 32 2) sample_nonce
      (totp_seed_aad sample 1000 50 google_authenticator_default)
      (replicate 32 2 @ sample_nonce @ totp_seed_aad sample 1000 50 google_authenticator_default @ sample_seed)
    = Some sample_seed"
    by (simp add: sample_def Let_def)
  ultimately show ?thesis
    by (simp add: check_totp_code_def sample_factor_def stored_step_def decrypt_totp_seed_def
        XCHACHA20POLY1305_NONCE_BYTES_def length_sample_nonce
        unix_time_seconds_def)
qed

lemma sample_totp_runs:
  "wp sample_env (totp_verify (\<lambda>_. None) 97 ''000000'') (\<lambda>_ _. True) (\<lambda>_ _. False) (world_of sample_totp_db)"
proof -
  note decoded = decode_pre_mfa_json [of sample "\<lparr>pm_login_challenge_id = 98,
      pm_device = \<lparr>dq_label = ''d'', dq_client_type = ''cli'', dq_public_metadata = JObj []\<rparr>\<rparr>",
      OF sample_uuid_roundtrip, simplified]
  have device: "device_from_parts sample ''d'' ''cli'' (JObj [])
      = Inr \<lparr>vd_label = ''d'', vd_client_type = ''cli'', vd_public_metadata = JObj []\<rparr>"
    using sample_device_valid by (simp add: device_from_request_def)
  have factor: "tf_account_id (sample_factor v) = 1000" "tf_verified_at (sample_factor v) = v"
    "tf_id (sample_factor v) = 50" for v by (simp_all add: sample_factor_def)
  show ?thesis
    by (simp add: totp_verify_def wp_eqs ensure_unsafe_request_context_def totp_verify_tx_def query_def
        sample_totp_db_def totp_login_challenge_def sample_pre_mfa_def challenge_of_def open_challenge_def
        decoded MFA_CHALLENGE_MAX_ATTEMPTS_def into_validated_def device verified_factor_def factor
        sample_profile sample_check seconds_def totp_login_accepted_def command_def
        create_session_with_device_def random_token_def new_device_def insert_device_def new_session_def
        insert_session_def insert_audit_event_def insert_audit_def consume_auth_challenge_def
        set_consumed_def empty_db_def Let_def constrained_def nonblank_def account_exists_def opt_all_def
        device_of_def session_checks_def sha256_verifier_def sample_account_def sample_sha256_length
        SESSION_IDLE_TTL_def SESSION_ABSOLUTE_TTL_def minutes_def hours_def sample_rfc3339 sample_header
        telemetry_defs step_column_def set_last_step_def)
qed

theorem totp_verify_sound_witness:
  "\<exists>resp w' key. totp_verify (\<lambda>_. None) 97 ''000000'' sample_env (world_of sample_totp_db) = (Inr resp, w')
     \<and> totp_accepted sample key 97 ''000000'' sample_totp_db (w_db w')"
proof -
  obtain resp w' where run: "totp_verify (\<lambda>_. None) 97 ''000000'' sample_env (world_of sample_totp_db)
      = (Inr resp, w')"
    using sample_totp_runs by (auto elim: run_of_wp)
  from totp_verify_sound [OF run] run show ?thesis by auto
qed

section \<open>Steps of the second factor\<close>

locale mfa_steps = recovery_steps +
  assumes factor_step: "S d (set_last_step i s d)"
begin

lemma goes_last_step: "goes S e (run_tx (command (\<lambda>_ d. Inr (set_last_step i s d))))"
  by (rule goes_tx_command) (auto intro: factor_step)

lemma moves_totp_verify: "moves S e (totp_verify h i code)"
  unfolding totp_verify_def totp_verify_tx_def totp_login_failed_def totp_login_accepted_def
  by (intro moves_handler_opens opens_goes goes_recovery goes_last_step)

end

end
