(* ===== verification/PV_Enroll.thy ===== *)
theory PV_Enroll
  imports PV_Recovery PV_Mfa
begin

text \<open>
  Enrolment of a TOTP factor in \<^verbatim>\<open>crates/api/src/auth/routes.rs\<close>: the handlers
  \<open>totp_enroll_start\<close>, which stores a pending factor, and \<open>totp_enroll_confirm\<close>, which verifies it,
  issues the recovery codes and upgrades the session.
\<close>

section \<open>Statements\<close>

definition set_verified :: "uuid \<Rightarrow> time \<Rightarrow> int \<Rightarrow> db \<Rightarrow> db" where
  "set_verified factor_id now s d = d\<lparr>totp_factors :=
     update_where (\<lambda>f. tf_id f = factor_id)
       (\<lambda>f. f\<lparr>tf_verified_at := Some now, tf_last_accepted_step := Some s\<rparr>) (totp_factors d)\<rparr>"

definition delete_factors :: "uuid \<Rightarrow> db \<Rightarrow> db" where
  "delete_factors account_id d =
     d\<lparr>totp_factors := delete_where (\<lambda>f. tf_account_id f = account_id) (totp_factors d)\<rparr>"

definition delete_pending_factor :: "uuid \<Rightarrow> uuid \<Rightarrow> db \<Rightarrow> db" where
  "delete_pending_factor factor_id account_id d =
     d\<lparr>totp_factors := delete_where (\<lambda>f. tf_id f = factor_id \<and> tf_account_id f = account_id
         \<and> tf_verified_at f = None) (totp_factors d)\<rparr>"

definition pending_factor :: "uuid \<Rightarrow> uuid \<Rightarrow> bytes \<Rightarrow> bytes \<Rightarrow> totp_factor_row" where
  "pending_factor factor_id account_id seed_ciphertext nonce =
     \<lparr>tf_id = factor_id, tf_account_id = account_id, tf_seed_ciphertext = seed_ciphertext,
      tf_seed_nonce = nonce, tf_seed_key_id = TOTP_SEED_KEY_ID, tf_seed_aead = TOTP_SEED_AEAD,
      tf_algorithm = ''SHA1'', tf_digits = 6, tf_period_seconds = 30,
      tf_last_accepted_step = None, tf_verified_at = None\<rparr>"

definition delete_recovery_codes :: "uuid \<Rightarrow> db \<Rightarrow> db" where
  "delete_recovery_codes account_id d =
     d\<lparr>recovery_codes := delete_where (\<lambda>r. rc_account_id r = account_id) (recovery_codes d)\<rparr>"

definition upgrade_session :: "uuid \<Rightarrow> bytes \<Rightarrow> time \<Rightarrow> time \<Rightarrow> db \<Rightarrow> sql_error + db" where
  "upgrade_session session_id token_hash now idle d =
     update_sessions (\<lambda>r. se_id r = session_id)
       (\<lambda>r. r\<lparr>se_session_token_hash := token_hash, se_csrf_token_hash := None,
             se_session_state := ''mfa_verified'', se_last_seen_at := Some now,
             se_idle_expires_at := idle, se_expires_at := idle\<rparr>) d"

definition login_handle_of :: "uuid \<Rightarrow> db \<Rightarrow> string option" where
  "login_handle_of account_id d =
     map_option acc_login_handle_normalized (find (\<lambda>a. acc_id a = account_id) (accounts d))"

definition account_login_handle :: "uuid \<Rightarrow> (api_error, string) io" where
  "account_login_handle account_id =
     try_io (pool_call (query (login_handle_of account_id))) (\<lambda>row.
     lift (ok_or ServiceUnavailable row))"

definition factor_of :: "uuid \<Rightarrow> uuid \<Rightarrow> db \<Rightarrow> totp_factor_row option" where
  "factor_of factor_id account_id d =
     find (\<lambda>f. tf_id f = factor_id \<and> tf_account_id f = account_id) (totp_factors d)"

section \<open>Enrolling a factor\<close>

record totp_enroll_start_response =
  es_factor_id :: uuid
  es_status :: string
  es_algorithm :: string
  es_digits :: nat
  es_period :: nat
  es_otpauth_uri :: string
  es_manual_secret :: string
  es_expires_at :: string

definition enroll_start_tx :: "current_session \<Rightarrow> uuid \<Rightarrow> bytes \<Rightarrow> bytes \<Rightarrow> (api_error, unit) io" where
  "enroll_start_tx session factor_id seed_ciphertext nonce =
     try_io ask (\<lambda>e.
     try_io (tx_call (command (\<lambda>_ d. Inr (delete_factors (cs_account_id session) d)))) (\<lambda>_.
     try_io (tx_call (command (\<lambda>_. insert_totp_factor
       (pending_factor factor_id (cs_account_id session) seed_ciphertext nonce)))) (\<lambda>_.
     insert_audit_event (cs_account_id session) (cs_device_id session) ''mfa_totp_enrollment_started''
       (JObj [(''factor_id'', JStr (uuid_text (ext e) factor_id))]))))"

definition totp_enroll_start :: "headers \<Rightarrow> (api_error, totp_enroll_start_response response) io" where
  "totp_enroll_start h = handler (
     try_io database_pool (\<lambda>_.
     try_io ask (\<lambda>e.
     try_io (lift (ok_or ServiceUnavailable (cf_totp_seed_key (conf e)))) (\<lambda>totp_seed_key.
     try_io now_utc_second (\<lambda>now.
     try_io (load_current_session h now) (\<lambda>current.
     try_io (lift (ok_or SessionRequired current)) (\<lambda>session.
     try_io (lift (ensure_totp_enrollment_session session)) (\<lambda>_.
     try_io (lift (ensure_unsafe_request_context h)) (\<lambda>_.
     try_io (ensure_csrf_token h (cs_id session)) (\<lambda>_.
     try_io (refresh_session_activity session now) (\<lambda>session.
     try_io new_uuid (\<lambda>factor_id.
     try_io (random_bytes TOTP_SEED_BYTES) (\<lambda>seed.
     try_io (random_bytes XCHACHA20POLY1305_NONCE_BYTES) (\<lambda>nonce.
     let profile = google_authenticator_default;
         aad = totp_seed_aad (ext e) (cs_account_id session) factor_id profile in
     try_io (lift (encrypt_totp_seed (ext e) totp_seed_key nonce aad seed)) (\<lambda>seed_ciphertext.
     try_io (account_login_handle (cs_account_id session)) (\<lambda>login_handle.
     try_io (lift (map_err (\<lambda>_. ServiceUnavailable)
       (provisioning_uri TOTP_ISSUER login_handle seed profile))) (\<lambda>otpauth_uri.
     let manual_secret = base32_no_padding seed in
     try_io (unavailable begin_tx) (\<lambda>_.
     try_io (enroll_start_tx session factor_id seed_ciphertext nonce) (\<lambda>_.
     try_io (unavailable commit_tx) (\<lambda>_.
     try_io (mfa_event ''totp_enrollment'' ''started'') (\<lambda>_.
     try_io (format_rfc3339 (cs_idle_expires_at session)) (\<lambda>expires_at.
     ret (no_store_json 200
       \<lparr>es_factor_id = factor_id, es_status = ''pending'',
        es_algorithm = as_uri_value (tp_algorithm profile), es_digits = tp_digits profile,
        es_period = tp_period_seconds profile, es_otpauth_uri = otpauth_uri,
        es_manual_secret = manual_secret, es_expires_at = expires_at\<rparr>)))))))))))))))))))))))"

section \<open>Confirming a factor\<close>

record totp_enroll_confirm_response =
  ec_factor_id :: uuid
  ec_status :: string
  ec_session :: session_response
  ec_recovery_codes :: "string list"

definition enroll_confirm_failed :: "current_session \<Rightarrow> uuid \<Rightarrow> (api_error, 'a) io" where
  "enroll_confirm_failed session factor_id =
     try_io ask (\<lambda>e.
     try_io (tx_call (command (\<lambda>_ d. Inr (delete_pending_factor factor_id (cs_account_id session) d)))) (\<lambda>_.
     try_io (insert_audit_event (cs_account_id session) (cs_device_id session)
       ''mfa_totp_enrollment_failed'' (JObj [(''factor_id'', JStr (uuid_text (ext e) factor_id))])) (\<lambda>_.
     try_io (unavailable commit_tx) (\<lambda>_.
     try_io (mfa_event ''totp_enrollment'' ''failed'') (\<lambda>_.
     throw MfaVerificationFailed)))))"

text \<open>The loop that stores a salted hash of each recovery code.\<close>

fun store_recovery_codes :: "uuid \<Rightarrow> string list \<Rightarrow> (api_error, unit) io" where
  "store_recovery_codes account_id [] = ret ()"
| "store_recovery_codes account_id (code # codes) =
     try_io ask (\<lambda>e.
     try_io (random_bytes RECOVERY_CODE_SALT_BYTES) (\<lambda>salt.
     try_io new_uuid (\<lambda>i.
     try_io (tx_call (command (\<lambda>_. insert_recovery_code
       \<lparr>rc_id = i, rc_account_id = account_id, rc_code_salt = salt,
        rc_code_hash = recovery_code_hash (ext e) account_id salt code, rc_used_at = None\<rparr>))) (\<lambda>_.
     store_recovery_codes account_id codes))))"

definition enroll_confirm_accepted ::
  "current_session \<Rightarrow> uuid \<Rightarrow> nat \<Rightarrow> time \<Rightarrow> (api_error, totp_enroll_confirm_response response) io" where
  "enroll_confirm_accepted session factor_id accepted_step now =
     try_io ask (\<lambda>e.
     try_io generate_recovery_codes (\<lambda>codes.
     try_io (tx_call (command (\<lambda>_ d. Inr (delete_recovery_codes (cs_account_id session) d)))) (\<lambda>_.
     try_io (store_recovery_codes (cs_account_id session) codes) (\<lambda>_.
     try_io random_token (\<lambda>session_token.
     let token_hash = sha256_verifier (ext e) session_token;
         idle_expires_at = min_time (now + SESSION_IDLE_TTL) (cs_absolute_expires_at session) in
     try_io (lift (step_column accepted_step)) (\<lambda>s.
     try_io (tx_call (command (\<lambda>_ d. Inr (set_verified factor_id now s d)))) (\<lambda>_.
     try_io (tx_call (command (\<lambda>_. upgrade_session (cs_id session) token_hash now idle_expires_at))) (\<lambda>_.
     try_io (insert_audit_event (cs_account_id session) (cs_device_id session)
       ''mfa_totp_enrollment_confirmed''
       (JObj [(''factor_id'', JStr (uuid_text (ext e) factor_id)),
              (''recovery_code_count'', JNum (int (length codes)))])) (\<lambda>_.
     try_io (unavailable commit_tx) (\<lambda>_.
     try_io (mfa_event ''totp_enrollment'' ''confirmed'') (\<lambda>_.
     try_io (session_event ''upgraded'' ''mfa_verified'') (\<lambda>_.
     try_io (format_rfc3339 idle_expires_at) (\<lambda>idle.
     try_io (format_rfc3339 (cs_absolute_expires_at session)) (\<lambda>absolute.
     try_io (header_value (session_cookie (ext e) session_token)) (\<lambda>cookie.
     ret ((no_store_json 200
       \<lparr>ec_factor_id = factor_id, ec_status = ''active'', ec_session =
          \<lparr>sr_state = ''mfa_verified'', sr_vault_access = True,
           sr_idle_expires_at = idle, sr_absolute_expires_at = absolute\<rparr>,
        ec_recovery_codes = codes\<rparr>)\<lparr>rs_set_cookie := Some cookie\<rparr>))))))))))))))))"

definition enroll_confirm_tx ::
  "current_session \<Rightarrow> uuid \<Rightarrow> string \<Rightarrow> bytes \<Rightarrow> time
   \<Rightarrow> (api_error, totp_enroll_confirm_response response) io" where
  "enroll_confirm_tx session factor_id code totp_seed_key now =
     try_io ask (\<lambda>e.
     try_io (tx_call (query (factor_of factor_id (cs_account_id session)))) (\<lambda>factor.
     case factor of
       None \<Rightarrow> try_io (mfa_event ''totp_enrollment'' ''factor_unavailable'') (\<lambda>_. throw MfaVerificationFailed)
     | Some f \<Rightarrow>
         try_io (lift (totp_profile_from_row f)) (\<lambda>profile.
         if tf_verified_at f \<noteq> None
         then try_io (mfa_event ''totp_enrollment'' ''already_verified'') (\<lambda>_. throw MfaVerificationFailed)
         else
         try_io (lift (check_totp_code (ext e) totp_seed_key (cs_account_id session) f profile code now)) (\<lambda>accepted.
         case accepted of
           None \<Rightarrow> enroll_confirm_failed session factor_id
         | Some s \<Rightarrow> enroll_confirm_accepted session factor_id s now))))"

definition totp_enroll_confirm ::
  "headers \<Rightarrow> uuid \<Rightarrow> string \<Rightarrow> (api_error, totp_enroll_confirm_response response) io" where
  "totp_enroll_confirm h factor_id code = handler (
     try_io database_pool (\<lambda>_.
     try_io ask (\<lambda>e.
     try_io (lift (ok_or ServiceUnavailable (cf_totp_seed_key (conf e)))) (\<lambda>totp_seed_key.
     try_io now_utc_second (\<lambda>now.
     try_io (load_current_session h now) (\<lambda>current.
     try_io (lift (ok_or SessionRequired current)) (\<lambda>session.
     try_io (lift (ensure_totp_enrollment_session session)) (\<lambda>_.
     try_io (lift (ensure_unsafe_request_context h)) (\<lambda>_.
     try_io (ensure_csrf_token h (cs_id session)) (\<lambda>_.
     try_io (unavailable begin_tx) (\<lambda>_.
     enroll_confirm_tx session factor_id code totp_seed_key now)))))))))))"

section \<open>What an enrolment does\<close>

text \<open>A stored row belongs to an issued code: its hash is the code's under the row's salt.\<close>

definition stores_code :: "externals \<Rightarrow> uuid \<Rightarrow> string \<Rightarrow> recovery_code_row \<Rightarrow> bool" where
  "stores_code X a code row \<longleftrightarrow> rc_account_id row = a \<and> rc_used_at row = None
     \<and> length (rc_code_salt row) = RECOVERY_CODE_SALT_BYTES \<and> code_matches X a code row"

definition issued_code :: "string \<Rightarrow> bool" where
  "issued_code code \<longleftrightarrow> (\<exists>r. length r = RECOVERY_CODE_RANDOM_BYTES \<and> code = recovery_code_from_random r)"

lemma issued_codeI: "length r = RECOVERY_CODE_RANDOM_BYTES \<Longrightarrow> issued_code (recovery_code_from_random r)"
  by (auto simp: issued_code_def)

definition enroll_effect ::
  "externals \<Rightarrow> current_session \<Rightarrow> uuid \<Rightarrow> nat \<Rightarrow> time \<Rightarrow> string list \<Rightarrow> db \<Rightarrow> db \<Rightarrow> bool" where
  "enroll_effect X session factor_id s now codes d d' \<longleftrightarrow>
     length codes = RECOVERY_CODE_COUNT \<and> list_all issued_code codes
     \<and> totp_factors d' = totp_factors (set_verified factor_id now (int s) d)
     \<and> (\<exists>rows. list_all2 (stores_code X (cs_account_id session)) codes rows
          \<and> recovery_codes d' = recovery_codes (delete_recovery_codes (cs_account_id session) d) @ rows)
     \<and> (\<exists>k d1. upgrade_session (cs_id session) k now
            (min_time (now + SESSION_IDLE_TTL) (cs_absolute_expires_at session)) d = Inr d1
          \<and> sessions d' = sessions d1)
     \<and> auth_challenges d' = auth_challenges d"

definition enroll_confirmed ::
  "externals \<Rightarrow> bytes \<Rightarrow> current_session \<Rightarrow> uuid \<Rightarrow> string \<Rightarrow> string list \<Rightarrow> db \<Rightarrow> db \<Rightarrow> bool" where
  "enroll_confirmed X key session factor_id code codes d d' \<longleftrightarrow>
     (\<exists>f p s now. factor_of factor_id (cs_account_id session) d = Some f \<and> tf_verified_at f = None
        \<and> totp_profile_from_row f = Inr p
        \<and> check_totp_code X key (cs_account_id session) f p code now = Inr (Some s)
        \<and> enroll_effect X session factor_id s now codes d d')"

definition enroll_failed :: "current_session \<Rightarrow> uuid \<Rightarrow> db \<Rightarrow> db \<Rightarrow> bool" where
  "enroll_failed session factor_id d d' \<longleftrightarrow>
     (\<exists>au. d' = (delete_pending_factor factor_id (cs_account_id session) d)\<lparr>audit_events := audit_events d @ [au]\<rparr>)"

lemma wp_generate_codes:
  assumes "\<And>codes w'. length codes = n \<Longrightarrow> list_all issued_code codes \<Longrightarrow> same_state w w' \<Longrightarrow> Q codes w'"
  shows "wp e (generate_codes n) Q R w"
  using assms
proof (induction n arbitrary: w Q)
  case 0
  then show ?case by (simp add: wp_eqs same_state_def)
next
  case (Suc n)
  show ?case
    unfolding generate_codes.simps
  proof (intro vc_rules Suc.IH)
    fix b :: bytes and w1 :: world and codes w2
    assume "length b = RECOVERY_CODE_RANDOM_BYTES" "same_state w w1" "length codes = n"
      "list_all issued_code codes" "same_state w1 w2"
    then show "Q (recovery_code_from_random b # codes) w2"
      by (intro Suc.prems) (simp_all add: issued_codeI same_state_def)
  qed
qed

lemma recovery_codes_append [simp]:
  "(d\<lparr>recovery_codes := a\<rparr>)\<lparr>recovery_codes := b\<rparr> = d\<lparr>recovery_codes := b\<rparr>"
  by simp

lemma wp_store_codes:
  assumes "w_txn w = Some (d, t)"
    and "\<And>rows w'. list_all2 (stores_code (ext e) a) codes rows \<Longrightarrow> w_db w' = w_db w \<Longrightarrow>
      w_txn w' = Some (d\<lparr>recovery_codes := recovery_codes d @ rows\<rparr>, t) \<Longrightarrow> Q () w'"
    and "\<And>x w'. w_db w' = w_db w \<Longrightarrow> R x w'"
  shows "wp e (store_recovery_codes a codes) Q R w"
  using assms
proof (induction codes arbitrary: w d Q)
  case Nil
  then show ?case by (simp add: wp_eqs)
next
  case (Cons code codes)
  show ?case
    unfolding store_recovery_codes.simps
  proof (intro vc_rules)
    fix b :: bytes and w1 :: world and u and w2 :: world and d1 t1 d2 and w3 :: world
    assume len: "length b = RECOVERY_CODE_SALT_BYTES" and w: "same_state w w1" "same_state w1 w2"
      and w2: "w_txn w2 = Some (d1, t1)" and w3: "w_db w3 = w_db w2" "w_txn w3 = Some (d2, t1)"
      and ins: "insert_recovery_code \<lparr>rc_id = u, rc_account_id = a, rc_code_salt = b,
        rc_code_hash = recovery_code_hash (ext e) a b code, rc_used_at = None\<rparr> d1 = Inr d2"
    let ?row = "\<lparr>rc_id = u, rc_account_id = a, rc_code_salt = b,
        rc_code_hash = recovery_code_hash (ext e) a b code, rc_used_at = None\<rparr>"
    have d2: "d2 = d\<lparr>recovery_codes := recovery_codes d @ [?row]\<rparr>" and t1: "t1 = t"
      using ins w w2 Cons.prems(1) by (simp_all add: insert_recovery_code_def same_state_def)
    have row: "stores_code (ext e) a code ?row" by (simp add: stores_code_def len code_matches_def)
    show "wp e (store_recovery_codes a codes) Q R w3"
    proof (rule Cons.IH)
      show "w_txn w3 = Some (d2, t)" using w3 t1 by simp
      show "Q () w'" if "list_all2 (stores_code (ext e) a) codes rows" "w_db w' = w_db w3"
        "w_txn w' = Some (d2\<lparr>recovery_codes := recovery_codes d2 @ rows\<rparr>, t)" for rows w'
        by (rule Cons.prems(2) [of "?row # rows"]) (use that row d2 w w3 in \<open>simp_all add: same_state_def\<close>)
      show "R x w'" if "w_db w' = w_db w3" for x w'
        by (rule Cons.prems(3)) (use that w w3 in \<open>simp add: same_state_def\<close>)
    qed
  qed (use Cons.prems(3) in \<open>simp_all add: same_state_def\<close>)
qed

lemma factor_statement_simps [simp]:
  "auth_challenges (set_verified i now s d) = auth_challenges d"
  "sessions (set_verified i now s d) = sessions d" "recovery_codes (set_verified i now s d) = recovery_codes d"
  "accounts (set_verified i now s d) = accounts d"
  "auth_challenges (delete_recovery_codes a d) = auth_challenges d"
  "sessions (delete_recovery_codes a d) = sessions d" "totp_factors (delete_recovery_codes a d) = totp_factors d"
  "accounts (delete_recovery_codes a d) = accounts d"
  "audit_events (delete_pending_factor i a d) = audit_events d"
  by (simp_all add: set_verified_def delete_recovery_codes_def delete_pending_factor_def)

lemma set_verified_cong:
  "totp_factors d = totp_factors d2 \<Longrightarrow>
     totp_factors (set_verified i now s d) = totp_factors (set_verified i now s d2)"
  by (simp add: set_verified_def)

lemma upgrade_session_cong:
  assumes "upgrade_session i k now idle d = Inr d'" and "sessions d2 = sessions d"
  shows "upgrade_session i k now idle d2 = Inr (d2\<lparr>sessions := sessions d'\<rparr>)"
  using assms by (simp add: upgrade_session_def update_sessions_def Let_def)

lemma upgrade_session_only:
  assumes "upgrade_session i k now idle d = Inr d'"
  shows "d' = d\<lparr>sessions := sessions d'\<rparr>"
  using assms by (simp add: upgrade_session_def update_sessions_def Let_def)

lemma wp_enroll_failed:
  assumes "w_txn w = Some (d, t)"
  shows "wp e (enroll_confirm_failed session factor_id) Q
     (\<lambda>_ w'. w_db w' = w_db w \<or> enroll_failed session factor_id d (w_db w')) w"
  unfolding enroll_confirm_failed_def telemetry_defs counter_def enroll_failed_def
  by (intro vc_rules wp_audit_event) (use assms in \<open>auto simp: same_state_def\<close>)

lemma wp_upgrade:
  assumes "\<And>d t d' k w'. w_txn w = Some (d, t) \<Longrightarrow> upgrade_session i k now idle d = Inr d' \<Longrightarrow>
      w_db w' = w_db w \<Longrightarrow> w_txn w' = Some (d\<lparr>sessions := sessions d'\<rparr>, t) \<Longrightarrow> Q () w'"
    and "\<And>x w'. w_db w' = w_db w \<Longrightarrow> R x w'"
  shows "wp e (unavailable (run_tx (command (\<lambda>_. upgrade_session i k now idle)))) Q (\<lambda>_. R ServiceUnavailable) w"
  apply (intro vc_rules)
  apply (rule assms(1), assumption, assumption, assumption)
  apply (use upgrade_session_only in \<open>auto simp: assms(2)\<close>)
  done

lemma enroll_effect_intro:
  assumes "list_all2 (stores_code X (cs_account_id session)) codes rows"
    and "length codes = RECOVERY_CODE_COUNT" and "list_all issued_code codes"
    and "upgrade_session (cs_id session) k now
          (min_time (now + SESSION_IDLE_TTL) (cs_absolute_expires_at session))
          (set_verified factor_id now (int s) ((delete_recovery_codes (cs_account_id session) d)
             \<lparr>recovery_codes := recovery_codes (delete_recovery_codes (cs_account_id session) d) @ rows\<rparr>))
        = Inr d3"
  shows "enroll_effect X session factor_id s now codes d (d3\<lparr>audit_events := x\<rparr>)"
proof -
  let ?d2 = "set_verified factor_id now (int s) ((delete_recovery_codes (cs_account_id session) d)
    \<lparr>recovery_codes := recovery_codes (delete_recovery_codes (cs_account_id session) d) @ rows\<rparr>)"
  have d3: "d3 = ?d2\<lparr>sessions := sessions d3\<rparr>" by (rule upgrade_session_only [OF assms(4)])
  have "totp_factors d3 = totp_factors ?d2" "recovery_codes d3 = recovery_codes ?d2"
    "auth_challenges d3 = auth_challenges ?d2" by (subst d3, simp)+
  moreover have "totp_factors ?d2 = totp_factors (set_verified factor_id now (int s) d)"
    by (rule set_verified_cong) simp
  moreover have "upgrade_session (cs_id session) k now
      (min_time (now + SESSION_IDLE_TTL) (cs_absolute_expires_at session)) d = Inr (d\<lparr>sessions := sessions d3\<rparr>)"
    by (rule upgrade_session_cong [OF assms(4)]) simp
  ultimately show ?thesis
    using assms(1-3) unfolding enroll_effect_def
    by (intro conjI exI [of _ rows] exI [of _ k] exI [of _ "d\<lparr>sessions := sessions d3\<rparr>"]) simp_all
qed

lemma wp_enroll_accepted:
  assumes "w_txn w = Some (d, t)"
  shows "wp e (enroll_confirm_accepted session factor_id s now)
     (\<lambda>resp w'. enroll_effect (ext e) session factor_id s now (ec_recovery_codes (rs_body resp)) d (w_db w'))
     (\<lambda>_ w'. w_db w' = w_db w \<or> (\<exists>codes. enroll_effect (ext e) session factor_id s now codes d (w_db w'))) w"
  unfolding enroll_confirm_accepted_def generate_recovery_codes_def random_token_def telemetry_defs counter_def
    step_column_def Let_def no_store_json_def
  apply (intro vc_rules wp_generate_codes wp_store_codes wp_audit_event)
  apply (use assms in \<open>simp_all add: same_state_def split: if_splits\<close>)
  apply (auto intro!: enroll_effect_intro)
  done

lemma factor_of_id: "factor_of i a d = Some f \<Longrightarrow> tf_id f = i"
  by (auto simp: factor_of_def dest: find_Some_mem)

lemma wp_enroll_confirm_tx:
  assumes "w_txn w = Some (w_db w, t)"
  shows "wp e (enroll_confirm_tx session factor_id code key now)
     (\<lambda>resp w'. enroll_confirmed (ext e) key session factor_id code (ec_recovery_codes (rs_body resp))
        (w_db w) (w_db w'))
     (\<lambda>_ w'. w_db w' = w_db w \<or> enroll_failed session factor_id (w_db w) (w_db w')
        \<or> (\<exists>codes. enroll_confirmed (ext e) key session factor_id code codes (w_db w) (w_db w'))) w"
proof -
  note parts = wp_mono [OF wp_enroll_failed [where d = "w_db w" and t = t]]
    wp_mono [OF wp_enroll_accepted [where d = "w_db w" and t = t]]
  show ?thesis
    unfolding enroll_confirm_tx_def telemetry_defs counter_def enroll_confirmed_def
    apply (intro vc_rules parts)
    apply (use assms in \<open>simp_all add: same_state_def\<close>)
    apply auto
    done
qed

text \<open>The request comes from a live session that is in enrolment or recovery, with its token and
  its CSRF token.\<close>

definition enrolling_session :: "env \<Rightarrow> headers \<Rightarrow> db \<Rightarrow> time \<Rightarrow> session_row \<Rightarrow> bool" where
  "enrolling_session e h d now s \<longleftrightarrow> live_session d now s
     \<and> (\<exists>tok. session_token_from_headers (ext e) h = Some tok
          \<and> se_session_token_hash s = sha256_verifier (ext e) tok)
     \<and> (se_session_state s = ''mfa_enrollment_required'' \<or> se_session_state s = ''mfa_recovery'')
     \<and> ensure_unsafe_request_context h = Inr () \<and> csrf_valid e h (se_id s) d"

lemma enrolling_sessionI:
  assumes "session_token_from_headers (ext e) h = Some tok"
    and "se_session_token_hash s = sha256_verifier (ext e) tok" and "live_session d now s"
    and "ensure_totp_enrollment_session (session_of s) = Inr ()"
    and "ensure_unsafe_request_context h = Inr ()" and "csrf_valid e h (cs_id (session_of s)) d"
  shows "enrolling_session e h d now s"
  using assms by (simp add: enrolling_session_def ensure_totp_enrollment_session_def split: if_splits)

lemma enroll_error_cases:
  assumes "enrolling_session e h d now s"
    and "d' = d \<or> enroll_failed (session_of s) factor_id d d'
      \<or> (\<exists>codes. enroll_confirmed X key (session_of s) factor_id code codes d d')"
  shows "session_checked d d' \<or> (\<exists>now s. enrolling_session e h d now s
      \<and> (enroll_failed (session_of s) factor_id d d'
         \<or> (\<exists>key codes. enroll_confirmed X key (session_of s) factor_id code codes d d')))"
  using assms session_checked_refl by blast

lemma wp_totp_enroll_confirm:
  assumes "w_txn w = None"
  shows "wp e (totp_enroll_confirm h factor_id code)
     (\<lambda>resp w'. \<exists>key now s. cf_totp_seed_key (conf e) = Some key \<and> enrolling_session e h (w_db w) now s
        \<and> enroll_confirmed (ext e) key (session_of s) factor_id code (ec_recovery_codes (rs_body resp))
            (w_db w) (w_db w'))
     (\<lambda>_ w'. session_checked (w_db w) (w_db w')
        \<or> (\<exists>now s. enrolling_session e h (w_db w) now s
            \<and> (enroll_failed (session_of s) factor_id (w_db w) (w_db w')
               \<or> (\<exists>key codes. enroll_confirmed (ext e) key (session_of s) factor_id code codes (w_db w) (w_db w'))))) w"
  unfolding totp_enroll_confirm_def
  apply (intro vc_rules wp_check_session wp_ensure_csrf wp_mono [OF wp_enroll_confirm_tx])
  apply (use assms in \<open>simp_all add: same_state_def\<close>)
   apply (rule impI, hypsubst, blast intro: enrolling_sessionI)
  apply (rule impI, hypsubst, rule enroll_error_cases [OF enrolling_sessionI], assumption+)
  done

text \<open>C20. Confirming an enrolment upgrades a session only with a valid code. Whatever the request
  and the faults, \<open>totp_enroll_confirm\<close> at most revokes a dead session, or deletes the pending
  factor of the code's own enrolment, or confirms: the request comes from a live enrolment or
  recovery session with its CSRF token, the code is right for a factor of that session's account
  that was not verified, the factor becomes verified with the code's step, the account's recovery
  codes become exactly ten new ones, whose hashes are stored and which are the codes of the
  answer, and only this session gets a new token and vault access.\<close>

theorem totp_enroll_confirm_sound:
  assumes "totp_enroll_confirm h factor_id code e w = (r, w')" and "w_txn w = None"
  shows "case r of
      Inr resp \<Rightarrow> \<exists>key now s. cf_totp_seed_key (conf e) = Some key \<and> enrolling_session e h (w_db w) now s
        \<and> enroll_confirmed (ext e) key (session_of s) factor_id code (ec_recovery_codes (rs_body resp))
            (w_db w) (w_db w')
    | Inl x \<Rightarrow> session_checked (w_db w) (w_db w')
        \<or> (\<exists>now s. enrolling_session e h (w_db w) now s
            \<and> (enroll_failed (session_of s) factor_id (w_db w) (w_db w')
               \<or> (\<exists>key codes. enroll_confirmed (ext e) key (session_of s) factor_id code codes (w_db w) (w_db w'))))"
  using wp_result [OF assms(1) wp_totp_enroll_confirm [OF assms(2)]] by (cases r) simp_all

section \<open>Starting an enrolment\<close>

definition enroll_started :: "uuid \<Rightarrow> uuid \<Rightarrow> db \<Rightarrow> db \<Rightarrow> bool" where
  "enroll_started a factor_id d d' \<longleftrightarrow>
     (\<exists>c n. totp_factors d' = totp_factors (delete_factors a d) @ [pending_factor factor_id a c n])
     \<and> recovery_codes d' = recovery_codes d"

lemma wp_enroll_start_tx:
  assumes "w_txn w = Some (d, t)"
    and "\<And>w' d'. enroll_started (cs_account_id session) factor_id d d' \<Longrightarrow> w_db w' = w_db w \<Longrightarrow>
      w_txn w' = Some (d', t) \<Longrightarrow> Q () w'"
    and "\<And>x w'. w_db w' = w_db w \<Longrightarrow> R x w'"
  shows "wp e (enroll_start_tx session factor_id c n) Q R w"
proof -
  have started: "enroll_started (cs_account_id session) factor_id d (d2\<lparr>audit_events := x\<rparr>)"
    if "insert_totp_factor (pending_factor factor_id (cs_account_id session) c n)
      (delete_factors (cs_account_id session) d) = Inr d2" for d2 x
    using that by (auto simp: enroll_started_def insert_totp_factor_def delete_factors_def)
  show ?thesis
    unfolding enroll_start_tx_def
    apply (intro vc_rules wp_audit_event)
    apply (use assms(1,3) in \<open>simp_all add: same_state_def\<close>)
    apply (rule assms(2) [rotated], assumption, assumption)
    apply (auto intro: started)
    done
qed

lemma wp_account_login_handle:
  assumes "\<And>x w'. same_state w w' \<Longrightarrow> Q x w'" and "\<And>x w'. same_state w w' \<Longrightarrow> R x w'"
  shows "wp e (account_login_handle a) Q R w"
  unfolding account_login_handle_def by (intro vc_rules) (use assms in \<open>auto simp: same_state_def\<close>)

lemma wp_totp_enroll_start:
  assumes "w_txn w = None"
  shows "wp e (totp_enroll_start h)
     (\<lambda>resp w'. \<exists>now s d1. enrolling_session e h (w_db w) now s \<and> session_refreshed (w_db w) d1
        \<and> enroll_started (se_account_id s) (es_factor_id (rs_body resp)) d1 (w_db w'))
     (\<lambda>_ w'. session_refreshed (w_db w) (w_db w')
        \<or> (\<exists>now s d1 i. enrolling_session e h (w_db w) now s \<and> session_refreshed (w_db w) d1
            \<and> enroll_started (se_account_id s) i d1 (w_db w'))) w"
  unfolding totp_enroll_start_def telemetry_defs counter_def Let_def no_store_json_def
  apply (intro vc_rules wp_check_session wp_ensure_csrf wp_refresh_session wp_account_login_handle
      wp_enroll_start_tx)
  apply (use assms in \<open>simp_all add: same_state_def session_checked_refreshed\<close>)
  apply (rule impI, hypsubst, drule (5) enrolling_sessionI, simp, blast)+
  done

text \<open>C38. Starting an enrolment removes the account's second factor, verified or not: after a success
  the account has exactly one factor, the pending one, so that a login with the password alone
  opens a session. The request needs a live enrolment or recovery session; an enrolment session
  that was opened before another session verified the account's factor is such a session, and no
  code of that factor is asked for.\<close>

theorem totp_enroll_start_removes_factor:
  assumes "totp_enroll_start h e w = (Inr resp, w')" and "w_txn w = None"
  shows "\<exists>now s c n. enrolling_session e h (w_db w) now s
    \<and> filter (\<lambda>f. tf_account_id f = se_account_id s) (totp_factors (w_db w'))
        = [pending_factor (es_factor_id (rs_body resp)) (se_account_id s) c n]
    \<and> active_totp_factor (se_account_id s) (w_db w') = None"
proof -
  from wp_result [OF assms(1) wp_totp_enroll_start [OF assms(2)]] obtain now s d1
    where s: "enrolling_session e h (w_db w) now s"
      and start: "enroll_started (se_account_id s) (es_factor_id (rs_body resp)) d1 (w_db w')" by auto
  then obtain c n where factors: "totp_factors (w_db w') = totp_factors (delete_factors (se_account_id s) d1)
      @ [pending_factor (es_factor_id (rs_body resp)) (se_account_id s) c n]"
    by (auto simp: enroll_started_def)
  have none: "filter (\<lambda>f. tf_account_id f = se_account_id s) (totp_factors (delete_factors (se_account_id s) d1)) = []"
    by (auto simp: delete_factors_def delete_where_def filter_empty_conv)
  then have "filter (\<lambda>f. tf_account_id f = se_account_id s) (totp_factors (w_db w'))
      = [pending_factor (es_factor_id (rs_body resp)) (se_account_id s) c n]"
    by (simp add: factors pending_factor_def)
  moreover have "active_totp_factor (se_account_id s) (w_db w') = None"
    using none unfolding active_totp_factor_def factors
    by (auto simp: find_None_iff pending_factor_def filter_empty_conv)
  ultimately show ?thesis using s by blast
qed

section \<open>Witnesses\<close>

definition sample_setup_session :: session_row where
  "sample_setup_session = (sample_session (seconds 2000))
     \<lparr>se_account_id := 1000, se_session_state := ''mfa_enrollment_required''\<rparr>"

definition sample_enroll_db :: "time option \<Rightarrow> db" where
  "sample_enroll_db verified_at = empty_db\<lparr>accounts := [sample_account], sessions := [sample_setup_session],
     totp_factors := [sample_factor verified_at]\<rparr>"

lemma sample_setup_simps [simp]:
  "se_id sample_setup_session = 7" "se_account_id sample_setup_session = 1000"
  "se_device_id sample_setup_session = None" "se_revoked_at sample_setup_session = None"
  "se_session_token_hash sample_setup_session = sha256 sample sample_token"
  "se_csrf_token_hash sample_setup_session = Some (sha256 sample sample_csrf_token)"
  "se_session_state sample_setup_session = ''mfa_enrollment_required''"
  "se_idle_expires_at sample_setup_session = 2000000000"
  "se_absolute_expires_at sample_setup_session = 3000000000"
  by (simp_all add: sample_setup_session_def sample_session_def seconds_def)

lemma sample_unsafe: "ensure_unsafe_request_context sample_headers = Inr ()"
  by (simp add: ensure_unsafe_request_context_def sample_headers_def)

lemmas sample_enroll_defs =
  wp_eqs query_def command_def Let_def sample_enroll_db_def empty_db_def load_current_session_def
  sample_headers_token sample_headers_csrf session_with_device_def sha256_verifier_def seconds_def
  ensure_totp_enrollment_session_def sample_unsafe ensure_csrf_token_def csrf_hash_of_def
  sample_sha256_length TOKEN_LEN_def telemetry_defs

lemma sample_handle: "login_handle_of 1000 (sample_enroll_db v) = Some ''ann''"
  by (simp add: login_handle_of_def sample_enroll_db_def empty_db_def sample_account_def)

lemma sample_insert_factor:
  "sessions d = [s] \<Longrightarrow> accounts d = [sample_account] \<Longrightarrow> totp_factors d = [] \<Longrightarrow> length n = 24 \<Longrightarrow> c \<noteq> [] \<Longrightarrow>
   insert_totp_factor (pending_factor i 1000 c n) d
     = Inr (d\<lparr>totp_factors := [pending_factor i 1000 c n]\<rparr>)"
  by (simp add: insert_totp_factor_def pending_factor_def constrained_def account_exists_def
      sample_account_def opt_all_def nonblank_def TOTP_SEED_KEY_ID_def TOTP_SEED_AEAD_def)

lemma sample_mark_active:
  "sessions d = [sample_setup_session] \<Longrightarrow> mark_active 7 1000000000 2800000000 d
     = Inr (d\<lparr>sessions := [sample_setup_session\<lparr>se_last_seen_at := Some 1000000000,
         se_idle_expires_at := 2800000000, se_expires_at := 2800000000\<rparr>]\<rparr>)"
  by (simp add: mark_active_def update_sessions_def update_where_def constrained_def session_checks_def
      opt_all_def sample_sha256_length)

lemma sample_account_id [simp]: "acc_id sample_account = 1000" "acc_login_handle_normalized sample_account = ''ann''"
  by (simp_all add: sample_account_def)

lemma sample_factor_account [simp]: "tf_account_id (sample_factor v) = 1000" "tf_verified_at (sample_factor v) = v"
  by (simp_all add: sample_factor_def)

lemma sample_encrypt: "xchacha_encrypt sample k n aad m = Some (k @ n @ aad @ m)"
  by (simp add: sample_def)

lemma sample_start_runs:
  "wp sample_env (totp_enroll_start sample_headers) (\<lambda>_ _. True) (\<lambda>_ _. False)
     (world_of (sample_enroll_db (Some 0)))"
  by (simp add: totp_enroll_start_def sample_enroll_defs refresh_session_activity_def sample_mark_active
       min_time_def SESSION_IDLE_TTL_def minutes_def encrypt_totp_seed_def sample_encrypt
       account_login_handle_def login_handle_of_def sample_account_id provisioning_uri_def
       validate_profile_def validate_digits_def validate_seed_def google_authenticator_default_def
       MIN_SEED_BYTES_def enroll_start_tx_def delete_factors_def
       delete_where_def sample_factor_account sample_insert_factor insert_audit_event_def insert_audit_def
       constrained_def opt_all_def account_exists_def nonblank_def sample_rfc3339
       TOTP_SEED_BYTES_def XCHACHA20POLY1305_NONCE_BYTES_def map_replicate_const)

theorem totp_enroll_start_removes_factor_witness:
  "active_totp_factor 1000 (sample_enroll_db (Some 0)) \<noteq> None
   \<and> (\<exists>resp w' s. totp_enroll_start sample_headers sample_env (world_of (sample_enroll_db (Some 0))) = (Inr resp, w')
        \<and> s \<in> set (sessions (sample_enroll_db (Some 0))) \<and> active_totp_factor (se_account_id s) (w_db w') = None)"
proof
  show "active_totp_factor 1000 (sample_enroll_db (Some 0)) \<noteq> None"
    by (simp add: active_totp_factor_def sample_enroll_db_def)
  obtain resp w' where run: "totp_enroll_start sample_headers sample_env (world_of (sample_enroll_db (Some 0)))
      = (Inr resp, w')"
    using sample_start_runs by (auto elim: run_of_wp)
  from totp_enroll_start_removes_factor [OF run] obtain s now
    where "enrolling_session sample_env sample_headers (sample_enroll_db (Some 0)) now s"
      and "active_totp_factor (se_account_id s) (w_db w') = None" by auto
  with run show "\<exists>resp w' s. totp_enroll_start sample_headers sample_env (world_of (sample_enroll_db (Some 0)))
      = (Inr resp, w') \<and> s \<in> set (sessions (sample_enroll_db (Some 0)))
      \<and> active_totp_factor (se_account_id s) (w_db w') = None"
    by (auto simp: enrolling_session_def live_session_def)
qed

lemma sample_wrong_code:
  "check_totp_code sample (replicate 32 2) 1000 (sample_factor v) google_authenticator_default ''x''
     1000000000 = Inr None"
proof -
  have "verify sample sample_seed 1000 ''x'' google_authenticator_default None = Inl InvalidCode"
    by (simp add: verify_def google_authenticator_default_def validate_profile_def validate_digits_def
        validate_seed_def MIN_SEED_BYTES_def length_sample_seed validate_code_def)
  moreover have "xchacha_decrypt sample (replicate 32 2) sample_nonce
      (totp_seed_aad sample 1000 50 google_authenticator_default)
      (replicate 32 2 @ sample_nonce @ totp_seed_aad sample 1000 50 google_authenticator_default @ sample_seed)
    = Some sample_seed"
    by (simp add: sample_def Let_def)
  ultimately show ?thesis
    by (simp add: check_totp_code_def sample_factor_def stored_step_def decrypt_totp_seed_def
        XCHACHA20POLY1305_NONCE_BYTES_def length_sample_nonce unix_time_seconds_def)
qed

lemma sample_confirm_fails:
  "wp sample_env (totp_enroll_confirm sample_headers 50 ''x'') (\<lambda>_ _. False)
     (\<lambda>_ w'. totp_factors (w_db w') = []) (world_of (sample_enroll_db None))"
proof -
  have id: "tf_id (sample_factor None) = 50" by (simp add: sample_factor_def)
  show ?thesis
    by (simp add: totp_enroll_confirm_def sample_enroll_defs enroll_confirm_tx_def factor_of_def id
        sample_profile sample_wrong_code enroll_confirm_failed_def delete_pending_factor_def delete_where_def
        insert_audit_event_def insert_audit_def constrained_def opt_all_def account_exists_def nonblank_def)
qed

theorem totp_enroll_confirm_sound_witness:
  "\<exists>x w' now s. totp_enroll_confirm sample_headers 50 ''x'' sample_env (world_of (sample_enroll_db None)) = (Inl x, w')
     \<and> enrolling_session sample_env sample_headers (sample_enroll_db None) now s
     \<and> totp_factors (w_db w') = []"
proof -
  obtain x w' where run: "totp_enroll_confirm sample_headers 50 ''x'' sample_env (world_of (sample_enroll_db None))
      = (Inl x, w')" and gone: "totp_factors (w_db w') = []"
    using sample_confirm_fails by (auto simp: wp_def split: prod.splits sum.splits)
  have "\<not> session_checked (sample_enroll_db None) (w_db w')"
  proof
    assume "session_checked (sample_enroll_db None) (w_db w')"
    from session_refreshed_only [OF session_checked_refreshed [OF this]]
    have "totp_factors (w_db w') = totp_factors (sample_enroll_db None)" by (metis db.select_convs(4) db.surjective db.update_convs(6))
    with gone show False by (simp add: sample_enroll_db_def)
  qed
  with totp_enroll_confirm_sound [OF run] run gone show ?thesis by auto
qed

section \<open>Steps of the enrolment\<close>

locale enroll_steps = session_steps S + mfa_steps S for S +
  assumes remove_step: "S d (delete_factors a d)"
    and drop_step: "S d (delete_pending_factor i a d)"
    and pending_step: "insert_totp_factor (pending_factor i a c n) d = Inr d' \<Longrightarrow> S d d'"
    and verified_step: "S d (set_verified i now s d)"
    and forget_step: "S d (delete_recovery_codes a d)"
    and code_step: "insert_recovery_code \<lparr>rc_id = i, rc_account_id = a, rc_code_salt = salt,
        rc_code_hash = recovery_code_hash X a salt code, rc_used_at = None\<rparr> d = Inr d' \<Longrightarrow> S d d'"
    and upgrade_step: "upgrade_session i k now idle d = Inr d' \<Longrightarrow> S d d'"
begin

lemma goes_store_codes: "goes S e (store_recovery_codes a codes)"
proof (induction codes)
  case (Cons code codes)
  then show ?case
    unfolding store_recovery_codes.simps
    by (intro goes_recovery goes_tx_command) (auto elim: code_step)
qed (simp add: goes_ret)

lemma goes_generate_codes: "goes S e (generate_codes n)"
  by (induction n) (auto intro!: goes_recovery)

lemma moves_totp_enroll_start: "moves S e (totp_enroll_start h)"
  unfolding totp_enroll_start_def enroll_start_tx_def account_login_handle_def Let_def
  by (intro moves_handler_opens opens_try opens_begin moves_session moves_unavailable goes_recovery
      goes_tx_command opens_moves)
    (auto intro: remove_step elim: pending_step)

lemma moves_totp_enroll_confirm: "moves S e (totp_enroll_confirm h i code)"
  unfolding totp_enroll_confirm_def enroll_confirm_tx_def enroll_confirm_failed_def
    enroll_confirm_accepted_def generate_recovery_codes_def Let_def
  by (intro moves_handler_opens opens_try opens_begin moves_session goes_recovery goes_random_token
      goes_tx_command goes_store_codes goes_generate_codes)
    (auto intro: drop_step forget_step verified_step elim: upgrade_step)

end

end
