(* ===== verification/PV_Vault.thy ===== *)
theory PV_Vault
  imports PV_Register
begin

text \<open>
  \<^verbatim>\<open>crates/api/src/vault.rs\<close>: listing vaults, the sync pages, and the two writers
  \<open>create_item\<close> and \<open>create_item_revision\<close>. A vault is an append-only log of item revisions, each
  chained to the one before by the head hash; a writer names the head it has seen and is refused
  when the vault has moved on.
\<close>

section \<open>Constants\<close>

definition ITEM_ENVELOPE_CRYPTO_VERSION :: string where
  "ITEM_ENVELOPE_CRYPTO_VERSION = ''item-envelope-v1''"

definition ITEM_ENVELOPE_AEAD :: string where
  "ITEM_ENVELOPE_AEAD = ''AES-256-GCM''"

definition ITEM_ENVELOPE_NONCE_BYTES :: nat where
  "ITEM_ENVELOPE_NONCE_BYTES = 12"

definition HASH_BYTES :: nat where
  "HASH_BYTES = 32"

definition MAX_KEY_ID_BYTES :: nat where
  "MAX_KEY_ID_BYTES = 128"

definition MAX_ITEM_ENVELOPE_CIPHERTEXT_BYTES :: nat where
  "MAX_ITEM_ENVELOPE_CIPHERTEXT_BYTES = 64 * 1024"

definition MAX_ITEM_ENVELOPE_JSON_BYTES :: nat where
  "MAX_ITEM_ENVELOPE_JSON_BYTES = 96 * 1024"

definition MAX_SYNC_CHANGES_PER_RESPONSE :: nat where
  "MAX_SYNC_CHANGES_PER_RESPONSE = 500"

section \<open>Requests\<close>

text \<open>Sequence numbers are the code's \<open>i64\<close>.\<close>

record item_envelope_request =
  ie_crypto_version :: string
  ie_key_id :: string
  ie_aead :: string
  ie_nonce :: string
  ie_ciphertext :: string

record create_item_request =
  ci_item_id :: uuid
  ci_revision_id :: uuid
  ci_base_head_seq :: int
  ci_base_head_hash :: string
  ci_new_head_hash :: string
  ci_change_mac :: string
  ci_envelope_hash :: string
  ci_encrypted_item_envelope :: item_envelope_request

record create_revision_request =
  cr_revision_id :: uuid
  cr_operation :: string
  cr_base_revision_seq :: int
  cr_base_head_seq :: int
  cr_base_head_hash :: string
  cr_new_head_hash :: string
  cr_change_mac :: string
  cr_envelope_hash :: string
  cr_encrypted_item_envelope :: item_envelope_request

record validated_item_envelope =
  vi_value :: json
  vi_crypto_version :: string
  vi_key_id :: string

record validated_create_item =
  vci_item_id :: uuid
  vci_revision_id :: uuid
  vci_base_head_seq :: int
  vci_base_head_hash :: bytes
  vci_new_head_hash :: bytes
  vci_change_mac :: bytes
  vci_envelope_hash :: bytes
  vci_envelope :: validated_item_envelope

record validated_create_revision =
  vcr_revision_id :: uuid
  vcr_operation :: string
  vcr_base_revision_seq :: int
  vcr_base_head_seq :: int
  vcr_base_head_hash :: bytes
  vcr_new_head_hash :: bytes
  vcr_change_mac :: bytes
  vcr_envelope_hash :: bytes
  vcr_envelope :: validated_item_envelope

definition validate_nonnegative_seq :: "int \<Rightarrow> api_error + int" where
  "validate_nonnegative_seq value = (if 0 \<le> value then Inr value else Inl BadRequest)"

definition validate_positive_seq :: "int \<Rightarrow> api_error + int" where
  "validate_positive_seq value = (if 0 < value then Inr value else Inl BadRequest)"

definition decode_hash :: "externals \<Rightarrow> string \<Rightarrow> api_error + bytes" where
  "decode_hash X value = map_err (\<lambda>_. BadRequest) (decode_base64url_array X HASH_BYTES value)"

text \<open>The envelope as \<open>serde_json::to_value\<close> gives it.\<close>

definition item_envelope_json :: "item_envelope_request \<Rightarrow> json" where
  "item_envelope_json r = JObj
     [(''aead'', JStr (ie_aead r)), (''ciphertext'', JStr (ie_ciphertext r)),
      (''crypto_version'', JStr (ie_crypto_version r)), (''key_id'', JStr (ie_key_id r)),
      (''nonce'', JStr (ie_nonce r))]"

definition item_envelope_from_request ::
  "externals \<Rightarrow> item_envelope_request \<Rightarrow> api_error + validated_item_envelope" where
  "item_envelope_from_request X r =
     (if ie_crypto_version r \<noteq> ITEM_ENVELOPE_CRYPTO_VERSION \<or> ie_aead r \<noteq> ITEM_ENVELOPE_AEAD
      then Inl BadRequest
      else
        and_then (validate_short_text (ie_key_id r) MAX_KEY_ID_BYTES) (\<lambda>key_id.
        and_then (map_err (\<lambda>_. BadRequest)
          (decode_base64url_array X ITEM_ENVELOPE_NONCE_BYTES (ie_nonce r))) (\<lambda>_.
        and_then (map_err (\<lambda>_. BadRequest) (decode_base64url X (ie_ciphertext r))) (\<lambda>ciphertext.
        if ciphertext = [] \<or> length ciphertext > MAX_ITEM_ENVELOPE_CIPHERTEXT_BYTES then Inl BadRequest
        else if json_size X (item_envelope_json r) > MAX_ITEM_ENVELOPE_JSON_BYTES then Inl BadRequest
        else Inr \<lparr>vi_value = item_envelope_json r, vi_crypto_version = ie_crypto_version r,
               vi_key_id = key_id\<rparr>))))"

definition create_item_from_request ::
  "externals \<Rightarrow> create_item_request \<Rightarrow> api_error + validated_create_item" where
  "create_item_from_request X r =
     and_then (validate_nonnegative_seq (ci_base_head_seq r)) (\<lambda>base_head_seq.
     and_then (decode_hash X (ci_base_head_hash r)) (\<lambda>base_head_hash.
     and_then (decode_hash X (ci_new_head_hash r)) (\<lambda>new_head_hash.
     and_then (decode_hash X (ci_change_mac r)) (\<lambda>change_mac.
     and_then (decode_hash X (ci_envelope_hash r)) (\<lambda>envelope_hash.
     and_then (item_envelope_from_request X (ci_encrypted_item_envelope r)) (\<lambda>envelope.
     Inr \<lparr>vci_item_id = ci_item_id r, vci_revision_id = ci_revision_id r,
          vci_base_head_seq = base_head_seq, vci_base_head_hash = base_head_hash,
          vci_new_head_hash = new_head_hash, vci_change_mac = change_mac,
          vci_envelope_hash = envelope_hash, vci_envelope = envelope\<rparr>))))))"

definition create_revision_from_request ::
  "externals \<Rightarrow> create_revision_request \<Rightarrow> api_error + validated_create_revision" where
  "create_revision_from_request X r =
     (if cr_operation r \<noteq> ''update'' \<and> cr_operation r \<noteq> ''delete'' then Inl BadRequest
      else
        and_then (validate_positive_seq (cr_base_revision_seq r)) (\<lambda>base_revision_seq.
        and_then (validate_nonnegative_seq (cr_base_head_seq r)) (\<lambda>base_head_seq.
        and_then (decode_hash X (cr_base_head_hash r)) (\<lambda>base_head_hash.
        and_then (decode_hash X (cr_new_head_hash r)) (\<lambda>new_head_hash.
        and_then (decode_hash X (cr_change_mac r)) (\<lambda>change_mac.
        and_then (decode_hash X (cr_envelope_hash r)) (\<lambda>envelope_hash.
        and_then (item_envelope_from_request X (cr_encrypted_item_envelope r)) (\<lambda>envelope.
        Inr \<lparr>vcr_revision_id = cr_revision_id r, vcr_operation = cr_operation r,
             vcr_base_revision_seq = base_revision_seq, vcr_base_head_seq = base_head_seq,
             vcr_base_head_hash = base_head_hash, vcr_new_head_hash = new_head_hash,
             vcr_change_mac = change_mac, vcr_envelope_hash = envelope_hash,
             vcr_envelope = envelope\<rparr>))))))))"

section \<open>Responses\<close>

record vault_response =
  vl_vault_id :: uuid
  vl_head_seq :: int
  vl_head_hash :: string
  vl_genesis_head_hash :: string
  vl_crypto_version :: string
  vl_key_id :: string
  vl_nonce :: string
  vl_ciphertext :: string
  vl_created_at :: string
  vl_updated_at :: string

record head_response =
  hr_seq :: int
  hr_hash :: string

record sync_change =
  sc_item_id :: uuid
  sc_revision_id :: uuid
  sc_operation :: string
  sc_revision_seq :: int
  sc_head_seq :: int
  sc_previous_head_hash :: string
  sc_head_hash :: string
  sc_base_revision_seq :: int
  sc_base_head_seq :: int
  sc_base_head_hash :: string
  sc_change_mac :: string
  sc_envelope_hash :: string
  sc_encrypted_item_envelope :: json

text \<open>A conflict is an answer of the writers and of the sync, not an error.\<close>

datatype sync_response =
    SyncPage head_response head_response bool "sync_change list"
      \<comment> \<open>from head, to head, has more, changes\<close>
  | SyncConflict string string head_response
      \<comment> \<open>code, message, current head\<close>

datatype write_response =
    RevisionWritten uuid uuid int int string
      \<comment> \<open>item, revision, revision sequence, head sequence, head hash\<close>
  | WriteConflict string string head_response

record vault_head =
  vh_head_seq :: int
  vh_head_hash :: bytes
  vh_genesis_head_hash :: bytes

definition head_response_of :: "externals \<Rightarrow> int \<Rightarrow> bytes \<Rightarrow> head_response" where
  "head_response_of X s hash = \<lparr>hr_seq = s, hr_hash = encode_base64url X hash\<rparr>"

definition vault_conflict_response ::
  "externals \<Rightarrow> (string \<Rightarrow> string \<Rightarrow> head_response \<Rightarrow> 'b) \<Rightarrow> vault_head \<Rightarrow> 'b response" where
  "vault_conflict_response X conflict v = no_store_json 409
     (conflict ''vault_conflict'' ''Vault state conflict.''
        (head_response_of X (vh_head_seq v) (vh_head_hash v)))"

section \<open>The session and the head\<close>

definition require_vault_session :: "headers \<Rightarrow> (api_error, current_session) io" where
  "require_vault_session h =
     try_io now_utc_second (\<lambda>now.
     try_io (load_current_session h now) (\<lambda>current.
     try_io (lift (ok_or SessionRequired current)) (\<lambda>session.
     if \<not> vault_access session then throw MfaRequired
     else refresh_session_activity session now)))"

definition vault_of :: "uuid \<Rightarrow> uuid \<Rightarrow> db \<Rightarrow> vault_row option" where
  "vault_of account_id vault_id d =
     find (\<lambda>v. va_id v = vault_id \<and> va_account_id v = account_id) (vaults d)"

definition vault_head_from_row :: "vault_row \<Rightarrow> vault_head" where
  "vault_head_from_row v =
     \<lparr>vh_head_seq = va_head_seq v, vh_head_hash = va_head_hash v,
      vh_genesis_head_hash = va_genesis_head_hash v\<rparr>"

definition load_vault_head :: "uuid \<Rightarrow> uuid \<Rightarrow> (api_error, vault_head option) io" where
  "load_vault_head account_id vault_id =
     pool_call (query (\<lambda>d. map_option vault_head_from_row (vault_of account_id vault_id d)))"

definition lock_vault_head :: "uuid \<Rightarrow> uuid \<Rightarrow> (api_error, vault_head option) io" where
  "lock_vault_head account_id vault_id =
     tx_call (query (\<lambda>d. map_option vault_head_from_row (vault_of account_id vault_id d)))"

definition head_matches :: "vault_head \<Rightarrow> int \<Rightarrow> bytes \<Rightarrow> bool" where
  "head_matches v base_head_seq base_head_hash \<longleftrightarrow>
     vh_head_seq v = base_head_seq \<and> vh_head_hash v = base_head_hash"

section \<open>Listing\<close>

text \<open>The order of \<open>ORDER BY v.created_at, v.id\<close>, as a linear order on its keys.\<close>

datatype listing_key = ListingKey time uuid

instantiation listing_key :: linorder
begin

fun less_eq_listing_key :: "listing_key \<Rightarrow> listing_key \<Rightarrow> bool" where
  "less_eq_listing_key (ListingKey t i) (ListingKey u j) = (t < u \<or> t = u \<and> i \<le> j)"

fun less_listing_key :: "listing_key \<Rightarrow> listing_key \<Rightarrow> bool" where
  "less_listing_key (ListingKey t i) (ListingKey u j) = (t < u \<or> t = u \<and> i < j)"

instance
proof
  fix x y z :: listing_key
  show "x < y \<longleftrightarrow> x \<le> y \<and> \<not> y \<le> x" by (cases x; cases y) auto
  show "x \<le> x" by (cases x) simp
  show "x \<le> y \<Longrightarrow> y \<le> z \<Longrightarrow> x \<le> z" by (cases x; cases y; cases z) auto
  show "x \<le> y \<Longrightarrow> y \<le> x \<Longrightarrow> x = y" by (cases x; cases y) auto
  show "x \<le> y \<or> y \<le> x" by (cases x; cases y) auto
qed

end

definition vault_listing :: "uuid \<Rightarrow> db \<Rightarrow> (vault_row \<times> key_wrap_row) list" where
  "vault_listing account_id d =
     sort_key (\<lambda>(v, w). ListingKey (va_created_at v) (va_id v))
       (filter (\<lambda>(v, w). kw_vault_id w = va_id v \<and> kw_account_id w = va_account_id v
            \<and> va_account_id v = account_id)
          (List.product (vaults d) (vault_key_wraps d)))"

fun vault_responses :: "(vault_row \<times> key_wrap_row) list \<Rightarrow> (api_error, vault_response list) io" where
  "vault_responses [] = ret []"
| "vault_responses ((v, w) # rows) =
     try_io ask (\<lambda>e.
     try_io (format_rfc3339 (va_created_at v)) (\<lambda>created_at.
     try_io (format_rfc3339 (va_updated_at v)) (\<lambda>updated_at.
     try_io (vault_responses rows) (\<lambda>vs.
     ret (\<lparr>vl_vault_id = va_id v, vl_head_seq = va_head_seq v,
           vl_head_hash = encode_base64url (ext e) (va_head_hash v),
           vl_genesis_head_hash = encode_base64url (ext e) (va_genesis_head_hash v),
           vl_crypto_version = kw_crypto_version w, vl_key_id = kw_key_id w,
           vl_nonce = encode_base64url (ext e) (kw_nonce w),
           vl_ciphertext = encode_base64url (ext e) (kw_ciphertext w),
           vl_created_at = created_at, vl_updated_at = updated_at\<rparr> # vs)))))"

definition list_vaults :: "headers \<Rightarrow> (api_error, vault_response list response) io" where
  "list_vaults h = handler (
     try_io database_pool (\<lambda>_.
     try_io (require_vault_session h) (\<lambda>session.
     try_io (pool_call (query (vault_listing (cs_account_id session)))) (\<lambda>rows.
     try_io (vault_responses rows) (\<lambda>vs.
     ret (no_store_json 200 vs))))))"

section \<open>Sync\<close>

definition revision_hash_at :: "uuid \<Rightarrow> int \<Rightarrow> db \<Rightarrow> bytes option" where
  "revision_hash_at vault_id s d =
     map_option rv_head_hash
       (find (\<lambda>r. rv_vault_id r = vault_id \<and> rv_head_seq r = s) (vault_item_revisions d))"

definition sync_cursor_matches :: "uuid \<Rightarrow> vault_head \<Rightarrow> int \<Rightarrow> bytes \<Rightarrow> (api_error, bool) io" where
  "sync_cursor_matches vault_id v from_head_seq from_head_hash =
     (if from_head_seq > vh_head_seq v then ret False
      else if from_head_seq = vh_head_seq v then ret (vh_head_hash v = from_head_hash)
      else if from_head_seq = 0 then ret (vh_genesis_head_hash v = from_head_hash)
      else
        try_io (pool_call (query (revision_hash_at vault_id from_head_seq))) (\<lambda>stored.
        ret (stored = Some from_head_hash)))"

definition sync_rows :: "uuid \<Rightarrow> int \<Rightarrow> int \<Rightarrow> nat \<Rightarrow> db \<Rightarrow> revision_row list" where
  "sync_rows vault_id from_seq head_seq limit d =
     take limit (sort_key rv_head_seq
       (filter (\<lambda>r. rv_vault_id r = vault_id \<and> from_seq < rv_head_seq r \<and> rv_head_seq r \<le> head_seq)
          (vault_item_revisions d)))"

definition sync_change_of :: "externals \<Rightarrow> revision_row \<Rightarrow> sync_change" where
  "sync_change_of X r =
     \<lparr>sc_item_id = rv_item_id r, sc_revision_id = rv_id r, sc_operation = rv_operation r,
      sc_revision_seq = rv_revision_seq r, sc_head_seq = rv_head_seq r,
      sc_previous_head_hash = encode_base64url X (rv_previous_head_hash r),
      sc_head_hash = encode_base64url X (rv_head_hash r),
      sc_base_revision_seq = rv_base_revision_seq r, sc_base_head_seq = rv_base_head_seq r,
      sc_base_head_hash = encode_base64url X (rv_base_head_hash r),
      sc_change_mac = encode_base64url X (rv_change_mac r),
      sc_envelope_hash = encode_base64url X (rv_envelope_hash r),
      sc_encrypted_item_envelope = rv_encrypted_item_envelope r\<rparr>"

definition sync_page :: "externals \<Rightarrow> vault_head \<Rightarrow> int \<Rightarrow> bytes \<Rightarrow> revision_row list \<Rightarrow> sync_response" where
  "sync_page X v from_head_seq from_head_hash rows =
     (let has_more = length rows > MAX_SYNC_CHANGES_PER_RESPONSE;
          rows = (if has_more then take MAX_SYNC_CHANGES_PER_RESPONSE rows else rows);
          to_head = (if rows = [] then head_response_of X (vh_head_seq v) (vh_head_hash v)
            else head_response_of X (rv_head_seq (last rows)) (rv_head_hash (last rows))) in
      SyncPage (head_response_of X from_head_seq from_head_hash) to_head has_more
        (map (sync_change_of X) rows))"

definition sync_vault :: "headers \<Rightarrow> uuid \<Rightarrow> int \<Rightarrow> string \<Rightarrow> (api_error, sync_response response) io" where
  "sync_vault h vault_id from_seq from_hash = handler (
     try_io database_pool (\<lambda>_.
     try_io (require_vault_session h) (\<lambda>session.
     try_io ask (\<lambda>e.
     try_io (lift (validate_nonnegative_seq from_seq)) (\<lambda>from_head_seq.
     try_io (lift (decode_hash (ext e) from_hash)) (\<lambda>from_head_hash.
     try_io (load_vault_head (cs_account_id session) vault_id) (\<lambda>head.
     case head of
       None \<Rightarrow> throw NotFound
     | Some v \<Rightarrow>
         try_io (sync_cursor_matches vault_id v from_head_seq from_head_hash) (\<lambda>matches.
         if \<not> matches
         then try_io (sync_request ''conflict'' ''none'') (\<lambda>_.
           ret (vault_conflict_response (ext e) SyncConflict v))
         else
           try_io (pool_call (query (sync_rows vault_id from_head_seq (vh_head_seq v)
             (MAX_SYNC_CHANGES_PER_RESPONSE + 1)))) (\<lambda>rows.
           try_io (sync_request ''success''
             (if length rows > MAX_SYNC_CHANGES_PER_RESPONSE then ''partial'' else ''complete'')) (\<lambda>_.
           ret (no_store_json 200 (sync_page (ext e) v from_head_seq from_head_hash rows))))))))))))"

section \<open>Statements of the writers\<close>

datatype vault_write_error = Conflict | Api api_error

definition write_error :: "sql_error \<Rightarrow> vault_write_error" where
  "write_error x = (if is_unique_violation x then Conflict else Api ServiceUnavailable)"

definition new_item :: "uuid \<Rightarrow> uuid \<Rightarrow> time \<Rightarrow> item_row" where
  "new_item vault_id item_id t =
     \<lparr>it_id = item_id, it_vault_id = vault_id, it_latest_revision_id = None,
      it_latest_revision_seq = 0, it_deleted_at = None, it_updated_at = t\<rparr>"

definition insert_item_row :: "uuid \<Rightarrow> uuid \<Rightarrow> (vault_write_error, unit) io" where
  "insert_item_row vault_id item_id =
     map_err_io write_error (run_tx (command (\<lambda>t. insert_item (new_item vault_id item_id t))))"

definition insert_revision_row :: "revision_row \<Rightarrow> (vault_write_error, unit) io" where
  "insert_revision_row input = map_err_io write_error (run_tx (command (\<lambda>_. insert_revision input)))"

definition set_item_latest ::
  "uuid \<Rightarrow> uuid \<Rightarrow> uuid \<Rightarrow> int \<Rightarrow> bool \<Rightarrow> time \<Rightarrow> db \<Rightarrow> sql_error + db" where
  "set_item_latest vault_id item_id revision_id revision_seq deleted now d =
     (let hit = (\<lambda>i. it_vault_id i = vault_id \<and> it_id i = item_id) in
      constrained (\<not> list_ex hit (vault_items d) \<or> 0 \<le> revision_seq) True
        (\<not> list_ex hit (vault_items d)
         \<or> list_ex (\<lambda>r. rv_vault_id r = vault_id \<and> rv_item_id r = item_id \<and> rv_id r = revision_id)
             (vault_item_revisions d))
        (d\<lparr>vault_items := update_where hit
           (\<lambda>i. i\<lparr>it_latest_revision_id := Some revision_id, it_latest_revision_seq := revision_seq,
                 it_deleted_at := (if deleted then Some now else it_deleted_at i),
                 it_updated_at := now\<rparr>) (vault_items d)\<rparr>))"

definition update_item_latest ::
  "uuid \<Rightarrow> uuid \<Rightarrow> uuid \<Rightarrow> int \<Rightarrow> bool \<Rightarrow> time \<Rightarrow> (api_error, unit) io" where
  "update_item_latest vault_id item_id revision_id revision_seq deleted now =
     tx_call (command (\<lambda>_. set_item_latest vault_id item_id revision_id revision_seq deleted now))"

definition set_vault_head :: "uuid \<Rightarrow> uuid \<Rightarrow> int \<Rightarrow> bytes \<Rightarrow> time \<Rightarrow> db \<Rightarrow> sql_error + db" where
  "set_vault_head account_id vault_id head_seq head_hash now d =
     (let hit = (\<lambda>v. va_id v = vault_id \<and> va_account_id v = account_id) in
      constrained (\<not> list_ex hit (vaults d) \<or> length head_hash = 32 \<and> 0 \<le> head_seq) True True
        (d\<lparr>vaults := update_where hit
           (\<lambda>v. v\<lparr>va_head_seq := head_seq, va_head_hash := head_hash, va_updated_at := now\<rparr>) (vaults d)\<rparr>))"

definition update_vault_head :: "uuid \<Rightarrow> uuid \<Rightarrow> int \<Rightarrow> bytes \<Rightarrow> time \<Rightarrow> (api_error, unit) io" where
  "update_vault_head account_id vault_id head_seq head_hash now =
     tx_call (command (\<lambda>_. set_vault_head account_id vault_id head_seq head_hash now))"

record locked_item =
  li_latest_revision_seq :: int
  li_deleted :: bool

definition item_of :: "uuid \<Rightarrow> uuid \<Rightarrow> db \<Rightarrow> item_row option" where
  "item_of vault_id item_id d =
     find (\<lambda>i. it_vault_id i = vault_id \<and> it_id i = item_id) (vault_items d)"

definition lock_item :: "uuid \<Rightarrow> uuid \<Rightarrow> (api_error, locked_item option) io" where
  "lock_item vault_id item_id =
     tx_call (query (\<lambda>d. map_option (\<lambda>i.
       \<lparr>li_latest_revision_seq = it_latest_revision_seq i, li_deleted = (it_deleted_at i \<noteq> None)\<rparr>)
       (item_of vault_id item_id d)))"

text \<open>\<open>if let Err(error) = \<dots> { return match error \<dots> }\<close>: a conflict becomes the answer.\<close>

definition or_conflict ::
  "vault_head \<Rightarrow> (vault_write_error, unit) io \<Rightarrow> (api_error, write_response response) io
   \<Rightarrow> (api_error, write_response response) io" where
  "or_conflict v m k =
     try_io ask (\<lambda>e.
     try_io (attempt m) (\<lambda>r.
     case r of
       Inl error \<Rightarrow>
         (case error of
            Conflict \<Rightarrow> ret (vault_conflict_response (ext e) WriteConflict v)
          | Api x \<Rightarrow> throw x)
     | Inr _ \<Rightarrow> k))"

definition change_event :: "externals \<Rightarrow> uuid \<Rightarrow> uuid \<Rightarrow> uuid \<Rightarrow> int \<Rightarrow> int \<Rightarrow> json" where
  "change_event X vault_id item_id revision_id head_seq revision_seq = JObj
     [(''head_seq'', JNum head_seq), (''item_id'', JStr (uuid_text X item_id)),
      (''revision_id'', JStr (uuid_text X revision_id)), (''revision_seq'', JNum revision_seq),
      (''vault_id'', JStr (uuid_text X vault_id))]"

text \<open>The statements that both writers end with.\<close>

definition finish_write ::
  "current_session \<Rightarrow> uuid \<Rightarrow> uuid \<Rightarrow> uuid \<Rightarrow> int \<Rightarrow> int \<Rightarrow> bytes \<Rightarrow> string \<Rightarrow> string option \<Rightarrow> time
   \<Rightarrow> (api_error, write_response response) io" where
  "finish_write session vault_id item_id revision_id revision_seq head_seq new_head_hash operation event now =
     try_io ask (\<lambda>e.
     try_io (update_item_latest vault_id item_id revision_id revision_seq (operation = ''delete'') now) (\<lambda>_.
     try_io (update_vault_head (cs_account_id session) vault_id head_seq new_head_hash now) (\<lambda>_.
     try_io (lift (ok_or BadRequest event)) (\<lambda>event.
     try_io (insert_audit_event (cs_account_id session) (cs_device_id session) event
       (change_event (ext e) vault_id item_id revision_id head_seq revision_seq)) (\<lambda>_.
     try_io (unavailable commit_tx) (\<lambda>_.
     try_io (vault_item_change operation ''success'') (\<lambda>_.
     ret (no_store_json 201 (RevisionWritten item_id revision_id revision_seq head_seq
       (encode_base64url (ext e) new_head_hash))))))))))"

section \<open>Creating an item\<close>

text \<open>The head sequence number is incremented as an \<open>i64\<close>.\<close>

definition create_revision_input :: "uuid \<Rightarrow> validated_create_item \<Rightarrow> int \<Rightarrow> revision_row" where
  "create_revision_input vault_id r head_seq =
     \<lparr>rv_id = vci_revision_id r, rv_vault_id = vault_id, rv_item_id = vci_item_id r,
      rv_operation = ''create'', rv_revision_seq = 1, rv_base_revision_seq = 0,
      rv_head_seq = head_seq, rv_base_head_seq = vci_base_head_seq r,
      rv_base_head_hash = vci_base_head_hash r, rv_previous_head_hash = vci_base_head_hash r,
      rv_head_hash = vci_new_head_hash r, rv_change_mac = vci_change_mac r,
      rv_key_id = vi_key_id (vci_envelope r), rv_crypto_version = vi_crypto_version (vci_envelope r),
      rv_envelope_hash = vci_envelope_hash r,
      rv_encrypted_item_envelope = vi_value (vci_envelope r)\<rparr>"

definition create_item_tx ::
  "current_session \<Rightarrow> uuid \<Rightarrow> validated_create_item \<Rightarrow> time \<Rightarrow> (api_error, write_response response) io" where
  "create_item_tx session vault_id r now =
     try_io ask (\<lambda>e.
     try_io (lock_vault_head (cs_account_id session) vault_id) (\<lambda>head.
     case head of
       None \<Rightarrow> try_io (vault_item_change ''create'' ''not_found'') (\<lambda>_. throw NotFound)
     | Some v \<Rightarrow>
         if \<not> head_matches v (vci_base_head_seq r) (vci_base_head_hash r)
         then try_io (vault_item_change ''create'' ''conflict'') (\<lambda>_.
           ret (vault_conflict_response (ext e) WriteConflict v))
         else
           let head_seq = wrap_i64 (vh_head_seq v + 1) in
           or_conflict v (insert_item_row vault_id (vci_item_id r))
             (or_conflict v (insert_revision_row (create_revision_input vault_id r head_seq))
               (finish_write session vault_id (vci_item_id r) (vci_revision_id r) 1 head_seq
                 (vci_new_head_hash r) ''create'' (Some ''vault_item_created'') now))))"

definition create_item ::
  "headers \<Rightarrow> uuid \<Rightarrow> create_item_request \<Rightarrow> (api_error, write_response response) io" where
  "create_item h vault_id request = handler (
     try_io (lift (ensure_unsafe_request_context h)) (\<lambda>_.
     try_io database_pool (\<lambda>_.
     try_io (require_vault_session h) (\<lambda>session.
     try_io (ensure_csrf_token h (cs_id session)) (\<lambda>_.
     try_io ask (\<lambda>e.
     try_io (lift (create_item_from_request (ext e) request)) (\<lambda>r.
     try_io now_utc_second (\<lambda>now.
     try_io (unavailable begin_tx) (\<lambda>_.
     create_item_tx session vault_id r now)))))))))"

section \<open>Revising an item\<close>

definition revision_input :: "uuid \<Rightarrow> uuid \<Rightarrow> validated_create_revision \<Rightarrow> int \<Rightarrow> int \<Rightarrow> revision_row" where
  "revision_input vault_id item_id r revision_seq head_seq =
     \<lparr>rv_id = vcr_revision_id r, rv_vault_id = vault_id, rv_item_id = item_id,
      rv_operation = vcr_operation r, rv_revision_seq = revision_seq,
      rv_base_revision_seq = vcr_base_revision_seq r,
      rv_head_seq = head_seq, rv_base_head_seq = vcr_base_head_seq r,
      rv_base_head_hash = vcr_base_head_hash r, rv_previous_head_hash = vcr_base_head_hash r,
      rv_head_hash = vcr_new_head_hash r, rv_change_mac = vcr_change_mac r,
      rv_key_id = vi_key_id (vcr_envelope r), rv_crypto_version = vi_crypto_version (vcr_envelope r),
      rv_envelope_hash = vcr_envelope_hash r,
      rv_encrypted_item_envelope = vi_value (vcr_envelope r)\<rparr>"

definition revision_event :: "string \<Rightarrow> string option" where
  "revision_event operation =
     (if operation = ''update'' then Some ''vault_item_updated''
      else if operation = ''delete'' then Some ''vault_item_deleted'' else None)"

definition create_item_revision_tx ::
  "current_session \<Rightarrow> uuid \<Rightarrow> uuid \<Rightarrow> validated_create_revision \<Rightarrow> time
   \<Rightarrow> (api_error, write_response response) io" where
  "create_item_revision_tx session vault_id item_id r now =
     try_io ask (\<lambda>e.
     try_io (lock_vault_head (cs_account_id session) vault_id) (\<lambda>head.
     case head of
       None \<Rightarrow> try_io (vault_item_change (vcr_operation r) ''vault_not_found'') (\<lambda>_. throw NotFound)
     | Some v \<Rightarrow>
         try_io (lock_item vault_id item_id) (\<lambda>item.
         case item of
           None \<Rightarrow> try_io (vault_item_change (vcr_operation r) ''item_not_found'') (\<lambda>_. throw NotFound)
         | Some i \<Rightarrow>
             if \<not> head_matches v (vcr_base_head_seq r) (vcr_base_head_hash r)
                \<or> vcr_base_revision_seq r \<noteq> li_latest_revision_seq i \<or> li_deleted i
             then try_io (vault_item_change (vcr_operation r) ''conflict'') (\<lambda>_.
               ret (vault_conflict_response (ext e) WriteConflict v))
             else
               let revision_seq = wrap_i64 (li_latest_revision_seq i + 1);
                   head_seq = wrap_i64 (vh_head_seq v + 1) in
               or_conflict v (insert_revision_row (revision_input vault_id item_id r revision_seq head_seq))
                 (finish_write session vault_id item_id (vcr_revision_id r) revision_seq head_seq
                   (vcr_new_head_hash r) (vcr_operation r) (revision_event (vcr_operation r)) now))))"

definition create_item_revision ::
  "headers \<Rightarrow> uuid \<Rightarrow> uuid \<Rightarrow> create_revision_request \<Rightarrow> (api_error, write_response response) io" where
  "create_item_revision h vault_id item_id request = handler (
     try_io (lift (ensure_unsafe_request_context h)) (\<lambda>_.
     try_io database_pool (\<lambda>_.
     try_io (require_vault_session h) (\<lambda>session.
     try_io (ensure_csrf_token h (cs_id session)) (\<lambda>_.
     try_io ask (\<lambda>e.
     try_io (lift (create_revision_from_request (ext e) request)) (\<lambda>r.
     try_io now_utc_second (\<lambda>now.
     try_io (unavailable begin_tx) (\<lambda>_.
     create_item_revision_tx session vault_id item_id r now)))))))))"

end
