(* ===== verification/PV_Writers.thy ===== *)
theory PV_Writers
  imports PV_Vault
begin

text \<open>
  What the vault writers of \<^verbatim>\<open>vault.rs\<close> commit: the composition of their statements as one
  step on the database, the weakest preconditions of the handlers, and the properties of an
  accepted and of a refused write.
\<close>

section \<open>An accepted write as one step\<close>

definition commit_revision :: "uuid \<Rightarrow> revision_row \<Rightarrow> time \<Rightarrow> db \<Rightarrow> sql_error + db" where
  "commit_revision account_id r now d =
     and_then (insert_revision r d) (\<lambda>d.
     and_then (set_item_latest (rv_vault_id r) (rv_item_id r) (rv_id r) (rv_revision_seq r)
       (rv_operation r = ''delete'') now d) (\<lambda>d.
     set_vault_head account_id (rv_vault_id r) (rv_head_seq r) (rv_head_hash r) now d))"

text \<open>The guards of the writers: the revision is based on the head of the vault, and a revision of
  an existing item on its latest revision, while the item is not deleted.\<close>

definition based_on_head :: "uuid \<Rightarrow> revision_row \<Rightarrow> db \<Rightarrow> bool" where
  "based_on_head account_id r d \<longleftrightarrow>
     (\<exists>v. vault_of account_id (rv_vault_id r) d = Some v
        \<and> rv_base_head_seq r = va_head_seq v \<and> rv_base_head_hash r = va_head_hash v
        \<and> rv_previous_head_hash r = va_head_hash v \<and> rv_head_seq r = wrap_i64 (va_head_seq v + 1))"

definition based_on_item :: "revision_row \<Rightarrow> db \<Rightarrow> bool" where
  "based_on_item r d \<longleftrightarrow>
     (\<exists>i. item_of (rv_vault_id r) (rv_item_id r) d = Some i \<and> it_deleted_at i = None
        \<and> rv_base_revision_seq r = it_latest_revision_seq i
        \<and> rv_revision_seq r = wrap_i64 (it_latest_revision_seq i + 1))"

definition vault_append :: "uuid \<Rightarrow> revision_row \<Rightarrow> db \<Rightarrow> db \<Rightarrow> bool" where
  "vault_append account_id r d d' \<longleftrightarrow> based_on_head account_id r d
     \<and> (\<exists>d0 d1 now au.
          (if rv_operation r = ''create''
           then rv_revision_seq r = 1 \<and> rv_base_revision_seq r = 0
             \<and> (\<exists>t. insert_item (new_item (rv_vault_id r) (rv_item_id r) t) d = Inr d0)
           else (rv_operation r = ''update'' \<or> rv_operation r = ''delete'') \<and> based_on_item r d \<and> d0 = d)
          \<and> commit_revision account_id r now d0 = Inr d1
          \<and> d' = d1\<lparr>audit_events := audit_events d1 @ [au]\<rparr>)"

section \<open>Rules for the statements\<close>

lemma vc_attempt:
  "wp e m (\<lambda>a. Q (Inr a)) (\<lambda>x. Q (Inl x)) w \<Longrightarrow> wp e (attempt m) Q R w"
  by (simp add: wp_eqs)

lemma wp_or_conflict:
  assumes "wp e m (\<lambda>_. wp e k Q R) (\<lambda>x w'. case x of
      Conflict \<Rightarrow> Q (vault_conflict_response (ext e) WriteConflict v) w' | Api y \<Rightarrow> R y w') w"
  shows "wp e (or_conflict v m k) Q R w"
  unfolding or_conflict_def wp_eqs
  by (rule wp_mono [OF assms]) (simp_all add: wp_eqs split: vault_write_error.splits)

lemma wp_insert_item_row:
  assumes "\<And>d t d' w'. w_txn w = Some (d, t) \<Longrightarrow> insert_item (new_item vault_id item_id t) d = Inr d' \<Longrightarrow>
      w_db w' = w_db w \<Longrightarrow> w_txn w' = Some (d', t) \<Longrightarrow> Q () w'"
    and "\<And>x w'. w_db w' = w_db w \<Longrightarrow> R x w'"
  shows "wp e (insert_item_row vault_id item_id) Q R w"
  unfolding insert_item_row_def by (intro vc_rules) (use assms in auto)

lemma wp_insert_revision_row:
  assumes "\<And>d t d' w'. w_txn w = Some (d, t) \<Longrightarrow> insert_revision r d = Inr d' \<Longrightarrow>
      w_db w' = w_db w \<Longrightarrow> w_txn w' = Some (d', t) \<Longrightarrow> Q () w'"
    and "\<And>x w'. w_db w' = w_db w \<Longrightarrow> R x w'"
  shows "wp e (insert_revision_row r) Q R w"
  unfolding insert_revision_row_def by (intro vc_rules) (use assms in auto)

lemma wp_item_or_conflict:
  assumes "\<And>d t d' w'. w_txn w = Some (d, t) \<Longrightarrow> insert_item (new_item vault_id item_id t) d = Inr d' \<Longrightarrow>
      w_db w' = w_db w \<Longrightarrow> w_txn w' = Some (d', t) \<Longrightarrow> wp e k Q R w'"
    and "\<And>w'. w_db w' = w_db w \<Longrightarrow> Q (vault_conflict_response (ext e) WriteConflict v) w'"
    and "\<And>x w'. w_db w' = w_db w \<Longrightarrow> R x w'"
  shows "wp e (or_conflict v (insert_item_row vault_id item_id) k) Q R w"
  by (rule wp_or_conflict, rule wp_insert_item_row)
    (use assms in \<open>auto split: vault_write_error.splits\<close>)

lemma wp_revision_or_conflict:
  assumes "\<And>d t d' w'. w_txn w = Some (d, t) \<Longrightarrow> insert_revision r d = Inr d' \<Longrightarrow>
      w_db w' = w_db w \<Longrightarrow> w_txn w' = Some (d', t) \<Longrightarrow> wp e k Q R w'"
    and "\<And>w'. w_db w' = w_db w \<Longrightarrow> Q (vault_conflict_response (ext e) WriteConflict v) w'"
    and "\<And>x w'. w_db w' = w_db w \<Longrightarrow> R x w'"
  shows "wp e (or_conflict v (insert_revision_row r) k) Q R w"
  by (rule wp_or_conflict, rule wp_insert_revision_row)
    (use assms in \<open>auto split: vault_write_error.splits\<close>)

lemma wp_lock_vault_head:
  assumes "\<And>d t w'. w_txn w = Some (d, t) \<Longrightarrow> same_state w w' \<Longrightarrow>
      Q (map_option vault_head_from_row (vault_of a v d)) w'"
    and "\<And>x w'. w_db w' = w_db w \<Longrightarrow> R x w'"
  shows "wp e (lock_vault_head a v) Q R w"
  unfolding lock_vault_head_def by (intro vc_rules) (use assms in auto)

lemma wp_lock_item:
  assumes "\<And>d t w'. w_txn w = Some (d, t) \<Longrightarrow> same_state w w' \<Longrightarrow>
      Q (map_option (\<lambda>i. \<lparr>li_latest_revision_seq = it_latest_revision_seq i,
          li_deleted = (it_deleted_at i \<noteq> None)\<rparr>) (item_of v i d)) w'"
    and "\<And>x w'. w_db w' = w_db w \<Longrightarrow> R x w'"
  shows "wp e (lock_item v i) Q R w"
  unfolding lock_item_def by (intro vc_rules) (use assms in auto)

text \<open>The end of a write, after its revision was inserted.\<close>

definition finished_write ::
  "uuid \<Rightarrow> uuid \<Rightarrow> uuid \<Rightarrow> uuid \<Rightarrow> int \<Rightarrow> int \<Rightarrow> bytes \<Rightarrow> bool \<Rightarrow> time \<Rightarrow> db \<Rightarrow> db \<Rightarrow> bool" where
  "finished_write a vault_id item_id revision_id revision_seq head_seq hash deleted now d d' \<longleftrightarrow>
     (\<exists>d1 d2 au. set_item_latest vault_id item_id revision_id revision_seq deleted now d = Inr d1
        \<and> set_vault_head a vault_id head_seq hash now d1 = Inr d2
        \<and> d' = d2\<lparr>audit_events := audit_events d2 @ [au]\<rparr>)"

lemma wp_finish_write:
  assumes "w_txn w = Some (d, t)"
  shows "wp e (finish_write session v i rid rs hs hash operation event now)
     (\<lambda>resp w'. finished_write (cs_account_id session) v i rid rs hs hash (operation = ''delete'') now d (w_db w')
        \<and> resp = no_store_json 201 (RevisionWritten i rid rs hs (encode_base64url (ext e) hash)))
     (\<lambda>_ w'. w_db w' = w_db w
        \<or> finished_write (cs_account_id session) v i rid rs hs hash (operation = ''delete'') now d (w_db w')) w"
  unfolding finish_write_def update_item_latest_def update_vault_head_def telemetry_defs counter_def
    finished_write_def
  by (intro vc_rules wp_audit_event) (use assms in \<open>auto simp: same_state_def\<close>)

lemma wp_require_vault_session:
  assumes "\<And>now tok s w'. session_token_from_headers (ext e) h = Some tok \<Longrightarrow>
      se_session_token_hash s = sha256_verifier (ext e) tok \<Longrightarrow> live_session (w_db w) now s \<Longrightarrow>
      se_session_state s = ''mfa_verified'' \<Longrightarrow> session_refreshed (w_db w) (w_db w') \<Longrightarrow> w_txn w' = w_txn w \<Longrightarrow>
      Q ((session_of s)\<lparr>cs_idle_expires_at := min_time (now + SESSION_IDLE_TTL)
          (cs_absolute_expires_at (session_of s))\<rparr>) w'"
    and "\<And>x w'. session_refreshed (w_db w) (w_db w') \<Longrightarrow> R x w'"
  shows "wp e (require_vault_session h) Q R w"
  unfolding require_vault_session_def
  apply (intro vc_rules wp_check_session wp_refresh_session)
  apply (simp_all add: same_state_def session_checked_refreshed assms(2))
  apply (auto simp: vault_access_def intro: assms(1) [simplified])
  done

section \<open>The transactions of the writers\<close>

text \<open>A refusal: nothing is written, and the answer names the current head of the vault.\<close>

definition write_refused :: "externals \<Rightarrow> uuid \<Rightarrow> uuid \<Rightarrow> db \<Rightarrow> write_response response \<Rightarrow> bool" where
  "write_refused X a vault_id d resp \<longleftrightarrow>
     (\<exists>v. vault_of a vault_id d = Some v
        \<and> resp = vault_conflict_response X WriteConflict (vault_head_from_row v))"

definition write_accepted :: "externals \<Rightarrow> uuid \<Rightarrow> revision_row \<Rightarrow> db \<Rightarrow> db \<Rightarrow> write_response response \<Rightarrow> bool" where
  "write_accepted X a r d d' resp \<longleftrightarrow> vault_append a r d d'
     \<and> resp = no_store_json 201 (RevisionWritten (rv_item_id r) (rv_id r) (rv_revision_seq r) (rv_head_seq r)
         (encode_base64url X (rv_head_hash r)))"

definition create_row :: "uuid \<Rightarrow> uuid \<Rightarrow> validated_create_item \<Rightarrow> db \<Rightarrow> revision_row" where
  "create_row a vault_id r d = create_revision_input vault_id r
     (wrap_i64 (case vault_of a vault_id d of None \<Rightarrow> 0 | Some v \<Rightarrow> va_head_seq v + 1))"

lemma create_input_simps [simp]:
  "rv_operation (create_revision_input v r s) = ''create''" "rv_vault_id (create_revision_input v r s) = v"
  "rv_item_id (create_revision_input v r s) = vci_item_id r" "rv_id (create_revision_input v r s) = vci_revision_id r"
  "rv_revision_seq (create_revision_input v r s) = 1" "rv_base_revision_seq (create_revision_input v r s) = 0"
  "rv_head_seq (create_revision_input v r s) = s"
  "rv_base_head_seq (create_revision_input v r s) = vci_base_head_seq r"
  "rv_base_head_hash (create_revision_input v r s) = vci_base_head_hash r"
  "rv_previous_head_hash (create_revision_input v r s) = vci_base_head_hash r"
  "rv_head_hash (create_revision_input v r s) = vci_new_head_hash r"
  by (simp_all add: create_revision_input_def)

lemma vault_head_simps [simp]:
  "vh_head_seq (vault_head_from_row v) = va_head_seq v" "vh_head_hash (vault_head_from_row v) = va_head_hash v"
  "vh_genesis_head_hash (vault_head_from_row v) = va_genesis_head_hash v"
  by (simp_all add: vault_head_from_row_def)

lemma create_append:
  assumes "vault_of a v d = Some row" and "head_matches (vault_head_from_row row) (vci_base_head_seq r) (vci_base_head_hash r)"
    and "insert_item (new_item v (vci_item_id r) t) d = Inr d0"
    and "insert_revision (create_revision_input v r (wrap_i64 (va_head_seq row + 1))) d0 = Inr d1"
    and "finished_write a v (vci_item_id r) (vci_revision_id r) 1 (wrap_i64 (va_head_seq row + 1))
      (vci_new_head_hash r) False now d1 d'"
  shows "vault_append a (create_row a v r d) d d'"
proof -
  let ?r = "create_row a v r d"
  have r: "?r = create_revision_input v r (wrap_i64 (va_head_seq row + 1))"
    by (simp add: create_row_def assms(1))
  from assms(5) obtain d2 d3 au where "set_item_latest v (vci_item_id r) (vci_revision_id r) 1 False now d1 = Inr d2"
    "set_vault_head a v (wrap_i64 (va_head_seq row + 1)) (vci_new_head_hash r) now d2 = Inr d3"
    "d' = d3\<lparr>audit_events := audit_events d3 @ [au]\<rparr>" by (auto simp: finished_write_def)
  moreover from this have "commit_revision a ?r now d0 = Inr d3"
    using assms(4) by (simp add: commit_revision_def r)
  ultimately show ?thesis
    using assms(1,2,3) unfolding vault_append_def based_on_head_def r head_matches_def by auto
qed

lemma wp_create_item_tx:
  assumes "w_txn w = Some (w_db w, t)"
  shows "wp e (create_item_tx session v r now)
     (\<lambda>resp w'. write_accepted (ext e) (cs_account_id session) (create_row (cs_account_id session) v r (w_db w))
          (w_db w) (w_db w') resp
        \<or> w_db w' = w_db w \<and> write_refused (ext e) (cs_account_id session) v (w_db w) resp)
     (\<lambda>_ w'. w_db w' = w_db w
        \<or> vault_append (cs_account_id session) (create_row (cs_account_id session) v r (w_db w)) (w_db w) (w_db w')) w"
proof -
  have accepted: "write_accepted (ext e) a (create_row a v r d) d d'
      (no_store_json 201 (RevisionWritten (vci_item_id r) (vci_revision_id r) 1 (wrap_i64 (va_head_seq row + 1))
        (encode_base64url (ext e) (vci_new_head_hash r))))"
    if "vault_append a (create_row a v r d) d d'" "vault_of a v d = Some row" for a d d' row
    using that by (simp add: write_accepted_def create_row_def)
  show ?thesis
    unfolding create_item_tx_def Let_def telemetry_defs counter_def
    apply (intro vc_rules wp_lock_vault_head wp_item_or_conflict wp_revision_or_conflict
        wp_mono [OF wp_finish_write])
    apply (use assms in \<open>simp_all add: same_state_def\<close>)
    apply (auto simp: write_refused_def intro: create_append accepted [OF create_append])
    done
qed

section \<open>Revisions\<close>

definition revise_row :: "uuid \<Rightarrow> uuid \<Rightarrow> uuid \<Rightarrow> validated_create_revision \<Rightarrow> db \<Rightarrow> revision_row" where
  "revise_row a vault_id item_id r d = revision_input vault_id item_id r
     (wrap_i64 (case item_of vault_id item_id d of None \<Rightarrow> 0 | Some i \<Rightarrow> it_latest_revision_seq i + 1))
     (wrap_i64 (case vault_of a vault_id d of None \<Rightarrow> 0 | Some v \<Rightarrow> va_head_seq v + 1))"

definition revising :: "validated_create_revision \<Rightarrow> bool" where
  "revising r \<longleftrightarrow> vcr_operation r = ''update'' \<or> vcr_operation r = ''delete''"

lemma revision_input_simps [simp]:
  "rv_operation (revision_input v i r rs s) = vcr_operation r" "rv_vault_id (revision_input v i r rs s) = v"
  "rv_item_id (revision_input v i r rs s) = i" "rv_id (revision_input v i r rs s) = vcr_revision_id r"
  "rv_revision_seq (revision_input v i r rs s) = rs"
  "rv_base_revision_seq (revision_input v i r rs s) = vcr_base_revision_seq r"
  "rv_head_seq (revision_input v i r rs s) = s"
  "rv_base_head_seq (revision_input v i r rs s) = vcr_base_head_seq r"
  "rv_base_head_hash (revision_input v i r rs s) = vcr_base_head_hash r"
  "rv_previous_head_hash (revision_input v i r rs s) = vcr_base_head_hash r"
  "rv_head_hash (revision_input v i r rs s) = vcr_new_head_hash r"
  by (simp_all add: revision_input_def)

lemma revise_append:
  assumes "vault_of a v d = Some row" and "item_of v i d = Some item"
    and "head_matches (vault_head_from_row row) (vcr_base_head_seq r) (vcr_base_head_hash r)"
    and "vcr_base_revision_seq r = it_latest_revision_seq item" and "it_deleted_at item = None"
    and "revising r"
    and "insert_revision (revision_input v i r (wrap_i64 (it_latest_revision_seq item + 1))
      (wrap_i64 (va_head_seq row + 1))) d = Inr d1"
    and "finished_write a v i (vcr_revision_id r) (wrap_i64 (it_latest_revision_seq item + 1))
      (wrap_i64 (va_head_seq row + 1)) (vcr_new_head_hash r) (vcr_operation r = ''delete'') now d1 d'"
  shows "vault_append a (revise_row a v i r d) d d'"
proof -
  let ?r = "revise_row a v i r d"
  have r: "?r = revision_input v i r (wrap_i64 (it_latest_revision_seq item + 1)) (wrap_i64 (va_head_seq row + 1))"
    by (simp add: revise_row_def assms(1,2))
  from assms(8) obtain d2 d3 au where "set_item_latest v i (vcr_revision_id r)
      (wrap_i64 (it_latest_revision_seq item + 1)) (vcr_operation r = ''delete'') now d1 = Inr d2"
    "set_vault_head a v (wrap_i64 (va_head_seq row + 1)) (vcr_new_head_hash r) now d2 = Inr d3"
    "d' = d3\<lparr>audit_events := audit_events d3 @ [au]\<rparr>" by (auto simp: finished_write_def)
  moreover from this have "commit_revision a ?r now d = Inr d3"
    using assms(7) by (simp add: commit_revision_def r)
  moreover have "based_on_head a ?r d"
    using assms(1,3) by (simp add: based_on_head_def r head_matches_def)
  moreover have "based_on_item ?r d"
    using assms(2,4,5) by (simp add: based_on_item_def r)
  moreover have "rv_operation ?r \<noteq> ''create''" "rv_operation ?r = ''update'' \<or> rv_operation ?r = ''delete''"
    using assms(6) by (auto simp: r revising_def)
  ultimately show ?thesis
    unfolding vault_append_def
    by (intro conjI exI [of _ d] exI [of _ d3] exI [of _ now] exI [of _ au]) simp_all
qed

lemma wp_create_item_revision_tx:
  assumes "w_txn w = Some (w_db w, t)" and "revising r"
  shows "wp e (create_item_revision_tx session v i r now)
     (\<lambda>resp w'. write_accepted (ext e) (cs_account_id session) (revise_row (cs_account_id session) v i r (w_db w))
          (w_db w) (w_db w') resp
        \<or> w_db w' = w_db w \<and> write_refused (ext e) (cs_account_id session) v (w_db w) resp)
     (\<lambda>_ w'. w_db w' = w_db w
        \<or> vault_append (cs_account_id session) (revise_row (cs_account_id session) v i r (w_db w)) (w_db w) (w_db w')) w"
proof -
  have accepted: "write_accepted (ext e) a (revise_row a v i r d) d d'
      (no_store_json 201 (RevisionWritten i (vcr_revision_id r) (wrap_i64 (it_latest_revision_seq item + 1))
        (wrap_i64 (va_head_seq row + 1)) (encode_base64url (ext e) (vcr_new_head_hash r))))"
    if "vault_append a (revise_row a v i r d) d d'" "vault_of a v d = Some row" "item_of v i d = Some item"
    for a d d' row item
    using that by (simp add: write_accepted_def revise_row_def)
  show ?thesis
    unfolding create_item_revision_tx_def Let_def telemetry_defs counter_def
    apply (intro vc_rules wp_lock_vault_head wp_lock_item wp_revision_or_conflict
        wp_mono [OF wp_finish_write])
    apply (use assms in \<open>simp_all add: same_state_def\<close>)
    apply (auto simp: write_refused_def intro: revise_append accepted [OF revise_append])
    done
qed

section \<open>The handlers\<close>

text \<open>The request comes from a live session with vault access, with its CSRF token.\<close>

definition vault_session :: "env \<Rightarrow> headers \<Rightarrow> db \<Rightarrow> db \<Rightarrow> session_row \<Rightarrow> bool" where
  "vault_session e h d d1 s \<longleftrightarrow> (\<exists>now. live_session d now s)
     \<and> (\<exists>tok. session_token_from_headers (ext e) h = Some tok
          \<and> se_session_token_hash s = sha256_verifier (ext e) tok)
     \<and> se_session_state s = ''mfa_verified'' \<and> session_refreshed d d1"

text \<open>An answer of a writer, where \<open>row\<close> gives the revision that the request asks for.\<close>

definition write_answer ::
  "env \<Rightarrow> headers \<Rightarrow> uuid \<Rightarrow> (uuid \<Rightarrow> db \<Rightarrow> revision_row) \<Rightarrow> db \<Rightarrow> db \<Rightarrow> write_response response \<Rightarrow> bool" where
  "write_answer e h vault_id row d d' resp \<longleftrightarrow>
     (\<exists>s d1. vault_session e h d d1 s \<and> ensure_unsafe_request_context h = Inr () \<and> csrf_valid e h (se_id s) d1
        \<and> (write_accepted (ext e) (se_account_id s) (row (se_account_id s) d1) d1 d' resp
           \<or> d' = d1 \<and> write_refused (ext e) (se_account_id s) vault_id d1 resp))"

text \<open>A failed request: at most the session was refreshed, or the write was committed and only its
  confirmation was lost.\<close>

definition write_failure :: "env \<Rightarrow> headers \<Rightarrow> (uuid \<Rightarrow> db \<Rightarrow> revision_row) \<Rightarrow> db \<Rightarrow> db \<Rightarrow> bool" where
  "write_failure e h row d d' \<longleftrightarrow> session_refreshed d d'
     \<or> (\<exists>s d1. vault_session e h d d1 s \<and> vault_append (se_account_id s) (row (se_account_id s) d1) d1 d')"

lemma write_answerI:
  assumes "session_token_from_headers (ext e) h = Some tok" and "se_session_token_hash s = sha256_verifier (ext e) tok"
    and "live_session d now s" and "se_session_state s = ''mfa_verified''" and "session_refreshed d d1"
    and "ensure_unsafe_request_context h = Inr ()" and "csrf_valid e h (se_id s) d1"
    and "write_accepted (ext e) (se_account_id s) (row (se_account_id s) d1) d1 d' resp
      \<or> d' = d1 \<and> write_refused (ext e) (se_account_id s) vault_id d1 resp"
  shows "write_answer e h vault_id row d d' resp"
  using assms unfolding write_answer_def vault_session_def by blast

lemma write_failureI:
  assumes "session_token_from_headers (ext e) h = Some tok" and "se_session_token_hash s = sha256_verifier (ext e) tok"
    and "live_session d now s" and "se_session_state s = ''mfa_verified''" and "session_refreshed d d1"
    and "d' = d1 \<or> vault_append (se_account_id s) (row (se_account_id s) d1) d1 d'"
  shows "write_failure e h row d d'"
  using assms unfolding write_failure_def vault_session_def by blast

lemma write_failure_refreshed: "session_refreshed d d' \<Longrightarrow> write_failure e h row d d'"
  by (simp add: write_failure_def)

lemma wp_create_item:
  assumes "w_txn w = None"
  shows "wp e (create_item h vault_id request)
     (\<lambda>resp w'. \<exists>r. create_item_from_request (ext e) request = Inr r
        \<and> write_answer e h vault_id (\<lambda>a. create_row a vault_id r) (w_db w) (w_db w') resp)
     (\<lambda>_ w'. session_refreshed (w_db w) (w_db w') \<or> (\<exists>r. create_item_from_request (ext e) request = Inr r
        \<and> write_failure e h (\<lambda>a. create_row a vault_id r) (w_db w) (w_db w'))) w"
  unfolding create_item_def
  apply (intro vc_rules wp_require_vault_session wp_ensure_csrf wp_mono [OF wp_create_item_tx])
  apply (use assms in \<open>simp_all add: same_state_def write_failure_refreshed\<close>)
   apply (auto intro: write_answerI)[1]
  apply (intro impI disjI2, rule write_failureI, assumption+)
  done

lemma revision_revising: "create_revision_from_request X request = Inr r \<Longrightarrow> revising r"
  by (auto simp: create_revision_from_request_def and_then_Inr_iff revising_def split: if_splits)

lemma wp_create_item_revision:
  assumes "w_txn w = None"
  shows "wp e (create_item_revision h vault_id item_id request)
     (\<lambda>resp w'. \<exists>r. create_revision_from_request (ext e) request = Inr r
        \<and> write_answer e h vault_id (\<lambda>a. revise_row a vault_id item_id r) (w_db w) (w_db w') resp)
     (\<lambda>_ w'. session_refreshed (w_db w) (w_db w') \<or> (\<exists>r. create_revision_from_request (ext e) request = Inr r
        \<and> write_failure e h (\<lambda>a. revise_row a vault_id item_id r) (w_db w) (w_db w'))) w"
  unfolding create_item_revision_def
  apply (intro vc_rules wp_require_vault_session wp_ensure_csrf wp_mono [OF wp_create_item_revision_tx])
  apply (use assms in \<open>simp_all add: same_state_def write_failure_refreshed revision_revising\<close>)
   apply (auto intro: write_answerI)[1]
  apply (intro impI disjI2, rule write_failureI, assumption+)
  done

text \<open>C8. Creating an item is an append or nothing, whatever the database does. An answer means that the
  request was well formed and came, with its origin and CSRF token, from a live session with vault
  access: either it is 201 and the item and its first revision were appended on top of the very head that
  the request names, or it is a conflict that names the current head and nothing was written. A
  request that fails wrote nothing, unless its commit succeeded and only the confirmation was lost.\<close>

theorem create_item_sound:
  assumes "create_item h vault_id request e w = (r, w')" and "w_txn w = None"
  shows "case r of
      Inr resp \<Rightarrow> (\<exists>v. create_item_from_request (ext e) request = Inr v
        \<and> write_answer e h vault_id (\<lambda>a. create_row a vault_id v) (w_db w) (w_db w') resp)
    | Inl x \<Rightarrow> session_refreshed (w_db w) (w_db w') \<or> (\<exists>v. create_item_from_request (ext e) request = Inr v
        \<and> write_failure e h (\<lambda>a. create_row a vault_id v) (w_db w) (w_db w'))"
  using wp_result [OF assms(1) wp_create_item [OF assms(2)]] by (cases r) simp_all

definition vault_account :: account_row where
  "vault_account =
     \<lparr>acc_id = 1, acc_login_handle_normalized = ''ann'', acc_auth_protocol = AUTH_PROTOCOL,
      acc_kdf_profile = default_kdf_profile, acc_account_salt = replicate 32 0,
      acc_auth_verifier_profile = PROFILE_ID, acc_auth_verifier_salt = replicate 32 0,
      acc_auth_verifier_iterations = 150000, acc_auth_stored_key = replicate 32 0,
      acc_auth_server_key = replicate 32 0, acc_created_at = 0\<rparr>"

definition sample_vault :: vault_row where
  "sample_vault =
     \<lparr>va_id = 77, va_account_id = 1, va_crypto_profile_id = ''p'', va_head_seq = 0,
      va_genesis_head_hash = replicate 32 3, va_head_hash = replicate 32 3, va_created_at = 0, va_updated_at = 0\<rparr>"

definition vault_db :: "vault_row \<Rightarrow> item_row list \<Rightarrow> db" where
  "vault_db v items = empty_db\<lparr>accounts := [vault_account], vaults := [v], vault_items := items,
     sessions := [sample_session (seconds 2000)]\<rparr>"

definition sample_item_envelope :: item_envelope_request where
  "sample_item_envelope =
     \<lparr>ie_crypto_version = ITEM_ENVELOPE_CRYPTO_VERSION, ie_key_id = ''k'', ie_aead = ITEM_ENVELOPE_AEAD,
      ie_nonce = hex_encode (replicate 12 0), ie_ciphertext = hex_encode [1]\<rparr>"

definition sample_create :: create_item_request where
  "sample_create =
     \<lparr>ci_item_id = 5, ci_revision_id = 6, ci_base_head_seq = 0, ci_base_head_hash = hex_encode (replicate 32 3),
      ci_new_head_hash = hex_encode (replicate 32 4), ci_change_mac = hex_encode (replicate 32 5),
      ci_envelope_hash = hex_encode (replicate 32 6), ci_encrypted_item_envelope = sample_item_envelope\<rparr>"

lemma sample_item_envelope_valid:
  "item_envelope_from_request sample sample_item_envelope
     = Inr \<lparr>vi_value = item_envelope_json sample_item_envelope,
         vi_crypto_version = ITEM_ENVELOPE_CRYPTO_VERSION, vi_key_id = ''k''\<rparr>"
proof -
  have "trim ''k'' = ''k''" by (rule trim_visible) (simp add: visible_char_def)
  moreover have "json_size sample j = 2" for j by (simp add: sample_def)
  ultimately show ?thesis
    using sample_decode [of 12 "replicate 12 0"] sample_decode_any [of "[1]"]
    by (simp add: item_envelope_from_request_def sample_item_envelope_def validate_short_text_def
        ITEM_ENVELOPE_NONCE_BYTES_def MAX_ITEM_ENVELOPE_CIPHERTEXT_BYTES_def MAX_KEY_ID_BYTES_def
        MAX_ITEM_ENVELOPE_JSON_BYTES_def del: hex_encode.simps)
qed

lemma sample_hash: "decode_hash sample (hex_encode b) = (if length b = 32 then Inr b else Inl BadRequest)"
  by (simp add: decode_hash_def sample_decode HASH_BYTES_def map_err_def del: hex_encode.simps)

lemma sample_context: "ensure_unsafe_request_context sample_headers = Inr ()"
  by (simp add: ensure_unsafe_request_context_def sample_headers_def)

lemmas sample_write =
  require_vault_session_def wp_eqs load_current_session_def refresh_session_activity_def query_def command_def
  sample_headers_token session_with_device_def sample_session_def sha256_verifier_def seconds_def Let_def
  vault_access_def mark_active_def update_sessions_def sample_context ensure_csrf_token_def
  sample_headers_csrf csrf_hash_of_def sample_sha256_length TOKEN_LEN_def session_checks_def constrained_def
  update_where_def lock_vault_head_def lock_item_def vault_of_def item_of_def vault_head_from_row_def
  head_matches_def telemetry_defs counter_def or_conflict_def insert_item_row_def insert_revision_row_def
  insert_item_def insert_revision_def new_item_def revision_checks_def finish_write_def
  update_item_latest_def update_vault_head_def set_item_latest_def set_vault_head_def
  insert_audit_event_def insert_audit_def vault_db_def vault_account_def sample_vault_def empty_db_def opt_all_def
  account_exists_def nonblank_def SESSION_IDLE_TTL_def minutes_def sample_item_envelope_valid sample_hash
  ITEM_ENVELOPE_CRYPTO_VERSION_def wrap_i64_def

theorem create_item_sound_witness:
  "\<exists>resp w'. create_item sample_headers 77 sample_create sample_env
       (world_of (vault_db sample_vault [])) = (Inr resp, w')
     \<and> (\<exists>v. create_item_from_request sample sample_create = Inr v
        \<and> write_answer sample_env sample_headers 77 (\<lambda>a. create_row a 77 v) (vault_db sample_vault []) (w_db w') resp)
     \<and> rs_status resp = 201"
proof -
  let ?w = "world_of (vault_db sample_vault [])"
  have "wp sample_env (create_item sample_headers 77 sample_create) (\<lambda>resp _. rs_status resp = 201)
      (\<lambda>_ _. False) ?w"
    by (simp add: create_item_def create_item_tx_def create_item_from_request_def sample_create_def
        validate_nonnegative_seq_def create_revision_input_def sample_write min_time_def no_store_json_def
        del: hex_encode.simps)
  then obtain resp w' where run: "create_item sample_headers 77 sample_create sample_env ?w = (Inr resp, w')"
    and "rs_status resp = 201" by (auto elim: run_of_wp)
  with create_item_sound [OF run] show ?thesis by auto
qed

text \<open>C9. The same for revising and deleting an item: an accepted revision was based on the current
  head of the vault and on the latest revision of an item that is not deleted, and carries the next
  sequence numbers of both; otherwise nothing was written.\<close>

theorem create_item_revision_sound:
  assumes "create_item_revision h vault_id item_id request e w = (r, w')" and "w_txn w = None"
  shows "case r of
      Inr resp \<Rightarrow> (\<exists>v. create_revision_from_request (ext e) request = Inr v
        \<and> write_answer e h vault_id (\<lambda>a. revise_row a vault_id item_id v) (w_db w) (w_db w') resp)
    | Inl x \<Rightarrow> session_refreshed (w_db w) (w_db w') \<or> (\<exists>v. create_revision_from_request (ext e) request = Inr v
        \<and> write_failure e h (\<lambda>a. revise_row a vault_id item_id v) (w_db w) (w_db w'))"
  using wp_result [OF assms(1) wp_create_item_revision [OF assms(2)]] by (cases r) simp_all

definition sample_revise :: create_revision_request where
  "sample_revise =
     \<lparr>cr_revision_id = 8, cr_operation = ''delete'', cr_base_revision_seq = 1, cr_base_head_seq = 1,
      cr_base_head_hash = hex_encode (replicate 32 4), cr_new_head_hash = hex_encode (replicate 32 7),
      cr_change_mac = hex_encode (replicate 32 5), cr_envelope_hash = hex_encode (replicate 32 6),
      cr_encrypted_item_envelope = sample_item_envelope\<rparr>"

definition sample_item :: item_row where
  "sample_item = (new_item 77 5 0)\<lparr>it_latest_revision_id := Some 6, it_latest_revision_seq := 1\<rparr>"

theorem create_item_revision_sound_witness:
  "\<exists>resp w'. create_item_revision sample_headers 77 5 sample_revise sample_env
       (world_of (vault_db (sample_vault\<lparr>va_head_seq := 1, va_head_hash := replicate 32 4\<rparr>) [sample_item]))
         = (Inr resp, w')
     \<and> (\<exists>v. create_revision_from_request sample sample_revise = Inr v
        \<and> write_answer sample_env sample_headers 77 (\<lambda>a. revise_row a 77 5 v)
            (vault_db (sample_vault\<lparr>va_head_seq := 1, va_head_hash := replicate 32 4\<rparr>) [sample_item]) (w_db w') resp)
     \<and> rs_status resp = 201"
proof -
  let ?w = "world_of (vault_db (sample_vault\<lparr>va_head_seq := 1, va_head_hash := replicate 32 4\<rparr>) [sample_item])"
  have "wp sample_env (create_item_revision sample_headers 77 5 sample_revise) (\<lambda>resp _. rs_status resp = 201)
      (\<lambda>_ _. False) ?w"
    by (simp add: create_item_revision_def create_item_revision_tx_def create_revision_from_request_def
        sample_revise_def validate_nonnegative_seq_def validate_positive_seq_def revision_input_def
        sample_item_def revision_event_def sample_write min_time_def no_store_json_def
        del: hex_encode.simps)
  then obtain resp w' where run: "create_item_revision sample_headers 77 5 sample_revise sample_env ?w
      = (Inr resp, w')" and "rs_status resp = 201" by (auto elim: run_of_wp)
  with create_item_revision_sound [OF run] show ?thesis by auto
qed

end
