(* ===== verification/PV_VaultLog.thy ===== *)
theory PV_VaultLog
  imports PV_Writers
begin

text \<open>
  The vault as an append-only log. Every vault's revisions, in the order of their head sequence
  numbers, form a chain of hashes that starts at the genesis hash and ends at the head of the
  vault row, and every item's revisions are numbered from one, begin with the creation and end with
  the deletion if there is one. An accepted write keeps this and appends one entry.
\<close>

section \<open>Logs\<close>

definition log_of :: "uuid \<Rightarrow> db \<Rightarrow> revision_row list" where
  "log_of v d = filter (\<lambda>r. rv_vault_id r = v) (vault_item_revisions d)"

definition item_log :: "uuid \<Rightarrow> uuid \<Rightarrow> db \<Rightarrow> revision_row list" where
  "item_log v i d = filter (\<lambda>r. rv_item_id r = i) (log_of v d)"

definition tip :: "bytes \<Rightarrow> revision_row list \<Rightarrow> bytes" where
  "tip genesis rs = (if rs = [] then genesis else rv_head_hash (last rs))"

text \<open>The chain of a log, from a hash and a sequence number.\<close>

fun chained :: "bytes \<Rightarrow> int \<Rightarrow> revision_row list \<Rightarrow> bool" where
  "chained h n [] = True"
| "chained h n (r # rs) =
     (rv_previous_head_hash r = h \<and> rv_base_head_hash r = h \<and> rv_base_head_seq r = n
      \<and> rv_head_seq r = n + 1 \<and> chained (rv_head_hash r) (n + 1) rs)"

fun revisions_from :: "int \<Rightarrow> revision_row list \<Rightarrow> bool" where
  "revisions_from n [] = True"
| "revisions_from n (r # rs) =
     (rv_base_revision_seq r = n \<and> rv_revision_seq r = n + 1 \<and> (rv_operation r = ''create'') = (n = 0)
      \<and> (rv_operation r = ''delete'' \<longrightarrow> rs = []) \<and> revisions_from (n + 1) rs)"

lemma tip_Nil [simp]: "tip g [] = g"
  by (simp add: tip_def)

lemma tip_snoc [simp]: "tip g (rs @ [r]) = rv_head_hash r"
  by (simp add: tip_def)

lemma tip_Cons: "tip g (r # rs) = tip (rv_head_hash r) rs"
  by (simp add: tip_def)

lemma chained_append:
  "chained h n (rs @ ss) \<longleftrightarrow> chained h n rs \<and> chained (tip h rs) (n + int (length rs)) ss"
  by (induction rs arbitrary: h n) (auto simp: tip_Cons algebra_simps)

lemma revisions_from_append:
  "revisions_from n (rs @ [r]) \<longleftrightarrow> revisions_from n rs
     \<and> (rs \<noteq> [] \<longrightarrow> rv_operation (last rs) \<noteq> ''delete'')
     \<and> rv_base_revision_seq r = n + int (length rs) \<and> rv_revision_seq r = n + int (length rs) + 1
     \<and> (rv_operation r = ''create'') = (n + int (length rs) = 0)"
  by (induction rs arbitrary: n) (auto simp: algebra_simps)

lemma chained_nth_seq: "chained h n rs \<Longrightarrow> k < length rs \<Longrightarrow> rv_head_seq (rs ! k) = n + 1 + int k"
proof (induction rs arbitrary: h n k)
  case (Cons r rs)
  show ?case
  proof (cases k)
    case (Suc j)
    with Cons.IH [of "rv_head_hash r" "n + 1" j] Cons.prems show ?thesis by simp
  qed (use Cons.prems in simp)
qed simp

section \<open>The invariant\<close>

definition vault_consistent :: "db \<Rightarrow> vault_row \<Rightarrow> bool" where
  "vault_consistent d v \<longleftrightarrow> (let rs = log_of (va_id v) d in
     length (va_genesis_head_hash v) = 32 \<and> chained (va_genesis_head_hash v) 0 rs
     \<and> va_head_seq v = int (length rs) \<and> va_head_hash v = tip (va_genesis_head_hash v) rs)"

definition item_consistent :: "db \<Rightarrow> item_row \<Rightarrow> bool" where
  "item_consistent d i \<longleftrightarrow> (let rs = item_log (it_vault_id i) (it_id i) d in
     rs \<noteq> [] \<and> revisions_from 0 rs \<and> it_latest_revision_seq i = int (length rs)
     \<and> it_latest_revision_id i = Some (rv_id (last rs))
     \<and> (it_deleted_at i \<noteq> None) = (rv_operation (last rs) = ''delete''))"

definition revision_placed :: "db \<Rightarrow> revision_row \<Rightarrow> bool" where
  "revision_placed d r \<longleftrightarrow> revision_checks r
     \<and> list_ex (\<lambda>i. it_id i = rv_item_id r \<and> it_vault_id i = rv_vault_id r) (vault_items d)"

definition vaults_ok :: "db \<Rightarrow> bool" where
  "vaults_ok d \<longleftrightarrow> distinct (map va_id (vaults d)) \<and> distinct (map it_id (vault_items d))
     \<and> list_all (vault_consistent d) (vaults d)
     \<and> list_all (\<lambda>i. it_vault_id i \<in> va_id ` set (vaults d) \<and> item_consistent d i) (vault_items d)
     \<and> list_all (revision_placed d) (vault_item_revisions d)"

lemma vaults_okD:
  assumes "vaults_ok d"
  shows "distinct (map va_id (vaults d))" "distinct (map it_id (vault_items d))"
    "v \<in> set (vaults d) \<Longrightarrow> vault_consistent d v"
    "i \<in> set (vault_items d) \<Longrightarrow> it_vault_id i \<in> va_id ` set (vaults d)"
    "i \<in> set (vault_items d) \<Longrightarrow> item_consistent d i"
    "r \<in> set (vault_item_revisions d) \<Longrightarrow> revision_placed d r"
  using assms by (auto simp: vaults_ok_def list_all_iff)

lemma vaults_okI:
  assumes "distinct (map va_id (vaults d))" and "distinct (map it_id (vault_items d))"
    and "\<And>v. v \<in> set (vaults d) \<Longrightarrow> vault_consistent d v"
    and "\<And>i. i \<in> set (vault_items d) \<Longrightarrow> it_vault_id i \<in> va_id ` set (vaults d) \<and> item_consistent d i"
    and "\<And>r. r \<in> set (vault_item_revisions d) \<Longrightarrow> revision_placed d r"
  shows "vaults_ok d"
  using assms by (auto simp: vaults_ok_def list_all_iff)

lemma vaults_ok_tables:
  "vaults d' = vaults d \<Longrightarrow> vault_items d' = vault_items d \<Longrightarrow> vault_item_revisions d' = vault_item_revisions d
     \<Longrightarrow> vaults_ok d' = vaults_ok d"
  by (simp add: vaults_ok_def vault_consistent_def [abs_def] item_consistent_def [abs_def]
      revision_placed_def [abs_def] log_of_def item_log_def)

section \<open>What an accepted write does to the tables\<close>

definition written_vaults :: "uuid \<Rightarrow> revision_row \<Rightarrow> time \<Rightarrow> vault_row list \<Rightarrow> vault_row list" where
  "written_vaults a r now = update_where (\<lambda>v. va_id v = rv_vault_id r \<and> va_account_id v = a)
     (\<lambda>v. v\<lparr>va_head_seq := rv_head_seq r, va_head_hash := rv_head_hash r, va_updated_at := now\<rparr>)"

definition written_items :: "revision_row \<Rightarrow> time \<Rightarrow> item_row list \<Rightarrow> item_row list" where
  "written_items r now = update_where (\<lambda>i. it_vault_id i = rv_vault_id r \<and> it_id i = rv_item_id r)
     (\<lambda>i. i\<lparr>it_latest_revision_id := Some (rv_id r), it_latest_revision_seq := rv_revision_seq r,
           it_deleted_at := (if rv_operation r = ''delete'' then Some now else it_deleted_at i), it_updated_at := now\<rparr>)"

lemma vault_append_tables:
  assumes "vault_append a r d d'"
  obtains items now where
    "vaults d' = written_vaults a r now (vaults d)" "vault_items d' = written_items r now items"
    "vault_item_revisions d' = vault_item_revisions d @ [r]" "revision_checks r" "based_on_head a r d"
    "list_ex (\<lambda>i. it_id i = rv_item_id r \<and> it_vault_id i = rv_vault_id r) items"
    "rv_id r \<notin> rv_id ` set (vault_item_revisions d)"
    "rv_operation r = ''create'' \<and> rv_revision_seq r = 1 \<and> rv_base_revision_seq r = 0
        \<and> rv_item_id r \<notin> it_id ` set (vault_items d) \<and> rv_vault_id r \<in> va_id ` set (vaults d)
        \<and> (\<exists>t. items = vault_items d @ [new_item (rv_vault_id r) (rv_item_id r) t])
      \<or> rv_operation r \<noteq> ''create'' \<and> based_on_item r d \<and> items = vault_items d"
    "sessions d' = sessions d" "auth_challenges d' = auth_challenges d" "accounts d' = accounts d"
    "devices d' = devices d" "totp_factors d' = totp_factors d" "recovery_codes d' = recovery_codes d"
    "account_keysets d' = account_keysets d" "vault_key_wraps d' = vault_key_wraps d"
proof -
  from assms obtain d0 d1 now au where head: "based_on_head a r d"
    and item: "if rv_operation r = ''create''
           then rv_revision_seq r = 1 \<and> rv_base_revision_seq r = 0
             \<and> (\<exists>t. insert_item (new_item (rv_vault_id r) (rv_item_id r) t) d = Inr d0)
           else (rv_operation r = ''update'' \<or> rv_operation r = ''delete'') \<and> based_on_item r d \<and> d0 = d"
    and commit: "commit_revision a r now d0 = Inr d1"
    and d': "d' = d1\<lparr>audit_events := audit_events d1 @ [au]\<rparr>"
    unfolding vault_append_def by blast
  have items: "rv_operation r = ''create'' \<and> rv_revision_seq r = 1 \<and> rv_base_revision_seq r = 0
        \<and> rv_item_id r \<notin> it_id ` set (vault_items d) \<and> rv_vault_id r \<in> va_id ` set (vaults d)
        \<and> (\<exists>t. vault_items d0 = vault_items d @ [new_item (rv_vault_id r) (rv_item_id r) t])
      \<or> rv_operation r \<noteq> ''create'' \<and> based_on_item r d \<and> vault_items d0 = vault_items d"
    using item by (auto simp: insert_item_def new_item_def split: if_splits)
  have d0: "d0 = d\<lparr>vault_items := vault_items d0\<rparr>"
    using item by (auto simp: insert_item_def split: if_splits)
  then have tables: "vaults d0 = vaults d" "vault_item_revisions d0 = vault_item_revisions d"
    "sessions d0 = sessions d" "auth_challenges d0 = auth_challenges d" "accounts d0 = accounts d"
    "devices d0 = devices d" "totp_factors d0 = totp_factors d" "recovery_codes d0 = recovery_codes d"
    "account_keysets d0 = account_keysets d" "vault_key_wraps d0 = vault_key_wraps d"
    by (metis db.select_convs db.surjective db.update_convs(10))+
  note inserted = commit [unfolded commit_revision_def and_then_Inr_iff insert_revision_def
      set_item_latest_def set_vault_head_def Let_def constrained_Inr_iff]
  have "list_ex (\<lambda>i. it_id i = rv_item_id r \<and> it_vault_id i = rv_vault_id r) (vault_items d0)"
    using inserted by (auto simp: list_ex_iff)
  moreover have "vaults d' = written_vaults a r now (vaults d)"
      "vault_items d' = written_items r now (vault_items d0)"
      "vault_item_revisions d' = vault_item_revisions d @ [r]"
      "rv_id r \<notin> rv_id ` set (vault_item_revisions d)" "revision_checks r"
    using inserted tables by (auto simp: d' written_vaults_def written_items_def)
  moreover have "sessions d' = sessions d" "auth_challenges d' = auth_challenges d" "accounts d' = accounts d"
    "devices d' = devices d" "totp_factors d' = totp_factors d" "recovery_codes d' = recovery_codes d"
    "account_keysets d' = account_keysets d" "vault_key_wraps d' = vault_key_wraps d"
    using inserted tables by (auto simp: d')
  ultimately show ?thesis using items head that by blast
qed

lemma written_vaults_ids [simp]: "map va_id (written_vaults a r now vs) = map va_id vs"
  unfolding written_vaults_def by (rule map_update_where) simp

lemma written_items_ids [simp]: "map it_id (written_items r now is) = map it_id is"
  unfolding written_items_def by (rule map_update_where) simp

lemma image_of_map: "map f xs = map f ys \<Longrightarrow> f ` set xs = f ` set ys"
  by (metis set_map)

lemma log_of_append:
  "vault_item_revisions d' = vault_item_revisions d @ [r] \<Longrightarrow>
     log_of v d' = log_of v d @ (if rv_vault_id r = v then [r] else [])"
  by (simp add: log_of_def)

lemma item_log_append:
  "vault_item_revisions d' = vault_item_revisions d @ [r] \<Longrightarrow>
     item_log v i d' = item_log v i d @ (if rv_vault_id r = v \<and> rv_item_id r = i then [r] else [])"
  by (simp add: item_log_def log_of_append)

lemma wrap_i64_next:
  assumes "wrap_i64 (n + 1) > n" and "0 \<le> n"
  shows "wrap_i64 (n + 1) = n + 1"
proof -
  have "wrap_i64 (n + 1) < 2 ^ 63" by (simp add: wrap_i64_def)
  with assms(1) have "n + 1 < 2 ^ 63 + 1" by simp
  then show ?thesis using assms by (auto simp: wrap_i64_def)
qed

section \<open>An accepted write keeps the invariant\<close>

lemma append_head:
  assumes "vaults_ok d" and "based_on_head a r d" and "revision_checks r"
  obtains v where "v \<in> set (vaults d)" "va_id v = rv_vault_id r" "va_account_id v = a"
    "length (va_genesis_head_hash v) = 32" "chained (va_genesis_head_hash v) 0 (log_of (rv_vault_id r) d @ [r])"
    "rv_head_seq r = int (length (log_of (rv_vault_id r) d)) + 1"
proof -
  from assms(2) obtain v where v: "vault_of a (rv_vault_id r) d = Some v"
    and base: "rv_base_head_seq r = va_head_seq v" "rv_base_head_hash r = va_head_hash v"
      "rv_previous_head_hash r = va_head_hash v"
    unfolding based_on_head_def by blast
  have mem: "v \<in> set (vaults d)" and ids: "va_id v = rv_vault_id r" "va_account_id v = a"
    using find_Some_mem [OF v [unfolded vault_of_def]] by simp_all
  have "rv_head_seq r = rv_base_head_seq r + 1" using assms(3) by (simp add: revision_checks_def)
  with vaults_okD(3) [OF assms(1) mem] base ids mem that show ?thesis
    by (simp add: vault_consistent_def Let_def chained_append)
qed

lemma vault_consistent_append:
  assumes "vaults_ok d" and "based_on_head a r d" and "revision_checks r"
    and "vault_item_revisions d' = vault_item_revisions d @ [r]"
    and "v' \<in> set (written_vaults a r now (vaults d))"
  shows "vault_consistent d' v'"
proof -
  from append_head [OF assms(1-3)] obtain w where w: "w \<in> set (vaults d)" "va_id w = rv_vault_id r"
    "va_account_id w = a" "length (va_genesis_head_hash w) = 32" "chained (va_genesis_head_hash w) 0 (log_of (rv_vault_id r) d @ [r])"
    "rv_head_seq r = int (length (log_of (rv_vault_id r) d)) + 1" .
  from assms(5) obtain v where v: "v \<in> set (vaults d)"
    and v': "v' = (if va_id v = rv_vault_id r \<and> va_account_id v = a
      then v\<lparr>va_head_seq := rv_head_seq r, va_head_hash := rv_head_hash r, va_updated_at := now\<rparr> else v)"
    unfolding written_vaults_def set_update_where by blast
  show ?thesis
  proof (cases "va_id v = rv_vault_id r")
    case True
    then have "v = w" using distinct_map_unique [OF vaults_okD(1) [OF assms(1)] v w(1)] w(2) by simp
    with w v' True show ?thesis
      by (simp add: vault_consistent_def Let_def log_of_append [OF assms(4)])
  next
    case False
    with v' vaults_okD(3) [OF assms(1) v] show ?thesis
      by (simp add: vault_consistent_def log_of_append [OF assms(4)])
  qed
qed

lemma item_consistent_other:
  assumes "item_consistent d i" and "vault_item_revisions d' = vault_item_revisions d @ [r]"
    and "\<not> (it_vault_id i = rv_vault_id r \<and> it_id i = rv_item_id r)"
  shows "item_consistent d' i"
  using assms by (simp add: item_consistent_def item_log_append [OF assms(2)]) (metis append_Nil2)

lemma item_consistent_new:
  assumes "vaults_ok d" and "rv_item_id r \<notin> it_id ` set (vault_items d)"
    and "vault_item_revisions d' = vault_item_revisions d @ [r]"
    and "rv_operation r = ''create''" "rv_revision_seq r = 1" "rv_base_revision_seq r = 0"
  shows "item_consistent d' ((new_item (rv_vault_id r) (rv_item_id r) t)
    \<lparr>it_latest_revision_id := Some (rv_id r), it_latest_revision_seq := rv_revision_seq r, it_updated_at := now\<rparr>)"
proof -
  have "item_log (rv_vault_id r) (rv_item_id r) d = []"
    using vaults_okD(6) [OF assms(1)] assms(2)
    by (auto simp: item_log_def log_of_def filter_empty_conv revision_placed_def list_ex_iff) (metis imageI)
  with assms(4-6) show ?thesis
    by (simp add: item_consistent_def item_log_append [OF assms(3)] new_item_def)
qed

lemma item_consistent_revised:
  assumes "vaults_ok d" and "based_on_item r d" and "revision_checks r" and "rv_operation r \<noteq> ''create''"
    and "i \<in> set (vault_items d)" and "it_vault_id i = rv_vault_id r" and "it_id i = rv_item_id r"
    and "vault_item_revisions d' = vault_item_revisions d @ [r]"
  shows "item_consistent d' (i\<lparr>it_latest_revision_id := Some (rv_id r), it_latest_revision_seq := rv_revision_seq r,
      it_deleted_at := (if rv_operation r = ''delete'' then Some now else it_deleted_at i), it_updated_at := now\<rparr>)"
proof -
  from assms(2) obtain j where j: "item_of (rv_vault_id r) (rv_item_id r) d = Some j" "it_deleted_at j = None"
    "rv_base_revision_seq r = it_latest_revision_seq j" "rv_revision_seq r = wrap_i64 (it_latest_revision_seq j + 1)"
    unfolding based_on_item_def by blast
  have "j = i"
    using distinct_map_unique [OF vaults_okD(2) [OF assms(1)] _ assms(5), of j] assms(7)
      find_Some_mem [OF j(1) [unfolded item_of_def]] by simp
  note ok = vaults_okD(5) [OF assms(1,5), unfolded item_consistent_def Let_def assms(6,7)]
  have "rv_base_revision_seq r < rv_revision_seq r" and "0 < rv_base_revision_seq r"
    using assms(3,4) by (simp_all add: revision_checks_def)
  then have "rv_revision_seq r = it_latest_revision_seq i + 1"
    using wrap_i64_next [of "it_latest_revision_seq i"] j(3,4) \<open>j = i\<close> by simp
  with ok j assms(4) \<open>j = i\<close> show ?thesis
    by (simp add: item_consistent_def item_log_append [OF assms(8)] revisions_from_append assms(6,7))
qed

lemma written_items_placed:
  "list_ex (\<lambda>i. it_id i = x \<and> it_vault_id i = v) items \<Longrightarrow>
     list_ex (\<lambda>i. it_id i = x \<and> it_vault_id i = v) (written_items r now items)"
  by (induction items) (auto simp: written_items_def update_where_def)

lemma vault_append_ok:
  assumes ok: "vaults_ok d" and append: "vault_append a r d d'"
  shows "vaults_ok d'"
  using append
proof (rule vault_append_tables, goal_cases)
  case (1 items now)
  note tables = 1(1-3) and checks = 1(4) and head = 1(5) and placed = 1(6)
  have ids: "va_id ` set (vaults d') = va_id ` set (vaults d)"
    unfolding tables by (rule image_of_map) simp
  show ?case
  proof (rule vaults_okI)
    show "distinct (map va_id (vaults d'))" by (simp add: tables vaults_okD(1) [OF ok])
    show "distinct (map it_id (vault_items d'))"
      using 1(8) vaults_okD(2) [OF ok] by (auto simp: tables new_item_def)
    show "vault_consistent d' v" if "v \<in> set (vaults d')" for v
      using vault_consistent_append [OF ok head checks tables(3)] that by (simp add: tables)
  next
    fix i' assume "i' \<in> set (vault_items d')"
    then obtain i where i: "i \<in> set items"
      and i': "i' = (if it_vault_id i = rv_vault_id r \<and> it_id i = rv_item_id r
        then i\<lparr>it_latest_revision_id := Some (rv_id r), it_latest_revision_seq := rv_revision_seq r,
          it_deleted_at := (if rv_operation r = ''delete'' then Some now else it_deleted_at i), it_updated_at := now\<rparr>
        else i)"
      unfolding tables written_items_def set_update_where by blast
    have "it_vault_id i \<in> va_id ` set (vaults d)"
      using i 1(8) vaults_okD(4) [OF ok] by (auto simp: new_item_def)
    moreover have "it_vault_id i' = it_vault_id i" by (simp add: i')
    ultimately have "it_vault_id i' \<in> va_id ` set (vaults d)" by (simp only:)
    moreover have "item_consistent d' i'"
    proof (cases "i \<in> set (vault_items d)")
      case True
      show ?thesis
      proof (cases "it_vault_id i = rv_vault_id r \<and> it_id i = rv_item_id r")
        case hit: True
        then have "rv_item_id r \<in> it_id ` set (vault_items d)" using True by (metis imageI)
        with 1(8) have "based_on_item r d" "rv_operation r \<noteq> ''create''" by blast+
        with item_consistent_revised [OF ok _ checks _ True _ _ tables(3)] hit i' show ?thesis by simp
      qed (use item_consistent_other [OF vaults_okD(5) [OF ok True] tables(3)] i' in auto)
    next
      case False
      with i 1(8) item_consistent_new [OF ok _ tables(3)] i' show ?thesis by (auto simp: new_item_def)
    qed
    ultimately show "it_vault_id i' \<in> va_id ` set (vaults d') \<and> item_consistent d' i'" by (simp add: ids)
  next
    fix r' assume "r' \<in> set (vault_item_revisions d')"
    then have "revision_checks r' \<and> list_ex (\<lambda>i. it_id i = rv_item_id r' \<and> it_vault_id i = rv_vault_id r') items"
      using checks placed vaults_okD(6) [OF ok, of r'] 1(8) by (auto simp: tables revision_placed_def list_ex_iff)
    then show "revision_placed d' r'"
      by (simp add: revision_placed_def tables written_items_placed)
  qed
qed

text \<open>Steps that leave the vault tables alone, and a new vault, keep the invariant too.\<close>

definition same_vaults :: "db \<Rightarrow> db \<Rightarrow> bool" where
  "same_vaults d d' \<longleftrightarrow> vaults d' = vaults d \<and> vault_items d' = vault_items d
     \<and> vault_item_revisions d' = vault_item_revisions d"

lemma same_vaults_ok: "vaults_ok d \<Longrightarrow> same_vaults d d' \<Longrightarrow> vaults_ok d'"
  using vaults_ok_tables [of d' d] by (simp add: same_vaults_def)

lemma no_log_without_vault:
  assumes ok: "vaults_ok d" and "v \<notin> va_id ` set (vaults d)"
  shows "log_of v d = []"
proof -
  have "rv_vault_id r \<noteq> v" if r: "r \<in> set (vault_item_revisions d)" for r
  proof -
    from vaults_okD(6) [OF ok r] obtain i where "i \<in> set (vault_items d)" "it_vault_id i = rv_vault_id r"
      by (auto simp: revision_placed_def list_ex_iff)
    with vaults_okD(4) [OF ok, of i] assms(2) show ?thesis by auto
  qed
  then show ?thesis by (simp add: log_of_def filter_empty_conv)
qed

lemma new_vault_tables:
  assumes "new_vault i a g t d = Inr d'"
  obtains v where "d' = d\<lparr>vaults := vaults d @ [v]\<rparr>" "va_id v = i" "i \<notin> va_id ` set (vaults d)"
    "va_head_seq v = 0" "va_genesis_head_hash v = g" "va_head_hash v = g" "va_account_id v = a"
    "length g = 32"
  using assms that [of "\<lparr>va_id = i, va_account_id = a, va_crypto_profile_id = VAULT_CRYPTO_PROFILE_ID,
        va_head_seq = 0, va_genesis_head_hash = g, va_head_hash = g, va_created_at = t, va_updated_at = t\<rparr>"]
  unfolding new_vault_def insert_vault_def constrained_Inr_iff by simp

lemma new_vault_ok:
  assumes ok: "vaults_ok d" and new: "new_vault i a g t d = Inr d'"
  shows "vaults_ok d'"
  using new
proof (rule new_vault_tables)
  fix v assume v: "d' = d\<lparr>vaults := vaults d @ [v]\<rparr>" "va_id v = i" "i \<notin> va_id ` set (vaults d)"
    "va_head_seq v = 0" "va_genesis_head_hash v = g" "va_head_hash v = g" "length g = 32"
  have empty: "log_of i d = []" by (rule no_log_without_vault [OF ok v(3)])
  have same: "log_of x d' = log_of x d" "item_log x y d' = item_log x y d" for x y
    by (simp_all add: v(1) log_of_def item_log_def)
  show ?thesis
  proof (rule vaults_okI)
    show "vault_consistent d' x" if "x \<in> set (vaults d')" for x
      using that vaults_okD(3) [OF ok, of x] v(2-7) empty same
      by (auto simp: v(1) vault_consistent_def)
  qed (use v(1-3) same vaults_okD [OF ok] in \<open>auto simp: item_consistent_def revision_placed_def\<close>)
qed

section \<open>Ledgers\<close>

text \<open>What a vault promises its readers, whatever carries it: entries are only ever appended, each
  one on the head that its writer named.\<close>

locale ledger =
  fixes ok :: "'s \<Rightarrow> bool" and entries :: "'s \<Rightarrow> 'e list" and genesis head :: "'s \<Rightarrow> 'h"
    and prev hash :: "'e \<Rightarrow> 'h" and base :: "'e \<Rightarrow> int"
    and append :: "'e \<Rightarrow> 's \<Rightarrow> 's \<Rightarrow> bool" and other :: "'s \<Rightarrow> 's \<Rightarrow> bool"
  assumes ok_append: "ok s \<Longrightarrow> append x s s' \<Longrightarrow> ok s'"
    and append_entries: "ok s \<Longrightarrow> append x s s' \<Longrightarrow> entries s' = entries s @ [x]"
    and append_based: "ok s \<Longrightarrow> append x s s' \<Longrightarrow> base x = int (length (entries s)) \<and> prev x = head s"
    and append_head: "ok s \<Longrightarrow> append x s s' \<Longrightarrow> head s' = hash x \<and> genesis s' = genesis s"
    and ok_other: "ok s \<Longrightarrow> other s s' \<Longrightarrow> ok s'"
    and other_same: "ok s \<Longrightarrow> other s s' \<Longrightarrow> entries s' = entries s \<and> head s' = head s \<and> genesis s' = genesis s"
begin

lemma steps_extend:
  assumes "(\<lambda>s s'. (\<exists>x. append x s s') \<or> other s s')\<^sup>*\<^sup>* s s'" and "ok s"
  shows "ok s' \<and> genesis s' = genesis s \<and> (\<exists>xs. entries s' = entries s @ xs
    \<and> head s' = (if xs = [] then head s else hash (last xs)))"
  using assms
proof (induction rule: rtranclp_induct)
  case base
  then show ?case by simp
next
  case (step t u)
  then have ok: "ok t" and t: "genesis t = genesis s"
    and "\<exists>xs. entries t = entries s @ xs \<and> head t = (if xs = [] then head s else hash (last xs))"
    by blast+
  then obtain xs where xs: "entries t = entries s @ xs" "head t = (if xs = [] then head s else hash (last xs))"
    by blast
  from step.hyps(2) show ?case
  proof
    assume "\<exists>x. append x t u"
    then obtain x where x: "append x t u" ..
    from ok_append [OF ok x] append_entries [OF ok x] append_head [OF ok x] t xs show ?thesis
      by (intro conjI exI [of _ "xs @ [x]"]) simp_all
  next
    assume other: "other t u"
    from ok_other [OF ok other] other_same [OF ok other] t xs show ?thesis
      by (intro conjI exI [of _ xs]) simp_all
  qed
qed

lemma prefix_kept:
  assumes "(\<lambda>s s'. (\<exists>x. append x s s') \<or> other s s')\<^sup>*\<^sup>* s s'" and "ok s" and "n \<le> length (entries s)"
  shows "take n (entries s') = take n (entries s)"
  using steps_extend [OF assms(1,2)] assms(3) by auto

lemma bases_differ:
  assumes "ok s" and "append x s s1"
    and "(\<lambda>s s'. (\<exists>x. append x s s') \<or> other s s')\<^sup>*\<^sup>* s1 s2" and "append y s2 s3"
  shows "base x < base y"
proof -
  have ok1: "ok s1" by (rule ok_append [OF assms(1,2)])
  from steps_extend [OF assms(3) ok1] obtain xs where "ok s2" "entries s2 = entries s1 @ xs" by blast
  with append_based [OF _ assms(4)] append_based [OF assms(1,2)] append_entries [OF assms(1,2)]
  show ?thesis by simp
qed

end

section \<open>A vault is a ledger\<close>

definition vault_row_of :: "uuid \<Rightarrow> db \<Rightarrow> vault_row option" where
  "vault_row_of v d = find (\<lambda>x. va_id x = v) (vaults d)"

definition vault_appended :: "uuid \<Rightarrow> revision_row \<Rightarrow> db \<Rightarrow> db \<Rightarrow> bool" where
  "vault_appended v r d d' \<longleftrightarrow> rv_vault_id r = v \<and> (\<exists>a. vault_append a r d d')"

definition elsewhere :: "uuid \<Rightarrow> db \<Rightarrow> db \<Rightarrow> bool" where
  "elsewhere v d d' \<longleftrightarrow> same_vaults d d' \<or> (\<exists>a r. vault_append a r d d' \<and> rv_vault_id r \<noteq> v)
     \<or> (\<exists>i a g t. new_vault i a g t d = Inr d')"

lemma vault_row_of_unique:
  "vaults_ok d \<Longrightarrow> x \<in> set (vaults d) \<Longrightarrow> vault_row_of (va_id x) d = Some x"
  unfolding vault_row_of_def
  by (cases "find (\<lambda>y. va_id y = va_id x) (vaults d)")
    (auto simp: find_None_iff dest: find_Some_mem distinct_map_unique [OF vaults_okD(1)])

lemma find_written:
  "find (\<lambda>x. va_id x = v) (written_vaults a r now vs) = map_option (\<lambda>x.
     if va_id x = rv_vault_id r \<and> va_account_id x = a
     then x\<lparr>va_head_seq := rv_head_seq r, va_head_hash := rv_head_hash r, va_updated_at := now\<rparr> else x)
     (find (\<lambda>x. va_id x = v) vs)"
  by (induction vs) (auto simp: written_vaults_def update_where_def)

lemma append_row:
  assumes ok: "vaults_ok d" and append: "vault_append a r d d'"
  obtains x where "vault_row_of (rv_vault_id r) d = Some x" "va_account_id x = a"
    "map_option va_genesis_head_hash (vault_row_of v d') = map_option va_genesis_head_hash (vault_row_of v d)"
    "map_option va_head_hash (vault_row_of v d')
       = (if v = rv_vault_id r then Some (rv_head_hash r) else map_option va_head_hash (vault_row_of v d))"
    "va_head_hash x = rv_previous_head_hash r" "va_head_seq x = rv_base_head_seq r"
    "log_of v d' = log_of v d @ (if rv_vault_id r = v then [r] else [])"
  using append
proof (rule vault_append_tables)
  fix items now
  assume tables: "vaults d' = written_vaults a r now (vaults d)" "vault_item_revisions d' = vault_item_revisions d @ [r]"
    and checks: "revision_checks r" and based: "based_on_head a r d"
  from based obtain x where x: "vault_of a (rv_vault_id r) d = Some x" "rv_base_head_seq r = va_head_seq x"
    "rv_previous_head_hash r = va_head_hash x" unfolding based_on_head_def by blast
  have mem: "x \<in> set (vaults d)" "va_id x = rv_vault_id r" "va_account_id x = a"
    using find_Some_mem [OF x(1) [unfolded vault_of_def]] by simp_all
  have row: "vault_row_of (rv_vault_id r) d = Some x" using vault_row_of_unique [OF ok mem(1)] mem(2) by simp
  have "map_option va_genesis_head_hash (vault_row_of v d') = map_option va_genesis_head_hash (vault_row_of v d)"
    by (simp add: vault_row_of_def tables find_written option.map_comp comp_def if_distrib cong: if_cong)
  moreover have "map_option va_head_hash (vault_row_of v d')
       = (if v = rv_vault_id r then Some (rv_head_hash r) else map_option va_head_hash (vault_row_of v d))"
    using row mem by (cases "find (\<lambda>x. va_id x = v) (vaults d)")
      (auto simp: vault_row_of_def tables find_written dest: find_Some_mem)
  ultimately show ?thesis
    using that row mem x log_of_append [OF tables(2)] by simp
qed

lemma opened_row:
  assumes "new_vault i a g t d = Inr d'"
  shows "log_of v d' = log_of v d \<and> i \<notin> va_id ` set (vaults d)
    \<and> (vault_row_of v d' = vault_row_of v d \<or> v = i \<and> vault_row_of v d = None
        \<and> map_option va_genesis_head_hash (vault_row_of v d') = Some g)"
  using assms
proof (rule new_vault_tables)
  fix x assume x: "d' = d\<lparr>vaults := vaults d @ [x]\<rparr>" "va_id x = i" "i \<notin> va_id ` set (vaults d)"
    "va_genesis_head_hash x = g"
  have "vault_row_of i d = None" using x(3) by (auto simp: vault_row_of_def find_None_iff)
  with x show ?thesis
    by (auto simp: log_of_def vault_row_of_def find_append_right split: option.split)
qed

lemma vault_row_of_mem: "vault_row_of v d = Some x \<Longrightarrow> x \<in> set (vaults d) \<and> va_id x = v"
  unfolding vault_row_of_def by (drule find_Some_mem) simp

lemma elsewhere_same:
  assumes "vaults_ok d" and "elsewhere v d d'" and "vault_row_of v d \<noteq> None"
  shows "vaults_ok d' \<and> log_of v d' = log_of v d
    \<and> map_option va_genesis_head_hash (vault_row_of v d') = map_option va_genesis_head_hash (vault_row_of v d)
    \<and> map_option va_head_hash (vault_row_of v d') = map_option va_head_hash (vault_row_of v d)"
  using assms(2) unfolding elsewhere_def
proof (elim disjE exE conjE)
  assume same: "same_vaults d d'"
  with same_vaults_ok [OF assms(1)] show ?thesis
    by (simp add: same_vaults_def vault_row_of_def log_of_def)
next
  fix a r assume append: "vault_append a r d d'" and other: "rv_vault_id r \<noteq> v"
  note ok = vault_append_ok [OF assms(1) append]
  show ?thesis
    by (rule append_row [OF assms(1) append, of v]) (use ok other in simp)
next
  fix i a g t assume new: "new_vault i a g t d = Inr d'"
  with new_vault_ok [OF assms(1) new] opened_row [OF new, of v] assms(3) show ?thesis by auto
qed

interpretation vault: ledger
  "\<lambda>d. vaults_ok d \<and> vault_row_of v d \<noteq> None" "log_of v"
  "\<lambda>d. map_option va_genesis_head_hash (vault_row_of v d)" "\<lambda>d. map_option va_head_hash (vault_row_of v d)"
  "\<lambda>r. Some (rv_previous_head_hash r)" "\<lambda>r. Some (rv_head_hash r)" rv_base_head_seq
  "vault_appended v" "elsewhere v" for v
proof (unfold_locales, goal_cases)
  case (1 s x s')
  then obtain a where a: "vault_append a x s s'" by (auto simp: vault_appended_def)
  with 1 vault_append_ok [OF _ a] show ?case by (auto simp: vault_appended_def elim!: append_row [where v = v])
next
  case (2 s x s')
  then show ?case by (auto simp: vault_appended_def elim!: append_row [where v = v])
next
  case (3 s x s')
  then obtain a where a: "vaults_ok s" "vault_append a x s s'" "rv_vault_id x = v" by (auto simp: vault_appended_def)
  from append_row [OF a(1,2)] obtain y where y: "vault_row_of v s = Some y"
    "va_head_hash y = rv_previous_head_hash x" "va_head_seq y = rv_base_head_seq x" using a(3) by metis
  with vault_row_of_mem [OF y(1)] vaults_okD(3) [OF a(1)] y show ?case by (auto simp: vault_consistent_def Let_def)
next
  case (4 s x s')
  then show ?case by (auto simp: vault_appended_def elim!: append_row [where v = v])
next
  case (5 s s')
  then show ?case using elsewhere_same [of s v s'] by auto
next
  case (6 s s')
  then show ?case using elsewhere_same [of s v s'] by simp
qed

section \<open>The abstract machine\<close>

text \<open>The specification that the vault tables implement: a finite map from vaults to their genesis
  hash and the list of their entries. A vault is opened empty, entries are appended one at a time under
  the conditions of optimistic concurrency, and whole vaults are dropped.\<close>

type_synonym ledgers = "uuid \<Rightarrow> (bytes \<times> revision_row list) option"

definition item_accepts :: "revision_row list \<Rightarrow> revision_row \<Rightarrow> bool" where
  "item_accepts rs r \<longleftrightarrow> revisions_from 0 (filter (\<lambda>q. rv_item_id q = rv_item_id r) rs @ [r])"

inductive ledger_step :: "ledgers \<Rightarrow> ledgers \<Rightarrow> bool" where
  open_ledger: "L v = None \<Longrightarrow> ledger_step L (L(v \<mapsto> (g, [])))"
| append_ledger: "L v = Some (g, rs) \<Longrightarrow> rv_vault_id r = v \<Longrightarrow> chained g 0 (rs @ [r]) \<Longrightarrow> item_accepts rs r \<Longrightarrow>
    ledger_step L (L(v \<mapsto> (g, rs @ [r])))"
| drop_ledgers: "ledger_step L (L |` A)"

inductive_cases ledger_stepE: "ledger_step L L'"

definition ledgers_of :: "db \<Rightarrow> ledgers" where
  "ledgers_of d = (\<lambda>v. map_option (\<lambda>x. (va_genesis_head_hash x, log_of v d)) (vault_row_of v d))"

text \<open>The machine keeps every ledger chained, and every item's revisions numbered from its
  creation to its deletion.\<close>

definition ledgers_ok :: "ledgers \<Rightarrow> bool" where
  "ledgers_ok L \<longleftrightarrow> (\<forall>v g rs. L v = Some (g, rs) \<longrightarrow> chained g 0 rs
     \<and> (\<forall>i. revisions_from 0 (filter (\<lambda>q. rv_item_id q = i) rs)))"

lemma ledger_step_ok: "ledger_step L L' \<Longrightarrow> ledgers_ok L \<Longrightarrow> ledgers_ok L'"
proof (induction rule: ledger_step.induct)
  case (append_ledger L v g rs r)
  have "revisions_from 0 (filter (\<lambda>q. rv_item_id q = i) (rs @ [r]))" for i
    using append_ledger by (auto simp: ledgers_ok_def item_accepts_def)
  with append_ledger show ?case by (auto simp: ledgers_ok_def)
qed (auto simp: ledgers_ok_def restrict_map_def)

lemma ledgers_stay_ok: "ledger_step\<^sup>*\<^sup>* L L' \<Longrightarrow> ledgers_ok L \<Longrightarrow> ledgers_ok L'"
  by (induction rule: rtranclp_induct) (simp_all add: ledger_step_ok)

lemma item_accepts_append:
  assumes ok: "vaults_ok d" and append: "vault_append a r d d'"
  shows "item_accepts (log_of (rv_vault_id r) d) r"
proof -
  have "vaults_ok d'" by (rule vault_append_ok [OF ok append])
  moreover from append obtain items now where items: "vault_items d' = written_items r now items"
    "list_ex (\<lambda>i. it_id i = rv_item_id r \<and> it_vault_id i = rv_vault_id r) items"
    "vault_item_revisions d' = vault_item_revisions d @ [r]"
    by (rule vault_append_tables) blast
  moreover from this written_items_placed obtain i where "i \<in> set (vault_items d')" "it_id i = rv_item_id r"
    "it_vault_id i = rv_vault_id r" by (metis (mono_tags, lifting) list_ex_iff)
  ultimately have "item_consistent d' i" using vaults_okD(5) by blast
  then have "revisions_from 0 (item_log (rv_vault_id r) (rv_item_id r) d')"
    using \<open>it_id i = rv_item_id r\<close> \<open>it_vault_id i = rv_vault_id r\<close> by (simp add: item_consistent_def Let_def)
  then show ?thesis
    by (simp add: item_accepts_def item_log_append [OF items(3)]) (simp add: item_log_def)
qed

lemma append_refines:
  assumes ok: "vaults_ok d" and append: "vault_append a r d d'"
  shows "ledger_step (ledgers_of d) (ledgers_of d')"
proof -
  from append_row [OF ok append] obtain x where x: "vault_row_of (rv_vault_id r) d = Some x" by blast
  let ?v = "rv_vault_id r" and ?g = "va_genesis_head_hash x" and ?rs = "log_of (rv_vault_id r) d"
  have same: "map_option va_genesis_head_hash (vault_row_of v d') = map_option va_genesis_head_hash (vault_row_of v d)"
    "log_of v d' = log_of v d @ (if rv_vault_id r = v then [r] else [])" for v
    by (rule append_row [OF ok append, of v], simp)+
  have old: "ledgers_of d ?v = Some (?g, ?rs)" by (simp add: ledgers_of_def x)
  have "ledgers_of d' v = ((ledgers_of d)(?v \<mapsto> (?g, ?rs @ [r]))) v" for v
    using same [of v] x by (cases "vault_row_of v d'"; cases "vault_row_of v d") (auto simp: ledgers_of_def)
  then have new: "ledgers_of d' = (ledgers_of d)(?v \<mapsto> (?g, ?rs @ [r]))" by (rule ext)
  have row': "vault_consistent d' y" if "vault_row_of ?v d' = Some y" for y
    using vaults_okD(3) [OF vault_append_ok [OF ok append]] vault_row_of_mem [OF that] by simp
  obtain y where y: "vault_row_of ?v d' = Some y" "va_genesis_head_hash y = ?g"
    using same(1) [of ?v] x by auto
  have "chained ?g 0 (?rs @ [r])"
    using row' [OF y(1)] y(2) vault_row_of_mem [OF y(1)] same(2) [of ?v]
    by (simp add: vault_consistent_def Let_def)
  then show ?thesis
    unfolding new using old item_accepts_append [OF ok append] by (intro append_ledger) simp_all
qed

lemma same_vaults_ledgers: "same_vaults d d' \<Longrightarrow> ledgers_of d' = ledgers_of d"
  by (simp add: same_vaults_def ledgers_of_def vault_row_of_def log_of_def)

lemma open_refines:
  assumes ok: "vaults_ok d" and new: "new_vault i a g t d = Inr d'"
  shows "ledger_step (ledgers_of d) (ledgers_of d')"
proof -
  note row = opened_row [OF new]
  have empty: "log_of i d = []" using row by (intro no_log_without_vault [OF ok]) blast
  have none: "vault_row_of i d = None"
    using row vault_row_of_mem [of i d] by (cases "vault_row_of i d") auto
  have "map_option va_genesis_head_hash (vault_row_of i d') = Some g"
    by (rule new_vault_tables [OF new])
      (use none in \<open>simp add: vault_row_of_def find_append_right\<close>)
  then have "ledgers_of d' v = ((ledgers_of d)(i \<mapsto> (g, []))) v" for v
    using row [of v] empty none by (auto simp: ledgers_of_def)
  then have "ledgers_of d' = (ledgers_of d)(i \<mapsto> (g, []))" by (rule ext)
  then show ?thesis using none by (simp add: open_ledger ledgers_of_def)
qed

end
