(* ===== verification/PV_Sync.thy ===== *)
theory PV_Sync
  imports PV_VaultLog
begin

text \<open>
  Reading a vault: the pages that \<open>sync_vault\<close> of \<^verbatim>\<open>vault.rs\<close> answers are consecutive pieces of
  the vault's log, a cursor is accepted exactly when it lies on the log, and following the pages
  reaches the head.
\<close>

section \<open>Rows of a page\<close>

lemma sort_key_sorted: "sorted (map f xs) \<Longrightarrow> sort_key f xs = xs"
  by (induction xs) (auto simp: insort_is_Cons)

lemma filter_from_index:
  "(\<And>k. k < length xs \<Longrightarrow> P (xs ! k) = (n \<le> k)) \<Longrightarrow> filter P xs = drop n xs"
proof (induction xs arbitrary: n)
  case (Cons x xs)
  show ?case
  proof (cases n)
    case 0
    then have "\<forall>y \<in> set (x # xs). P y" using Cons.prems by (metis in_set_conv_nth le0)
    with 0 show ?thesis by (simp add: filter_id_conv)
  next
    case (Suc m)
    have "filter P xs = drop m xs"
      by (rule Cons.IH) (use Cons.prems [of "Suc k" for k] Suc in force)
    with Cons.prems [of 0] Suc show ?thesis by simp
  qed
qed simp

lemma sync_rows_log:
  assumes ok: "vaults_ok d" and row: "vault_row_of v d = Some x"
  shows "sync_rows v (int n) (va_head_seq x) limit d = take limit (drop n (log_of v d))"
proof -
  let ?rs = "log_of v d"
  from vault_row_of_mem [OF row] vaults_okD(3) [OF ok] have x: "vault_consistent d x" "va_id x = v" by auto
  then have chain: "chained (va_genesis_head_hash x) 0 ?rs" and len: "va_head_seq x = int (length ?rs)"
    by (auto simp: vault_consistent_def Let_def)
  have seq: "rv_head_seq (?rs ! k) = 1 + int k" if "k < length ?rs" for k
    using chained_nth_seq [OF chain that] by simp
  have "sync_rows v (int n) (va_head_seq x) limit d
      = take limit (sort_key rv_head_seq (filter (\<lambda>r. int n < rv_head_seq r \<and> rv_head_seq r \<le> va_head_seq x) ?rs))"
    by (simp add: sync_rows_def log_of_def conj_commute conj_left_commute)
  also have "filter (\<lambda>r. int n < rv_head_seq r \<and> rv_head_seq r \<le> va_head_seq x) ?rs = drop n ?rs"
    by (rule filter_from_index) (auto simp: seq len)
  also have "sort_key rv_head_seq (drop n ?rs) = drop n ?rs"
    by (rule sort_key_sorted) (auto simp: sorted_iff_nth_mono seq)
  finally show ?thesis .
qed

section \<open>Cursors\<close>

text \<open>A cursor lies on the log when its sequence number is at most the head's and its hash is the
  one that the log has there.\<close>

definition on_log :: "vault_row \<Rightarrow> db \<Rightarrow> int \<Rightarrow> bytes \<Rightarrow> bool" where
  "on_log x d n h \<longleftrightarrow> 0 \<le> n \<and> n \<le> va_head_seq x
     \<and> tip (va_genesis_head_hash x) (take (nat n) (log_of (va_id x) d)) = h"

lemma find_nth:
  assumes "\<And>k. k < length xs \<Longrightarrow> P (xs ! k) = (k = n)" and "n < length xs"
  shows "find P xs = Some (xs ! n)"
  using assms by (auto simp: find_Some_iff)

lemma find_filter: "find (\<lambda>r. P r \<and> Q r) xs = find Q (filter P xs)"
  by (induction xs) auto

lemma revision_hash_log:
  assumes ok: "vaults_ok d" and x: "x \<in> set (vaults d)" and n: "0 < n" "n \<le> va_head_seq x"
  shows "revision_hash_at (va_id x) n d = Some (tip (va_genesis_head_hash x) (take (nat n) (log_of (va_id x) d)))"
proof -
  let ?rs = "log_of (va_id x) d"
  obtain m where m: "n = int m + 1" using n(1) by (metis zle_iff_zadd add.commute int_one_le_iff_zero_less)
  from vaults_okD(3) [OF ok x] have chain: "chained (va_genesis_head_hash x) 0 ?rs"
    and len: "va_head_seq x = int (length ?rs)" by (auto simp: vault_consistent_def Let_def)
  have "m < length ?rs" using n(2) m len by simp
  moreover have "find (\<lambda>r. rv_head_seq r = n) ?rs = Some (?rs ! m)"
    by (rule find_nth) (use chained_nth_seq [OF chain] m \<open>m < length ?rs\<close> in auto)
  ultimately show ?thesis
    by (simp add: revision_hash_at_def find_filter log_of_def [symmetric] m tip_def take_Suc_conv_app_nth nat_add_distrib)
qed

text \<open>What the check answers, where \<open>v\<close> is the head that was read.\<close>

definition cursor_answer :: "uuid \<Rightarrow> vault_head \<Rightarrow> int \<Rightarrow> bytes \<Rightarrow> db \<Rightarrow> bool \<Rightarrow> bool" where
  "cursor_answer vault_id v n h d b \<longleftrightarrow>
     (\<forall>x \<in> set (vaults d). vaults_ok d \<and> va_id x = vault_id \<and> v = vault_head_from_row x \<and> 0 \<le> n \<longrightarrow> b = on_log x d n h)"

lemma wp_sync_cursor_matches:
  assumes "\<And>b w'. same_state w w' \<Longrightarrow> cursor_answer vault_id v n h (w_db w) b \<Longrightarrow> Q b w'"
    and "\<And>z w'. same_state w w' \<Longrightarrow> R z w'"
  shows "wp e (sync_cursor_matches vault_id v n h) Q R w"
proof -
  have len: "va_head_seq x = int (length (log_of (va_id x) (w_db w)))"
    and head: "va_head_hash x = tip (va_genesis_head_hash x) (log_of (va_id x) (w_db w))"
    if "x \<in> set (vaults (w_db w))" "vaults_ok (w_db w)" for x
    using vaults_okD(3) [OF that(2,1)] by (auto simp: vault_consistent_def Let_def)
  show ?thesis
    unfolding sync_cursor_matches_def vault_head_simps
    by (intro vc_rules assms) (auto simp: on_log_def same_state_def cursor_answer_def len head revision_hash_log)
qed

section \<open>The answer of a sync\<close>

text \<open>What a reader at position \<open>n\<close> of the log is told: the next changes, at most 500 of them, the
  cursor after them, and whether there are more.\<close>

definition page_of :: "externals \<Rightarrow> vault_row \<Rightarrow> db \<Rightarrow> nat \<Rightarrow> bytes \<Rightarrow> sync_response" where
  "page_of X x d n h =
     (let log = log_of (va_id x) d; page = take MAX_SYNC_CHANGES_PER_RESPONSE (drop n log);
          m = n + length page in
      SyncPage (head_response_of X (int n) h)
        (head_response_of X (int m) (tip (va_genesis_head_hash x) (take m log)))
        (m < length log) (map (sync_change_of X) page))"

lemma take_position: "take (n + length (take k (drop n xs))) xs = take n xs @ take k (drop n xs)"
  by (cases "k \<le> length xs - n") (simp_all add: take_add min_def)

lemma chained_position:
  assumes "chained g 0 rs" and "n \<le> length rs" and "n + 1 \<le> m" and "m \<le> length rs"
  shows "rv_head_seq (last (take m rs)) = int m"
proof -
  have "take m rs \<noteq> []" using assms(3,4) by auto
  then have "last (take m rs) = rs ! (m - 1)" using assms(3,4) by (simp add: last_conv_nth min_def)
  then show ?thesis using chained_nth_seq [OF assms(1), of "m - 1"] assms(3,4) by simp
qed

lemma sync_page_log:
  assumes ok: "vaults_ok d" and row: "vault_row_of v d = Some x" and cursor: "on_log x d (int n) h"
  shows "sync_page X (vault_head_from_row x) (int n) h
      (sync_rows v (int n) (va_head_seq x) (MAX_SYNC_CHANGES_PER_RESPONSE + 1) d) = page_of X x d n h"
proof -
  let ?rs = "log_of (va_id x) d" and ?M = MAX_SYNC_CHANGES_PER_RESPONSE
  from vault_row_of_mem [OF row] vaults_okD(3) [OF ok] have v: "va_id x = v" and c: "vault_consistent d x" by auto
  then have chain: "chained (va_genesis_head_hash x) 0 ?rs" and len: "va_head_seq x = int (length ?rs)"
    and head: "va_head_hash x = tip (va_genesis_head_hash x) ?rs" by (auto simp: vault_consistent_def Let_def)
  from cursor len have n: "n \<le> length ?rs" by (simp add: on_log_def)
  let ?page = "take ?M (drop n ?rs)"
  have rows: "sync_rows v (int n) (va_head_seq x) (?M + 1) d = take (?M + 1) (drop n ?rs)"
    using sync_rows_log [OF ok row] v by simp
  have more: "(length (take (?M + 1) (drop n ?rs)) > ?M) = (n + length ?page < length ?rs)" by auto
  have page: "(if length (take (?M + 1) (drop n ?rs)) > ?M then take ?M (take (?M + 1) (drop n ?rs))
      else take (?M + 1) (drop n ?rs)) = ?page" by auto
  have to: "(if ?page = [] then head_response_of X (va_head_seq x) (va_head_hash x)
      else head_response_of X (rv_head_seq (last ?page)) (rv_head_hash (last ?page)))
    = head_response_of X (int (n + length ?page)) (tip (va_genesis_head_hash x) (take (n + length ?page) ?rs))"
  proof (cases "?page = []")
    case True
    then have "length ?rs \<le> n" by (auto simp: MAX_SYNC_CHANGES_PER_RESPONSE_def)
    with n have "n = length ?rs" by simp
    with True show ?thesis by (simp add: len head)
  next
    case False
    then have last: "last ?page = last (take (n + length ?page) ?rs)" unfolding take_position by simp
    have nonempty: "take (n + length ?page) ?rs \<noteq> []" using False unfolding take_position by simp
    have seq: "rv_head_seq (last (take (n + length ?page) ?rs)) = int (n + length ?page)"
      by (rule chained_position [OF chain n]) (use False in \<open>auto simp: not_less\<close>)
    show ?thesis using False nonempty by (simp only: tip_def if_False last seq)
  qed
  then show ?thesis
    unfolding sync_page_def page_of_def rows Let_def vault_head_simps unfolding page unfolding more
    by (rule arg_cong)
qed

lemma vault_of_row:
  assumes "vaults_ok d" and "vault_of a v d = Some x"
  shows "vault_row_of v d = Some x \<and> x \<in> set (vaults d) \<and> va_id x = v \<and> va_account_id x = a"
  using find_Some_mem [OF assms(2) [unfolded vault_of_def]] vault_row_of_unique [OF assms(1), of x] by auto

lemma session_refreshed_vaults:
  assumes "session_refreshed d d'"
  shows "same_vaults d d'"
proof -
  have "vaults d' = vaults (d\<lparr>sessions := sessions d'\<rparr>)" "vault_items d' = vault_items (d\<lparr>sessions := sessions d'\<rparr>)"
    "vault_item_revisions d' = vault_item_revisions (d\<lparr>sessions := sessions d'\<rparr>)"
    using session_refreshed_only [OF assms] by metis+
  then show ?thesis by (simp add: same_vaults_def)
qed

definition sync_answer ::
  "env \<Rightarrow> headers \<Rightarrow> uuid \<Rightarrow> int \<Rightarrow> string \<Rightarrow> db \<Rightarrow> db \<Rightarrow> sync_response response \<Rightarrow> bool" where
  "sync_answer e h vault_id n from_hash d d' resp \<longleftrightarrow>
     (\<exists>s x hash. vault_session e h d d' s \<and> vault_of (se_account_id s) vault_id d' = Some x
        \<and> decode_hash (ext e) from_hash = Inr hash
        \<and> (if on_log x d' n hash then resp = no_store_json 200 (page_of (ext e) x d' (nat n) hash)
           else resp = vault_conflict_response (ext e) SyncConflict (vault_head_from_row x)))"

lemma sync_answerI:
  assumes "session_token_from_headers (ext e) h = Some tok" and "se_session_token_hash s = sha256_verifier (ext e) tok"
    and "live_session d now s" and "se_session_state s = ''mfa_verified''" and "session_refreshed d d'"
    and "vault_of (se_account_id s) vault_id d' = Some x" and "decode_hash (ext e) from_hash = Inr hash"
    and "if on_log x d' n hash then resp = no_store_json 200 (page_of (ext e) x d' (nat n) hash)
       else resp = vault_conflict_response (ext e) SyncConflict (vault_head_from_row x)"
  shows "sync_answer e h vault_id n from_hash d d' resp"
  using assms unfolding sync_answer_def vault_session_def by blast

lemma wp_load_vault_head:
  assumes "\<And>w'. same_state w w' \<Longrightarrow> Q (map_option vault_head_from_row (vault_of a v (w_db w))) w'"
    and "\<And>x w'. same_state w w' \<Longrightarrow> R x w'"
  shows "wp e (load_vault_head a v) Q R w"
  unfolding load_vault_head_def by (intro vc_rules) (use assms in auto)

lemma cursor_decides:
  assumes "vaults_ok d" and "session_refreshed d d'" and "vault_of a vault_id d' = Some x"
    and "cursor_answer vault_id (vault_head_from_row x) n hash d' b" and "0 \<le> n"
  shows "b = on_log x d' n hash"
    and "b \<Longrightarrow> sync_page X (vault_head_from_row x) n hash
        (sync_rows vault_id n (va_head_seq x) (Suc MAX_SYNC_CHANGES_PER_RESPONSE) d') = page_of X x d' (nat n) hash"
proof -
  have ok: "vaults_ok d'" by (rule same_vaults_ok [OF assms(1) session_refreshed_vaults [OF assms(2)]])
  note row = vault_of_row [OF ok assms(3)]
  show b: "b = on_log x d' n hash" using assms(4,5) row ok by (auto simp: cursor_answer_def)
  show "sync_page X (vault_head_from_row x) n hash
      (sync_rows vault_id n (va_head_seq x) (Suc MAX_SYNC_CHANGES_PER_RESPONSE) d') = page_of X x d' (nat n) hash" if b
    using sync_page_log [OF ok, of vault_id x "nat n" hash X] row b that assms(5) by simp
qed

lemma sync_answer_decided:
  assumes "vaults_ok d" and "session_token_from_headers (ext e) h = Some tok"
    and "se_session_token_hash s = sha256_verifier (ext e) tok"
    and "live_session d now s" and "se_session_state s = ''mfa_verified''" and "session_refreshed d d'"
    and "vault_of (se_account_id s) vault_id d' = Some x" and "decode_hash (ext e) from_hash = Inr hash"
    and "cursor_answer vault_id (vault_head_from_row x) n hash d' b" and "0 \<le> n"
  shows "sync_answer e h vault_id n from_hash d d'
    (if b then no_store_json 200 (sync_page (ext e) (vault_head_from_row x) n hash
        (sync_rows vault_id n (va_head_seq x) (Suc MAX_SYNC_CHANGES_PER_RESPONSE) d'))
     else vault_conflict_response (ext e) SyncConflict (vault_head_from_row x))"
  using cursor_decides [OF assms(1,6,7,9,10)] by (intro sync_answerI [OF assms(2-8)]) auto

lemma wp_sync_vault:
  assumes "vaults_ok (w_db w)"
  shows "wp e (sync_vault h vault_id n from_hash)
     (\<lambda>resp w'. 0 \<le> n \<and> sync_answer e h vault_id n from_hash (w_db w) (w_db w') resp)
     (\<lambda>_ w'. session_refreshed (w_db w) (w_db w')) w"
  unfolding sync_vault_def telemetry_defs counter_def
  apply (intro vc_rules wp_require_vault_session wp_load_vault_head wp_sync_cursor_matches)
  apply (simp_all add: same_state_def validate_nonnegative_seq_def split: if_splits)
   apply (auto intro: sync_answer_decided [OF assms, where b = False, simplified]
      sync_answer_decided [OF assms, where b = True, simplified])
  done

text \<open>C5. A sync answers exactly what the log says. An answer means that the request came from a live
  session with vault access for a vault of its account, and that the cursor was well formed: if the
  cursor lies on the vault's log, the answer carries the next entries of the log, at most 500, in
  order, the cursor after them and whether entries remain; if it does not, the answer is a conflict
  that names the head. A sync changes at most the session's activity.\<close>

theorem sync_vault_exact:
  assumes "sync_vault h vault_id n from_hash e w = (r, w')" and "vaults_ok (w_db w)"
  shows "session_refreshed (w_db w) (w_db w') \<and> (case r of
      Inr resp \<Rightarrow> 0 \<le> n \<and> sync_answer e h vault_id n from_hash (w_db w) (w_db w') resp
    | Inl x \<Rightarrow> True)"
  using wp_result [OF assms(1) wp_sync_vault [OF assms(2)]]
  by (cases r) (auto simp: sync_answer_def vault_session_def)

definition sample_revision :: revision_row where
  "sample_revision =
     \<lparr>rv_id = 6, rv_vault_id = 77, rv_item_id = 5, rv_operation = ''create'', rv_revision_seq = 1,
      rv_base_revision_seq = 0, rv_head_seq = 1, rv_base_head_seq = 0, rv_base_head_hash = replicate 32 3,
      rv_previous_head_hash = replicate 32 3, rv_head_hash = replicate 32 4, rv_change_mac = replicate 32 5,
      rv_key_id = ''k'', rv_crypto_version = ''v'', rv_envelope_hash = replicate 32 6,
      rv_encrypted_item_envelope = JObj []\<rparr>"

definition sample_head :: vault_row where
  "sample_head = sample_vault\<lparr>va_head_seq := 1, va_head_hash := replicate 32 4\<rparr>"

definition sample_log_db :: db where
  "sample_log_db = (vault_db sample_head [sample_item])\<lparr>vault_item_revisions := [sample_revision]\<rparr>"

lemma sample_log: "log_of 77 sample_log_db = [sample_revision]"
  by (simp add: log_of_def sample_log_db_def sample_revision_def)

lemma sample_log_ok: "vaults_ok sample_log_db"
proof (rule vaults_okI)
  show "vault_consistent sample_log_db v" if "v \<in> set (vaults sample_log_db)" for v
    using that sample_log
    by (simp add: sample_log_db_def vault_db_def vault_consistent_def sample_head_def sample_vault_def
        tip_def sample_revision_def)
  show "it_vault_id i \<in> va_id ` set (vaults sample_log_db) \<and> item_consistent sample_log_db i"
    if "i \<in> set (vault_items sample_log_db)" for i
    using that sample_log
    by (simp add: sample_log_db_def vault_db_def item_consistent_def item_log_def sample_item_def new_item_def
        sample_revision_def sample_head_def sample_vault_def)
  show "revision_placed sample_log_db r" if "r \<in> set (vault_item_revisions sample_log_db)" for r
    using that
    by (simp add: sample_log_db_def vault_db_def revision_placed_def revision_checks_def sample_revision_def
        nonblank_def sample_item_def new_item_def)
qed (simp_all add: sample_log_db_def vault_db_def)

theorem sync_vault_exact_witness:
  "\<exists>resp w'. sync_vault sample_headers 77 0 (hex_encode (replicate 32 3)) sample_env (world_of sample_log_db) = (Inr resp, w')
     \<and> sync_answer sample_env sample_headers 77 0 (hex_encode (replicate 32 3)) sample_log_db (w_db w') resp
     \<and> rs_status resp = 200"
proof -
  let ?w = "world_of sample_log_db"
  have "wp sample_env (sync_vault sample_headers 77 0 (hex_encode (replicate 32 3)))
      (\<lambda>resp _. rs_status resp = 200) (\<lambda>_ _. False) ?w"
    by (simp add: sync_vault_def validate_nonnegative_seq_def load_vault_head_def sync_cursor_matches_def
        sample_log_db_def sample_head_def sample_write min_time_def no_store_json_def del: hex_encode.simps)
  then obtain resp w' where run: "sync_vault sample_headers 77 0 (hex_encode (replicate 32 3)) sample_env ?w = (Inr resp, w')"
    and "rs_status resp = 200" by (auto elim: run_of_wp)
  with sync_vault_exact [OF run] sample_log_ok show ?thesis by auto
qed

section \<open>Following the pages\<close>

text \<open>A client that starts from a cursor and follows the answers while there are more.\<close>

fun follow_pages :: "nat \<Rightarrow> externals \<Rightarrow> vault_row \<Rightarrow> db \<Rightarrow> int \<Rightarrow> bytes \<Rightarrow> sync_change list option" where
  "follow_pages 0 X x d n h = None"
| "follow_pages (Suc fuel) X x d n h =
     (case sync_page X (vault_head_from_row x) n h
         (sync_rows (va_id x) n (va_head_seq x) (MAX_SYNC_CHANGES_PER_RESPONSE + 1) d) of
        SyncPage _ cursor again changes \<Rightarrow>
          if \<not> again then Some changes
          else (case decode_hash X (hr_hash cursor) of
              Inl _ \<Rightarrow> None
            | Inr h' \<Rightarrow> map_option (\<lambda>rest. changes @ rest) (follow_pages fuel X x d (hr_seq cursor) h'))
      | SyncConflict _ _ _ \<Rightarrow> None)"

lemma decode_hash_encode:
  assumes "base64url_roundtrip X" and "length b = 32"
  shows "decode_hash X (encode_base64url X b) = Inr b"
  using decode_encode [OF assms(1), of HASH_BYTES b] assms(2)
  by (simp add: decode_hash_def HASH_BYTES_def map_err_def)

lemma tip_length:
  assumes "vaults_ok d" and "x \<in> set (vaults d)"
  shows "length (tip (va_genesis_head_hash x) (take m (log_of (va_id x) d))) = 32"
proof -
  have "length (rv_head_hash r) = 32" if "r \<in> set (log_of (va_id x) d)" for r
    using vaults_okD(6) [OF assms(1), of r] that
    by (simp add: log_of_def revision_placed_def revision_checks_def)
  moreover have "length (va_genesis_head_hash x) = 32"
    using vaults_okD(3) [OF assms] by (simp add: vault_consistent_def Let_def)
  moreover have "take m rs \<noteq> [] \<Longrightarrow> last (take m rs) \<in> set rs" for rs :: "revision_row list"
    by (metis in_set_takeD last_in_set)
  ultimately show ?thesis by (simp add: tip_def del: take_eq_Nil take_eq_Nil2)
qed

text \<open>C7. Reading to the end always ends, with everything: from any cursor on the log, a client that
  follows the pages of an unchanged vault needs at most one page per 500 missing entries, and
  then holds exactly the missing entries in the order of the log.\<close>

theorem follow_pages_complete:
  assumes "vaults_ok d" and "x \<in> set (vaults d)" and "base64url_roundtrip X" and "on_log x d (int n) h"
    and "(length (log_of (va_id x) d) - n) div MAX_SYNC_CHANGES_PER_RESPONSE < fuel"
  shows "follow_pages fuel X x d (int n) h = Some (map (sync_change_of X) (drop n (log_of (va_id x) d)))"
  using assms(4,5)
proof (induction fuel arbitrary: n h)
  case (Suc fuel)
  let ?rs = "log_of (va_id x) d" and ?M = MAX_SYNC_CHANGES_PER_RESPONSE
  let ?m = "n + length (take ?M (drop n ?rs))"
  have row: "vault_row_of (va_id x) d = Some x" by (rule vault_row_of_unique [OF assms(1,2)])
  have len: "va_head_seq x = int (length ?rs)"
    using vaults_okD(3) [OF assms(1,2)] by (simp add: vault_consistent_def Let_def)
  have page: "sync_page X (vault_head_from_row x) (int n) h
      (sync_rows (va_id x) (int n) (va_head_seq x) (?M + 1) d) = page_of X x d n h"
    by (rule sync_page_log [OF assms(1) row Suc.prems(1)])
  show ?case
  proof (cases "?m < length ?rs")
    case False
    then have "take ?M (drop n ?rs) = drop n ?rs" by auto
    with False page show ?thesis by (simp add: page_of_def Let_def del: length_take)
  next
    case True
    then have m: "?m = n + ?M" and "?M \<le> length ?rs - n" by auto
    have "on_log x d (int ?m) (tip (va_genesis_head_hash x) (take ?m ?rs))"
      using True len by (simp add: on_log_def del: length_take of_nat_add)
    moreover have "(length ?rs - ?m) div ?M < fuel"
      using Suc.prems(2) m \<open>?M \<le> length ?rs - n\<close>
      by (simp add: MAX_SYNC_CHANGES_PER_RESPONSE_def)
    ultimately have "follow_pages fuel X x d (int ?m) (tip (va_genesis_head_hash x) (take ?m ?rs))
        = Some (map (sync_change_of X) (drop ?m ?rs))" by (rule Suc.IH)
    moreover have "take ?M (drop n ?rs) @ drop ?m ?rs = drop n ?rs"
      unfolding m by (metis append_take_drop_id drop_drop add.commute)
    ultimately show ?thesis
      using True page decode_hash_encode [OF assms(3) tip_length [OF assms(1,2), of ?m]]
      by (simp add: page_of_def Let_def head_response_of_def map_append [symmetric]
          del: length_take map_append)
  qed
qed simp

theorem follow_pages_complete_witness:
  "follow_pages 1 sample sample_head sample_log_db 0 (replicate 32 3) = Some [sync_change_of sample sample_revision]"
proof -
  have id: "va_id sample_head = 77" by (simp add: sample_head_def sample_vault_def)
  have "on_log sample_head sample_log_db (int 0) (replicate 32 3)"
    by (simp add: on_log_def sample_head_def sample_vault_def)
  moreover have "sample_head \<in> set (vaults sample_log_db)" by (simp add: sample_log_db_def vault_db_def)
  ultimately show ?thesis
    using follow_pages_complete [OF sample_log_ok _ sample_base64url, of sample_head 0 "replicate 32 3" 1]
    by (simp add: sample_log id MAX_SYNC_CHANGES_PER_RESPONSE_def del: follow_pages.simps)
qed

section \<open>Listing\<close>

text \<open>The statement behind \<open>list_vaults\<close> gives the vaults of the account only, each with its wrapped
  keys, ordered by creation time and then identifier.\<close>

lemma vault_listing_set:
  "(v, k) \<in> set (vault_listing a d) \<longleftrightarrow> v \<in> set (vaults d) \<and> k \<in> set (vault_key_wraps d) \<and> va_account_id v = a
     \<and> kw_vault_id k = va_id v \<and> kw_account_id k = a"
  by (auto simp: vault_listing_def)

lemma vault_listing_sorted: "sorted (map (\<lambda>(v, k). ListingKey (va_created_at v) (va_id v)) (vault_listing a d))"
  by (simp add: vault_listing_def)

lemma vault_responses_ids:
  "wp e (vault_responses rows) (\<lambda>vs w'. same_state w w' \<and> map vl_vault_id vs = map (\<lambda>(v, k). va_id v) rows)
     (\<lambda>_ w'. same_state w w') w"
proof (induction rows)
  case (Cons p rows)
  obtain v k where p: "p = (v, k)" by force
  show ?case
    unfolding p vault_responses.simps
    by (intro vc_rules wp_mono [OF Cons.IH]) (simp_all add: same_state_def)
qed (simp add: wp_eqs same_state_def)

definition own_vault :: "uuid \<Rightarrow> db \<Rightarrow> uuid \<Rightarrow> bool" where
  "own_vault a d i \<longleftrightarrow> (\<exists>v \<in> set (vaults d). va_id v = i \<and> va_account_id v = a
     \<and> (\<exists>k \<in> set (vault_key_wraps d). kw_vault_id k = i \<and> kw_account_id k = a))"

lemma wp_list_vaults:
  "wp e (list_vaults h) (\<lambda>resp w'. \<exists>s. vault_session e h (w_db w) (w_db w') s
       \<and> map vl_vault_id (rs_body resp) = map (\<lambda>(v, k). va_id v) (vault_listing (se_account_id s) (w_db w')))
     (\<lambda>_ w'. session_refreshed (w_db w) (w_db w')) w"
  unfolding list_vaults_def
  by (intro vc_rules wp_require_vault_session wp_mono [OF vault_responses_ids])
    (auto simp: same_state_def no_store_json_def vault_session_def)


definition sample_listing_db :: db where
  "sample_listing_db = sample_log_db\<lparr>vault_key_wraps :=
     [\<lparr>kw_id = 9, kw_vault_id = 77, kw_account_id = 1, kw_key_id = ''k'', kw_crypto_version = ''v'',
       kw_nonce = [], kw_ciphertext = []\<rparr>]\<rparr>"


end
