(* ===== verification/PV_Maintenance.thy ===== *)
theory PV_Maintenance
  imports PV_Register
begin

text \<open>
  \<^verbatim>\<open>crates/api/src/maintenance.rs\<close> and the \<^verbatim>\<open>cleanup-synthetic\<close> command of
  \<^verbatim>\<open>main.rs\<close>: old accounts of synthetic traffic are counted, and with \<^verbatim>\<open>--confirm\<close>
  deleted with everything that hangs on them. The process environment is the function that gives a
  variable's value where it is set and valid UTF-8 (\<open>env::var(name).ok()\<close>).
\<close>

section \<open>Options\<close>

type_synonym process_env = "string \<Rightarrow> string option"

definition DEFAULT_SYNTHETIC_CLEANUP_PREFIX :: string where
  "DEFAULT_SYNTHETIC_CLEANUP_PREFIX = ''synthetic''"

definition DEFAULT_SYNTHETIC_CLEANUP_DOMAIN :: string where
  "DEFAULT_SYNTHETIC_CLEANUP_DOMAIN = ''loadtest.invalid''"

definition DEFAULT_SYNTHETIC_CLEANUP_MIN_AGE_HOURS :: int where
  "DEFAULT_SYNTHETIC_CLEANUP_MIN_AGE_HOURS = 24"

definition DEFAULT_SYNTHETIC_CLEANUP_MAX_DELETE :: int where
  "DEFAULT_SYNTHETIC_CLEANUP_MAX_DELETE = 100"

record cleanup_options =
  co_prefix :: string
  co_domain :: string
  co_cutoff :: time
  co_dry_run :: bool
  co_max_delete :: int

record cleanup_report =
  cp_matched :: nat
  cp_deleted :: nat
  cp_dry_run :: bool
  cp_max_delete :: int

text \<open>\<open>CutoffPanic\<close> is the panic of the time crate when the cutoff leaves its range, which begins at
  the year -9999.\<close>

datatype cleanup_error = InvalidConfig string | Database sql_error | CutoffPanic

fun cleanup_error_text :: "cleanup_error \<Rightarrow> string option" where
  "cleanup_error_text (InvalidConfig message) = Some message"
| "cleanup_error_text (Database _) = Some ''synthetic cleanup database operation failed''"
| "cleanup_error_text CutoffPanic = None"

definition MIN_DATE_TIME :: time where
  "MIN_DATE_TIME = seconds (- 377705116800)"

text \<open>The character class of both labels: ASCII lower case, digits, full stop and hyphen.\<close>

definition safe_label_char :: "char \<Rightarrow> bool" where
  "safe_label_char c \<longleftrightarrow> is_ascii_lowercase c \<or> is_ascii_digit c \<or> c = CHR ''.'' \<or> c = CHR ''-''"

definition validate_prefix :: "string \<Rightarrow> cleanup_error + unit" where
  "validate_prefix value =
     (if value = [] \<or> length value > 32 \<or> \<not> list_all safe_label_char value
      then Inl (InvalidConfig ''synthetic cleanup prefix must be a lowercase safe label'')
      else Inr ())"

definition validate_domain :: "string \<Rightarrow> cleanup_error + unit" where
  "validate_domain value =
     (if value = [] \<or> length value > 80 \<or> \<not> ends_with value ''.invalid'' \<or> starts_with value ''.''
         \<or> contains_str value ''..'' \<or> \<not> list_all safe_label_char value
      then Inl (InvalidConfig ''synthetic cleanup domain must be a safe .invalid domain'')
      else Inr ())"

definition new_options ::
  "string \<Rightarrow> string \<Rightarrow> int \<Rightarrow> bool \<Rightarrow> int \<Rightarrow> time \<Rightarrow> cleanup_error + cleanup_options" where
  "new_options prefix domain min_age_hours dry_run max_delete now =
     and_then (validate_prefix prefix) (\<lambda>_.
     and_then (validate_domain domain) (\<lambda>_.
     if min_age_hours < 1
     then Inl (InvalidConfig ''synthetic cleanup min age must be at least 1 hour'')
     else if max_delete < 1
     then Inl (InvalidConfig ''synthetic cleanup max delete must be at least 1'')
     else if now - hours min_age_hours < MIN_DATE_TIME then Inl CutoffPanic
     else Inr \<lparr>co_prefix = prefix, co_domain = domain, co_cutoff = now - hours min_age_hours,
            co_dry_run = dry_run, co_max_delete = max_delete\<rparr>))"

text \<open>\<open>str::to_lowercase\<close> where it can yield a safe label: besides the ASCII letters only the Kelvin
  sign has an ASCII lower-case form. Every other character is left alone here, and the validation
  refuses it as it refuses its lower-case form.\<close>

definition kelvin_sign :: string where
  "kelvin_sign = map char_of [226, 132, 170 :: nat]"

fun to_lowercase :: "string \<Rightarrow> string" where
  "to_lowercase (a # b # c # s) =
     (if [a, b, c] = kelvin_sign then CHR ''k'' # to_lowercase s else lower_char a # to_lowercase (b # c # s))"
| "to_lowercase s = map lower_char s"

text \<open>\<open>str::parse::<i64>\<close>: an optional sign and at least one digit, within the range.\<close>

definition parse_digits :: "string \<Rightarrow> int option" where
  "parse_digits s = (if s \<noteq> [] \<and> list_all is_ascii_digit s then Some (int (dec_val s)) else None)"

definition parse_i64 :: "string \<Rightarrow> int option" where
  "parse_i64 s =
     (case (case s of
         c # t \<Rightarrow> (if c = CHR ''-'' then map_option uminus (parse_digits t)
                  else if c = CHR ''+'' then parse_digits t else parse_digits s)
       | [] \<Rightarrow> None) of
        None \<Rightarrow> None
      | Some n \<Rightarrow> if i64_range n then Some n else None)"

definition parse_i64_env :: "process_env \<Rightarrow> string \<Rightarrow> int \<Rightarrow> cleanup_error + int" where
  "parse_i64_env getenv name default_value =
     (case getenv name of
        Some value \<Rightarrow>
          if trim value \<noteq> []
          then ok_or (InvalidConfig ''synthetic cleanup env value must be an integer'') (parse_i64 (trim value))
          else Inr default_value
      | None \<Rightarrow> Inr default_value)"

definition label_env :: "process_env \<Rightarrow> string \<Rightarrow> string \<Rightarrow> string" where
  "label_env getenv name default_value =
     to_lowercase (trim (case getenv name of
        Some value \<Rightarrow> if trim value \<noteq> [] then value else default_value
      | None \<Rightarrow> default_value))"

definition options_from_env :: "process_env \<Rightarrow> bool \<Rightarrow> time \<Rightarrow> cleanup_error + cleanup_options" where
  "options_from_env getenv dry_run now =
     (let prefix = label_env getenv ''PV_SYNTHETIC_CLEANUP_PREFIX'' DEFAULT_SYNTHETIC_CLEANUP_PREFIX;
          domain = label_env getenv ''PV_SYNTHETIC_CLEANUP_DOMAIN'' DEFAULT_SYNTHETIC_CLEANUP_DOMAIN in
      and_then (parse_i64_env getenv ''PV_SYNTHETIC_CLEANUP_MIN_AGE_HOURS''
        DEFAULT_SYNTHETIC_CLEANUP_MIN_AGE_HOURS) (\<lambda>min_age_hours.
      and_then (parse_i64_env getenv ''PV_SYNTHETIC_CLEANUP_MAX_DELETE''
        DEFAULT_SYNTHETIC_CLEANUP_MAX_DELETE) (\<lambda>max_delete.
      new_options prefix domain min_age_hours dry_run max_delete now)))"

definition postgres_regex_literal :: "string \<Rightarrow> string" where
  "postgres_regex_literal value = replace_char (CHR ''.'') [CHR 0x5C, CHR ''.''] value"

definition regex_pattern :: "cleanup_options \<Rightarrow> string" where
  "regex_pattern opts =
     ''^'' @ postgres_regex_literal (co_prefix opts) @ ''-[a-z0-9._-]+@''
       @ postgres_regex_literal (co_domain opts) @ ''$''"

section \<open>Deleting accounts\<close>

text \<open>\<open>DELETE FROM accounts\<close> with the referential actions of the schema: everything that belongs to a
  deleted account goes with it, except the audit events, which lose their account.\<close>

definition delete_accounts :: "uuid list \<Rightarrow> db \<Rightarrow> db" where
  "delete_accounts gone d =
     (let vs = map va_id (filter (\<lambda>v. va_account_id v \<in> set gone) (vaults d));
          is = map (\<lambda>i. (it_vault_id i, it_id i)) (filter (\<lambda>i. it_vault_id i \<in> set vs) (vault_items d)) in
      d\<lparr>accounts := delete_where (\<lambda>r. acc_id r \<in> set gone) (accounts d),
        devices := delete_where (\<lambda>r. dev_account_id r \<in> set gone) (devices d),
        auth_challenges := delete_where (\<lambda>r. \<not> opt_all (\<lambda>a. a \<notin> set gone) (ch_account_id r)) (auth_challenges d),
        totp_factors := delete_where (\<lambda>r. tf_account_id r \<in> set gone) (totp_factors d),
        recovery_codes := delete_where (\<lambda>r. rc_account_id r \<in> set gone) (recovery_codes d),
        sessions := delete_where (\<lambda>r. se_account_id r \<in> set gone) (sessions d),
        account_keysets := delete_where (\<lambda>r. ks_account_id r \<in> set gone) (account_keysets d),
        vaults := delete_where (\<lambda>r. va_account_id r \<in> set gone) (vaults d),
        vault_key_wraps := delete_where (\<lambda>r. kw_account_id r \<in> set gone) (vault_key_wraps d),
        vault_items := delete_where (\<lambda>r. it_vault_id r \<in> set vs) (vault_items d),
        vault_item_revisions :=
          delete_where (\<lambda>r. (rv_vault_id r, rv_item_id r) \<in> set is) (vault_item_revisions d),
        audit_events := update_where (\<lambda>r. \<not> opt_all (\<lambda>a. a \<notin> set gone) (au_account_id r))
          (\<lambda>r. r\<lparr>au_account_id := None\<rparr>) (audit_events d)\<rparr>)"

definition cleanup_matches :: "externals \<Rightarrow> string \<Rightarrow> time \<Rightarrow> account_row \<Rightarrow> bool" where
  "cleanup_matches X pattern cutoff a \<longleftrightarrow>
     pg_regex_match X (acc_login_handle_normalized a) pattern \<and> acc_created_at a < cutoff"

text \<open>\<open>ORDER BY created_at ASC LIMIT n\<close>; rows of equal age come in table order.\<close>

definition cleanup_candidates :: "externals \<Rightarrow> string \<Rightarrow> time \<Rightarrow> nat \<Rightarrow> db \<Rightarrow> account_row list" where
  "cleanup_candidates X pattern cutoff limit d =
     take limit (sort_key acc_created_at (filter (cleanup_matches X pattern cutoff) (accounts d)))"

definition delete_candidates :: "externals \<Rightarrow> string \<Rightarrow> time \<Rightarrow> nat \<Rightarrow> nat stmt" where
  "delete_candidates X pattern cutoff limit = (\<lambda>t d.
     let ids = map acc_id (cleanup_candidates X pattern cutoff limit d) in
     Inr (length ids, delete_accounts ids d))"

definition cleanup_synthetic_accounts :: "cleanup_options \<Rightarrow> (cleanup_error, cleanup_report) io" where
  "cleanup_synthetic_accounts opts =
     try_io ask (\<lambda>e.
     let pattern = regex_pattern opts in
     try_io (map_err_io Database (run_pool (query (\<lambda>d.
       count_where (cleanup_matches (ext e) pattern (co_cutoff opts)) (accounts d))))) (\<lambda>matched.
     if co_dry_run opts
     then ret \<lparr>cp_matched = matched, cp_deleted = 0, cp_dry_run = True, cp_max_delete = co_max_delete opts\<rparr>
     else
       try_io (map_err_io Database (run_pool (delete_candidates (ext e) pattern (co_cutoff opts)
         (nat (co_max_delete opts))))) (\<lambda>deleted.
       ret \<lparr>cp_matched = matched, cp_deleted = deleted, cp_dry_run = False, cp_max_delete = co_max_delete opts\<rparr>)))"

section \<open>The command\<close>

datatype command_error = UnknownArgument string | DatabaseUrlRequired | Cleanup cleanup_error | ConnectFailed

fun cleanup_confirm :: "bool \<Rightarrow> string list \<Rightarrow> command_error + bool" where
  "cleanup_confirm confirm [] = Inr confirm"
| "cleanup_confirm confirm (arg # args) =
     (if arg = ''--confirm'' then cleanup_confirm True args
      else if arg = ''--dry-run'' then cleanup_confirm False args
      else Inl (UnknownArgument arg))"

definition required_database_url :: "process_env \<Rightarrow> command_error + string" where
  "required_database_url getenv =
     and_then (ok_or DatabaseUrlRequired (getenv ''PV_DATABASE_URL'')) (\<lambda>url.
     if trim url = [] then Inl DatabaseUrlRequired else Inr (trim url))"

text \<open>Opening the pool reads nothing; it fails or succeeds like a statement without effect. The clock
  is read with its full resolution.\<close>

definition now_utc :: "('e, time) io" where
  "now_utc = (\<lambda>e w. (Inr (clock e (w_tick w)), w\<lparr>w_tick := w_tick w + 1\<rparr>))"

definition run_synthetic_cleanup :: "process_env \<Rightarrow> string list \<Rightarrow> (command_error, cleanup_report) io" where
  "run_synthetic_cleanup getenv args =
     try_io (lift (cleanup_confirm False args)) (\<lambda>confirm.
     try_io (lift (required_database_url getenv)) (\<lambda>_.
     try_io now_utc (\<lambda>now.
     try_io (lift (map_err Cleanup (options_from_env getenv (\<not> confirm) now))) (\<lambda>opts.
     try_io (map_err_io (\<lambda>_. ConnectFailed) (run_pool (query (\<lambda>_. ())))) (\<lambda>_.
     map_err_io Cleanup (cleanup_synthetic_accounts opts))))))"

section \<open>What the validation guarantees\<close>

lemma ends_with_iff: "ends_with s p \<longleftrightarrow> (\<exists>q. s = q @ p)"
proof -
  have "ends_with s p \<longleftrightarrow> (\<exists>r. rev s = rev p @ r)"
    by (auto simp: ends_with_def strip_prefix_Some_iff)
  also have "\<dots> \<longleftrightarrow> (\<exists>q. s = q @ p)"
    by (metis rev_append rev_rev_ident)
  finally show ?thesis .
qed

lemma hours_mono: "1 \<le> n \<Longrightarrow> hours 1 \<le> hours n"
  by (simp add: hours_def minutes_def seconds_def)

lemma new_options_Inr:
  assumes "new_options prefix domain min_age dry_run max_delete now = Inr opts"
  shows "co_prefix opts = prefix \<and> co_domain opts = domain \<and> co_dry_run opts = dry_run
    \<and> co_max_delete opts = max_delete \<and> 1 \<le> max_delete \<and> co_cutoff opts \<le> now - hours 1
    \<and> list_all safe_label_char prefix \<and> list_all safe_label_char domain \<and> (\<exists>q. domain = q @ ''.invalid'')"
  using assms
  by (auto simp: new_options_def validate_prefix_def validate_domain_def and_then_Inr_iff ends_with_iff
      intro!: hours_mono split: if_splits)

lemma options_from_env_Inr:
  assumes "options_from_env getenv dry_run now = Inr opts"
  shows "co_prefix opts = label_env getenv ''PV_SYNTHETIC_CLEANUP_PREFIX'' DEFAULT_SYNTHETIC_CLEANUP_PREFIX
    \<and> co_domain opts = label_env getenv ''PV_SYNTHETIC_CLEANUP_DOMAIN'' DEFAULT_SYNTHETIC_CLEANUP_DOMAIN
    \<and> co_dry_run opts = dry_run \<and> 1 \<le> co_max_delete opts \<and> co_cutoff opts \<le> now - hours 1
    \<and> list_all safe_label_char (co_prefix opts) \<and> list_all safe_label_char (co_domain opts)
    \<and> (\<exists>q. co_domain opts = q @ ''.invalid'')"
  using assms by (auto simp: options_from_env_def Let_def and_then_Inr_iff dest!: new_options_Inr)

section \<open>What a cleanup deletes\<close>

text \<open>A synthetic handle: the prefix, a hyphen, a label, and the reserved domain.\<close>

definition local_char :: "char \<Rightarrow> bool" where
  "local_char c \<longleftrightarrow> safe_label_char c \<or> c = CHR ''_''"

definition synthetic_handle :: "string \<Rightarrow> string \<Rightarrow> string \<Rightarrow> bool" where
  "synthetic_handle prefix domain s \<longleftrightarrow>
     (case strip_prefix (prefix @ ''-'') s of
        None \<Rightarrow> False
      | Some r \<Rightarrow> ends_with r (''@'' @ domain)
          \<and> (let local = take (length r - length (''@'' @ domain)) r in local \<noteq> [] \<and> list_all local_char local))"

text \<open>Documented behaviour of PostgreSQL for a pattern of this form: it matches the handles of that form,
  and only those.\<close>

definition regex_documented :: "externals \<Rightarrow> cleanup_options \<Rightarrow> bool" where
  "regex_documented X opts \<longleftrightarrow>
     (\<forall>s. pg_regex_match X s (regex_pattern opts) = synthetic_handle (co_prefix opts) (co_domain opts) s)"

lemma sort_key_take_le:
  assumes "x \<in> set (take n (sort_key f xs))" and "y \<in> set (drop n (sort_key f xs))"
  shows "f x \<le> f y"
proof -
  have "sorted (map f (take n (sort_key f xs) @ drop n (sort_key f xs)))" by (simp only: append_take_drop_id sorted_sort_key)
  with assms show ?thesis unfolding map_append sorted_append by auto
qed

definition cleaned :: "externals \<Rightarrow> cleanup_options \<Rightarrow> db \<Rightarrow> db \<Rightarrow> account_row list \<Rightarrow> bool" where
  "cleaned X opts d d' gone \<longleftrightarrow> d' = delete_accounts (map acc_id gone) d
     \<and> gone = cleanup_candidates X (regex_pattern opts) (co_cutoff opts) (nat (co_max_delete opts)) d"

lemma vc_pool_stmt:
  assumes "\<And>t a w'. q t (w_db w) = Inr (a, w_db w') \<Longrightarrow> w_txn w' = w_txn w \<Longrightarrow> Q a w'"
    and "\<And>x w'. same_state w w' \<Longrightarrow> R x w'"
    and "\<And>t a x w'. q t (w_db w) = Inr (a, w_db w') \<Longrightarrow> R x w'"
  shows "wp e (run_pool q) Q R w"
  using assms by (auto simp: wp_eqs Let_def same_state_def split: sum.splits)

lemma wp_cleanup_synthetic:
  "wp e (cleanup_synthetic_accounts opts)
     (\<lambda>r w'. cp_dry_run r = co_dry_run opts \<and> cp_max_delete r = co_max_delete opts
        \<and> cp_matched r = count_where (cleanup_matches (ext e) (regex_pattern opts) (co_cutoff opts)) (accounts (w_db w))
        \<and> (if co_dry_run opts then w_db w' = w_db w \<and> cp_deleted r = 0
           else \<exists>gone. cleaned (ext e) opts (w_db w) (w_db w') gone \<and> cp_deleted r = length gone))
     (\<lambda>_ w'. w_db w' = w_db w \<or> \<not> co_dry_run opts \<and> (\<exists>gone. cleaned (ext e) opts (w_db w) (w_db w') gone)) w"
  unfolding cleanup_synthetic_accounts_def Let_def
  by (intro vc_rules vc_pool_stmt)
    (auto simp: same_state_def cleaned_def delete_candidates_def Let_def)

lemma wp_now_utc [wp_eqs]: "wp e now_utc Q R w = Q (clock e (w_tick w)) (w\<lparr>w_tick := w_tick w + 1\<rparr>)"
  by (simp add: wp_def now_utc_def)

lemma vc_now_utc: "(\<And>t w'. same_state w w' \<Longrightarrow> Q t w') \<Longrightarrow> wp e now_utc Q R w"
  by (simp add: wp_def now_utc_def same_state_def)

lemma wp_run_cleanup:
  "wp e (run_synthetic_cleanup getenv args)
     (\<lambda>r w'. (\<exists>opts now. options_from_env getenv (cleanup_confirm False args \<noteq> Inr True) now = Inr opts
        \<and> cp_dry_run r = co_dry_run opts
        \<and> (if co_dry_run opts then w_db w' = w_db w \<and> cp_deleted r = 0
           else \<exists>gone. cleaned (ext e) opts (w_db w) (w_db w') gone \<and> cp_deleted r = length gone)))
     (\<lambda>_ w'. w_db w' = w_db w \<or> (\<exists>opts now gone. options_from_env getenv (cleanup_confirm False args \<noteq> Inr True) now = Inr opts
        \<and> \<not> co_dry_run opts \<and> cleaned (ext e) opts (w_db w) (w_db w') gone)) w"
  unfolding run_synthetic_cleanup_def
  apply (intro vc_rules vc_now_utc wp_mono [OF wp_cleanup_synthetic])
  apply (auto simp: same_state_def)
  done

lemma cleanup_confirmed: "cleanup_confirm c args = Inr True \<Longrightarrow> c \<or> ''--confirm'' \<in> set args"
  by (induction c args rule: cleanup_confirm.induct) (auto split: if_splits)

lemma synthetic_handle_parts:
  assumes "synthetic_handle prefix domain s"
  shows "\<exists>local. s = prefix @ ''-'' @ local @ ''@'' @ domain \<and> local \<noteq> [] \<and> list_all local_char local"
proof -
  from assms obtain r where r: "s = (prefix @ ''-'') @ r" "ends_with r (''@'' @ domain)"
    "take (length r - length (''@'' @ domain)) r \<noteq> []"
    "list_all local_char (take (length r - length (''@'' @ domain)) r)"
    by (auto simp: synthetic_handle_def Let_def strip_prefix_Some_iff split: option.splits)
  from r(2) obtain q where "r = q @ ''@'' @ domain" unfolding ends_with_iff by blast
  with r show ?thesis by (intro exI [of _ q]) simp
qed

lemma cleaned_scope:
  assumes "cleaned X opts d d' gone"
  shows "length gone \<le> nat (co_max_delete opts)
    \<and> accounts d' = filter (\<lambda>a. acc_id a \<notin> acc_id ` set gone) (accounts d)
    \<and> (\<forall>a \<in> set gone. a \<in> set (accounts d) \<and> cleanup_matches X (regex_pattern opts) (co_cutoff opts) a)
    \<and> (\<forall>a \<in> set gone. \<forall>b \<in> set (accounts d'). cleanup_matches X (regex_pattern opts) (co_cutoff opts) b
          \<longrightarrow> acc_created_at a \<le> acc_created_at b)"
proof -
  let ?P = "cleanup_matches X (regex_pattern opts) (co_cutoff opts)" and ?n = "nat (co_max_delete opts)"
  let ?all = "sort_key acc_created_at (filter ?P (accounts d))"
  have gone: "gone = take ?n ?all" and d': "d' = delete_accounts (map acc_id gone) d"
    using assms by (simp_all add: cleaned_def cleanup_candidates_def)
  have accs: "accounts d' = filter (\<lambda>a. acc_id a \<notin> acc_id ` set gone) (accounts d)"
    by (simp add: d' delete_accounts_def Let_def delete_where_def)
  have order: "acc_created_at a \<le> acc_created_at b"
    if a: "a \<in> set gone" and b: "b \<in> set (accounts d')" "?P b" for a b
  proof -
    from b accs have "b \<in> set ?all" "b \<notin> set gone" by auto
    then have "b \<in> set (drop ?n ?all)" unfolding gone by (metis append_take_drop_id set_append UnE)
    with a sort_key_take_le show ?thesis unfolding gone by metis
  qed
  have len: "length gone \<le> ?n" unfolding gone by (simp del: length_sort)
  have "a \<in> set (accounts d) \<and> ?P a" if "a \<in> set gone" for a
  proof -
    from that have "a \<in> set ?all" unfolding gone by (rule in_set_takeD)
    then show ?thesis by simp
  qed
  with accs order len show ?thesis by blast
qed


definition cleanup_env :: process_env where
  "cleanup_env name = (if name = ''PV_DATABASE_URL'' then Some ''db'' else None)"

definition cleanup_world :: world where
  "cleanup_world = world_of (empty_db\<lparr>accounts :=
     [\<lparr>acc_id = 1, acc_login_handle_normalized = ''synthetic-a@loadtest.invalid'', acc_auth_protocol = [],
       acc_kdf_profile = JObj [], acc_account_salt = [], acc_auth_verifier_profile = [],
       acc_auth_verifier_salt = [], acc_auth_verifier_iterations = 0, acc_auth_stored_key = [],
       acc_auth_server_key = [], acc_created_at = 0\<rparr>]\<rparr>)"

definition cleanup_sample :: env where
  "cleanup_sample = sample_env\<lparr>clock := \<lambda>_. seconds 100000,
     ext := sample\<lparr>pg_regex_match := \<lambda>s p. synthetic_handle ''synthetic'' ''loadtest.invalid'' s\<rparr>\<rparr>"

lemma safe_lower: "safe_label_char c \<Longrightarrow> lower_char c = c"
  by (auto simp: safe_label_char_def is_ascii_lowercase_def is_ascii_digit_def lower_char_def)

lemma kelvin_unsafe: "\<not> safe_label_char (char_of (226 :: nat))"
  by code_simp

lemma to_lowercase_safe: "list_all safe_label_char s \<Longrightarrow> to_lowercase s = s"
  by (induction s rule: to_lowercase.induct) (auto simp: kelvin_sign_def safe_lower kelvin_unsafe)

lemma cleanup_strings:
  "list_all safe_label_char ''synthetic''" "list_all safe_label_char ''loadtest.invalid''"
  "trim ''synthetic'' = ''synthetic''" "trim ''loadtest.invalid'' = ''loadtest.invalid''" "trim ''db'' = ''db''"
  by (simp_all add: safe_label_char_def is_ascii_lowercase_def trim_visible visible_char_def)

lemmas cleanup_lower = cleanup_strings(1,2) [THEN to_lowercase_safe]

lemma cleanup_labels:
  "label_env cleanup_env ''PV_SYNTHETIC_CLEANUP_PREFIX'' DEFAULT_SYNTHETIC_CLEANUP_PREFIX = ''synthetic''"
  "label_env cleanup_env ''PV_SYNTHETIC_CLEANUP_DOMAIN'' DEFAULT_SYNTHETIC_CLEANUP_DOMAIN = ''loadtest.invalid''"
  by (simp_all add: label_env_def cleanup_env_def DEFAULT_SYNTHETIC_CLEANUP_PREFIX_def
      DEFAULT_SYNTHETIC_CLEANUP_DOMAIN_def cleanup_strings cleanup_lower del: to_lowercase.simps)

lemma cleanup_options:
  "options_from_env cleanup_env False (seconds 100000) = Inr \<lparr>co_prefix = ''synthetic'',
     co_domain = ''loadtest.invalid'', co_cutoff = seconds 13600, co_dry_run = False, co_max_delete = 100\<rparr>"
  by (simp add: options_from_env_def cleanup_labels Let_def parse_i64_env_def cleanup_env_def new_options_def
      validate_prefix_def validate_domain_def safe_label_char_def is_ascii_lowercase_def ends_with_def starts_with_def
      DEFAULT_SYNTHETIC_CLEANUP_MIN_AGE_HOURS_def DEFAULT_SYNTHETIC_CLEANUP_MAX_DELETE_def
      hours_def minutes_def seconds_def MIN_DATE_TIME_def)


end
