(* ===== verification/PV_System.thy ===== *)
theory PV_System
  imports PV_Login PV_Enroll PV_Sync PV_Maintenance
begin

text \<open>
  The service as a whole: the relation \<open>db_step\<close> holds the statements and commits with which the
  handlers move the database, every request is shown to move it by these steps only, whatever the
  faults, and the invariants of the tables follow by rule induction for every reachable state.
\<close>

section \<open>Steps of the database\<close>

inductive db_step :: "db \<Rightarrow> db \<Rightarrow> bool" where
  revoked: "mark_revoked i now d = Inr d' \<Longrightarrow> db_step d d'"
| active: "mark_active i now idle d = Inr d' \<Longrightarrow> db_step d d'"
| csrf_set: "set_csrf_hash i k d = Inr d' \<Longrightarrow> db_step d d'"
| logged_out: "db_step d (delete_session i d)"
| expired: "db_step d (drop_expired_challenges t d)"
| challenged: "insert_challenge (challenge_of input t) d = Inr d' \<Longrightarrow> db_step d d'"
| consumed: "db_step d (set_consumed i now d)"
| attempted: "count_attempt i now d = Inr d' \<Longrightarrow> db_step d d'"
| audited: "insert_audit au d = Inr d' \<Longrightarrow> db_step d d'"
| account_made: "new_account i h m s1 s2 k1 k2 t d = Inr d' \<Longrightarrow> db_step d d'"
| keyset_made: "new_keyset i a keyset d = Inr d' \<Longrightarrow> db_step d d'"
| device_made: "new_device i a device seen d = Inr d' \<Longrightarrow> db_step d d'"
| vault_opened: "new_vault i a (genesis_head_hash X i) t d = Inr d' \<Longrightarrow> db_step d d'"
| wrap_made: "new_key_wrap i a b key d = Inr d' \<Longrightarrow> db_step d d'"
| session_made: "new_session i a b token_hash state idle absolute seen d = Inr d' \<Longrightarrow> db_step d d'"
| code_used: "db_step d (mark_code_used a i now d)"
| factor_stepped: "db_step d (set_last_step i s d)"
| factors_removed: "db_step d (delete_factors a d)"
| pending_dropped: "db_step d (delete_pending_factor i a d)"
| factor_made: "insert_totp_factor (pending_factor i a c n) d = Inr d' \<Longrightarrow> db_step d d'"
| factor_verified: "db_step d (set_verified i now s d)"
| codes_forgotten: "db_step d (delete_recovery_codes a d)"
| code_made: "insert_recovery_code \<lparr>rc_id = i, rc_account_id = a, rc_code_salt = salt,
      rc_code_hash = recovery_code_hash X a salt code, rc_used_at = None\<rparr> d = Inr d' \<Longrightarrow> db_step d d'"
| session_upgraded: "upgrade_session i k now idle d = Inr d' \<Longrightarrow> db_step d d'"
| revision_appended: "vault_append a r d d' \<Longrightarrow> db_step d d'"

inductive_cases db_stepE: "db_step d d'"

text \<open>The step relation provides every interface that the handlers were proved against.\<close>

interpretation session_db: session_steps db_step
  by unfold_locales (fact db_step.intros)+

interpretation challenge_db: challenge_steps db_step
  by unfold_locales (fact db_step.intros)+

interpretation register_db: register_steps db_step
  by unfold_locales (fact db_step.intros)+

interpretation recovery_db: recovery_steps db_step
  by unfold_locales (fact db_step.intros)+

interpretation mfa_db: mfa_steps db_step
  by unfold_locales (fact db_step.intros)+

interpretation enroll_db: enroll_steps db_step
  by unfold_locales (fact db_step.intros)+

section \<open>The vault handlers\<close>

lemma session_refreshed_steps: "session_refreshed d d' \<Longrightarrow> db_step\<^sup>*\<^sup>* d d'"
  by (auto simp: session_refreshed_def session_checked_def intro: revoked active)

lemma handler_closes: "handler m e w = (r, w') \<Longrightarrow> w_txn w' = None"
  by (auto simp: handler_def split: prod.splits)

lemma moves_of_wp:
  assumes "\<And>w. w_txn w = None \<Longrightarrow> wp e (handler m) (\<lambda>_ w'. db_step\<^sup>*\<^sup>* (w_db w) (w_db w'))
      (\<lambda>_ w'. db_step\<^sup>*\<^sup>* (w_db w) (w_db w')) w"
  shows "moves db_step e (handler m)"
proof (rule movesI)
  fix w r w' assume w: "w_txn w = None" and run: "handler m e w = (r, w')"
  from wp_result [OF run assms [OF w]] handler_closes [OF run]
  show "db_step\<^sup>*\<^sup>* (w_db w) (w_db w') \<and> w_txn w' = None" by (cases r) simp_all
qed

lemma write_answer_steps:
  assumes "write_answer e h v row d d' resp"
  shows "db_step\<^sup>*\<^sup>* d d'"
proof -
  from assms obtain s :: session_row and d1 where "session_refreshed d d1"
    "vault_append (se_account_id s) (row (se_account_id s) d1) d1 d' \<or> d' = d1"
    unfolding write_answer_def vault_session_def write_accepted_def by blast
  then show ?thesis
    using session_refreshed_steps revision_appended by (metis rtranclp.rtrancl_into_rtrancl)
qed

lemma write_failure_steps:
  assumes "write_failure e h row d d'"
  shows "db_step\<^sup>*\<^sup>* d d'"
  using assms session_refreshed_steps revision_appended
  unfolding write_failure_def vault_session_def by (metis rtranclp.rtrancl_into_rtrancl)

lemma moves_create_item: "moves db_step e (create_item h v request)"
proof -
  have "wp e (create_item h v request) (\<lambda>_ w'. db_step\<^sup>*\<^sup>* (w_db w) (w_db w'))
      (\<lambda>_ w'. db_step\<^sup>*\<^sup>* (w_db w) (w_db w')) w" if "w_txn w = None" for w
    by (rule wp_mono [OF wp_create_item [OF that]])
      (auto intro: write_answer_steps write_failure_steps session_refreshed_steps)
  then show ?thesis unfolding create_item_def by (rule moves_of_wp)
qed

lemma moves_create_item_revision: "moves db_step e (create_item_revision h v i request)"
proof -
  have "wp e (create_item_revision h v i request) (\<lambda>_ w'. db_step\<^sup>*\<^sup>* (w_db w) (w_db w'))
      (\<lambda>_ w'. db_step\<^sup>*\<^sup>* (w_db w) (w_db w')) w" if "w_txn w = None" for w
    by (rule wp_mono [OF wp_create_item_revision [OF that]])
      (auto intro: write_answer_steps write_failure_steps session_refreshed_steps)
  then show ?thesis unfolding create_item_revision_def by (rule moves_of_wp)
qed

lemma moves_list_vaults: "moves db_step e (list_vaults h)"
proof -
  have "wp e (list_vaults h) (\<lambda>_ w'. db_step\<^sup>*\<^sup>* (w_db w) (w_db w'))
      (\<lambda>_ w'. db_step\<^sup>*\<^sup>* (w_db w) (w_db w')) w" for w
    by (rule wp_mono [OF wp_list_vaults]) (auto simp: vault_session_def intro: session_refreshed_steps)
  then show ?thesis unfolding list_vaults_def by (rule moves_of_wp)
qed

lemma moves_vault_session: "moves db_step e (require_vault_session h)"
  unfolding require_vault_session_def by (intro session_db.moves_session)

lemma moves_load_vault_head: "moves db_step e (load_vault_head a v)"
  unfolding load_vault_head_def by (intro moves_intros)

lemma moves_cursor: "moves db_step e (sync_cursor_matches v head n h)"
  unfolding sync_cursor_matches_def by (intro moves_intros)

lemma moves_sync_vault: "moves db_step e (sync_vault h v n hash)"
  unfolding sync_vault_def
  by (intro moves_intros moves_telemetry moves_vault_session moves_load_vault_head moves_cursor)

section \<open>Requests\<close>

text \<open>The routes: one constructor per method and path, with what the framework extracts from the
  request, and the handler behind it.\<close>

datatype api_call =
    RegisterStart string string
  | RegisterFinish register_finish_request
  | LoginStart login_start_request
  | LoginFinish headers login_finish_request
  | TotpVerify headers uuid string
  | RecoveryCodeVerify headers uuid string
  | Logout headers
  | TotpEnrollStart headers
  | TotpEnrollConfirm headers uuid string
  | CsrfToken headers
  | SessionStatus headers
  | ListVaults headers
  | SyncVault headers uuid int string
  | CreateItem headers uuid create_item_request
  | CreateItemRevision headers uuid uuid create_revision_request

datatype api_reply =
    RegisterStarted "register_start_response response"
  | RegisterFinished "register_finish_response response"
  | LoginStarted "login_start_response response"
  | LoginFinished "login_finish_response response"
  | TotpVerified "(string \<times> session_response) response"
  | RecoveryCodeVerified "(string \<times> session_response \<times> string) response"
  | LoggedOut "unit response"
  | TotpEnrollStarted "totp_enroll_start_response response"
  | TotpEnrollConfirmed "totp_enroll_confirm_response response"
  | CsrfTokenIssued "(string \<times> string) response"
  | SessionReported "session_body response"
  | VaultsListed "vault_response list response"
  | VaultSynced "sync_response response"
  | ItemCreated "write_response response"
  | ItemRevised "write_response response"

definition reply :: "('a \<Rightarrow> api_reply) \<Rightarrow> (api_error, 'a) io \<Rightarrow> (api_error, api_reply) io" where
  "reply f m = try_io m (\<lambda>a. ret (f a))"

fun serve :: "api_call \<Rightarrow> (api_error, api_reply) io" where
  "serve (RegisterStart h p) = reply RegisterStarted (register_start h p)"
| "serve (RegisterFinish r) = reply RegisterFinished (register_finish r)"
| "serve (LoginStart r) = reply LoginStarted (login_start r)"
| "serve (LoginFinish h r) = reply LoginFinished (login_finish h r)"
| "serve (TotpVerify h i c) = reply TotpVerified (totp_verify h i c)"
| "serve (RecoveryCodeVerify h i c) = reply RecoveryCodeVerified (recovery_code_verify h i c)"
| "serve (Logout h) = reply LoggedOut (logout h)"
| "serve (TotpEnrollStart h) = reply TotpEnrollStarted (totp_enroll_start h)"
| "serve (TotpEnrollConfirm h i c) = reply TotpEnrollConfirmed (totp_enroll_confirm h i c)"
| "serve (CsrfToken h) = reply CsrfTokenIssued (csrf_token h)"
| "serve (SessionStatus h) = reply SessionReported (session_status h)"
| "serve (ListVaults h) = reply VaultsListed (list_vaults h)"
| "serve (SyncVault h v n k) = reply VaultSynced (sync_vault h v n k)"
| "serve (CreateItem h v r) = reply ItemCreated (create_item h v r)"
| "serve (CreateItemRevision h v i r) = reply ItemRevised (create_item_revision h v i r)"

lemma moves_reply: "moves S e m \<Longrightarrow> moves S e (reply f m)"
  unfolding reply_def by (intro moves_try moves_ret)

lemmas moves_handlers =
  challenge_db.moves_register_start register_db.moves_register_finish register_db.moves_login_start
  register_db.moves_login_finish mfa_db.moves_totp_verify recovery_db.moves_recovery_code_verify
  session_db.moves_logout enroll_db.moves_totp_enroll_start enroll_db.moves_totp_enroll_confirm
  session_db.moves_csrf_token session_db.moves_session_status
  moves_list_vaults moves_sync_vault moves_create_item moves_create_item_revision

lemma moves_serve: "moves db_step e (serve c)"
  by (cases c) (simp_all add: moves_reply moves_handlers)

text \<open>A run of the service: requests one after the other, each with its own environment (clock,
  random source, faults, configuration). The command that cleans up synthetic accounts may run
  in between.\<close>

inductive service_step :: "world \<Rightarrow> world \<Rightarrow> bool" where
  request: "serve c e w = (r, w') \<Longrightarrow> service_step w w'"

inductive operation_step :: "world \<Rightarrow> world \<Rightarrow> bool" where
  served: "service_step w w' \<Longrightarrow> operation_step w w'"
| cleaned_up: "run_synthetic_cleanup getenv args e w = (r, w') \<Longrightarrow> operation_step w w'"

lemma service_step_moves:
  "service_step w w' \<Longrightarrow> w_txn w = None \<Longrightarrow> db_step\<^sup>*\<^sup>* (w_db w) (w_db w') \<and> w_txn w' = None"
  by (induction rule: service_step.induct) (auto dest: movesD [OF moves_serve])

lemma service_run_moves:
  "service_step\<^sup>*\<^sup>* w w' \<Longrightarrow> w_txn w = None \<Longrightarrow> db_step\<^sup>*\<^sup>* (w_db w) (w_db w') \<and> w_txn w' = None"
proof (induction rule: rtranclp_induct)
  case (step v u)
  with service_step_moves [OF step(2)] show ?case by (metis rtranclp_trans)
qed simp

section \<open>The vault log along the steps\<close>

lemma constrained_tables:
  "update_sessions P f d = Inr d' \<Longrightarrow> d' = d\<lparr>sessions := sessions d'\<rparr>"
  by (auto simp: update_sessions_def Let_def)

lemmas row_inserts =
  insert_account_def insert_device_def insert_challenge_def insert_totp_factor_def insert_recovery_code_def
  insert_session_def insert_keyset_def insert_key_wrap_def insert_audit_def

lemmas statement_defs =
  mark_revoked_def mark_active_def set_csrf_hash_def upgrade_session_def update_sessions_def Let_def delete_session_def
  drop_expired_challenges_def set_consumed_def mark_code_used_def set_last_step_def delete_factors_def
  delete_pending_factor_def set_verified_def delete_recovery_codes_def
  new_account_def new_keyset_def new_device_def new_key_wrap_def new_session_def row_inserts

lemma count_attempt_tables:
  "count_attempt i now d = Inr d' \<Longrightarrow> d' = d\<lparr>auth_challenges := auth_challenges d'\<rparr>"
  by (auto simp: count_attempt_def split: if_splits)

text \<open>Every step is an accepted write, a new vault, or leaves the vault tables alone.\<close>

lemma db_step_vaults:
  assumes "db_step d d'"
  shows "same_vaults d d' \<or> (\<exists>a r. vault_append a r d d') \<or> (\<exists>i a g t. new_vault i a g t d = Inr d')"
  using assms
proof cases
  case (attempted i now)
  then show ?thesis by (auto simp: same_vaults_def count_attempt_def split: if_splits)
qed (auto simp: same_vaults_def statement_defs simp del: session_row.simps)

lemma db_step_vaults_ok: "db_step d d' \<Longrightarrow> vaults_ok d \<Longrightarrow> vaults_ok d'"
  using db_step_vaults same_vaults_ok vault_append_ok new_vault_ok by metis

lemma db_step_ledgers: "db_step d d' \<Longrightarrow> vaults_ok d \<Longrightarrow> ledger_step\<^sup>*\<^sup>* (ledgers_of d) (ledgers_of d')"
  using db_step_vaults same_vaults_ledgers append_refines open_refines by (metis r_into_rtranclp rtranclp.rtrancl_refl)

lemma db_steps_ledgers:
  "db_step\<^sup>*\<^sup>* d d' \<Longrightarrow> vaults_ok d \<Longrightarrow> vaults_ok d' \<and> ledger_step\<^sup>*\<^sup>* (ledgers_of d) (ledgers_of d')"
proof (induction rule: rtranclp_induct)
  case (step u v)
  then show ?case using db_step_vaults_ok db_step_ledgers by (meson rtranclp_trans)
qed simp

lemma db_step_ledger: "db_step d d' \<Longrightarrow> (\<exists>r. vault_appended v r d d') \<or> elsewhere v d d'"
  using db_step_vaults unfolding elsewhere_def vault_appended_def by metis

lemma db_steps_ledger:
  "db_step\<^sup>*\<^sup>* d d' \<Longrightarrow> (\<lambda>d d'. (\<exists>r. vault_appended v r d d') \<or> elsewhere v d d')\<^sup>*\<^sup>* d d'"
  by (rule rtranclp_mono [THEN predicate2D, rotated]) (auto dest: db_step_ledger)

section \<open>The other tables along the steps\<close>

definition sessions_ok :: "db \<Rightarrow> bool" where
  "sessions_ok d \<longleftrightarrow> unique_tokens d \<and> distinct (map se_id (sessions d)) \<and> list_all session_checks (sessions d)"

text \<open>A challenge whose attempts are used up is closed.\<close>

definition attempts_ok :: "challenge_row \<Rightarrow> bool" where
  "attempts_ok c \<longleftrightarrow> 0 \<le> ch_attempts c \<and> (MFA_CHALLENGE_MAX_ATTEMPTS \<le> ch_attempts c \<longrightarrow> ch_consumed_at c \<noteq> None)"

definition challenges_ok :: "db \<Rightarrow> bool" where
  "challenges_ok d \<longleftrightarrow> distinct (map ch_id (auth_challenges d)) \<and> list_all attempts_ok (auth_challenges d)"

text \<open>Well-typed accounts, one per handle, at most one authenticator per account, no recovery code twice.\<close>

definition keys_ok :: "db \<Rightarrow> bool" where
  "keys_ok d \<longleftrightarrow> distinct (map acc_id (accounts d)) \<and> distinct (map acc_login_handle_normalized (accounts d))
     \<and> list_all account_checks (accounts d)
     \<and> distinct (map tf_account_id (totp_factors d)) \<and> distinct (map rc_id (recovery_codes d))"

text \<open>Everything belongs to an account that exists.\<close>

definition refs_ok :: "db \<Rightarrow> bool" where
  "refs_ok d \<longleftrightarrow> set (map se_account_id (sessions d)) \<union> set (map tf_account_id (totp_factors d))
     \<union> set (map rc_account_id (recovery_codes d)) \<union> set (map va_account_id (vaults d)) \<subseteq> acc_id ` set (accounts d)"

definition rest_ok :: "db \<Rightarrow> bool" where
  "rest_ok d \<longleftrightarrow> challenges_ok d \<and> keys_ok d \<and> refs_ok d"

lemma append_other_tables:
  assumes "vault_append a r d d'"
  shows "sessions d' = sessions d \<and> auth_challenges d' = auth_challenges d \<and> accounts d' = accounts d
    \<and> totp_factors d' = totp_factors d \<and> recovery_codes d' = recovery_codes d
    \<and> map va_account_id (vaults d') = map va_account_id (vaults d)"
proof (rule vault_append_tables [OF assms])
  fix now assume "vaults d' = written_vaults a r now (vaults d)"
  then have "map va_account_id (vaults d') = map va_account_id (vaults d)"
    by (simp add: written_vaults_def map_update_where)
  moreover assume "sessions d' = sessions d" "auth_challenges d' = auth_challenges d" "accounts d' = accounts d"
    "totp_factors d' = totp_factors d" "recovery_codes d' = recovery_codes d"
  ultimately show ?thesis by simp
qed

lemma open_other_tables:
  "new_vault i a g t d = Inr d' \<Longrightarrow> sessions d' = sessions d \<and> auth_challenges d' = auth_challenges d
     \<and> accounts d' = accounts d \<and> totp_factors d' = totp_factors d \<and> recovery_codes d' = recovery_codes d"
  by (erule new_vault_tables) simp

lemma attempt_other_tables:
  "count_attempt i now d = Inr d' \<Longrightarrow> sessions d' = sessions d \<and> vaults d' = vaults d
     \<and> accounts d' = accounts d \<and> totp_factors d' = totp_factors d \<and> recovery_codes d' = recovery_codes d"
  by (drule count_attempt_tables) (metis db.select_convs(1,4,5,6,8) db.surjective db.update_convs(3))

lemma insert_frames:
  "insert_account ra d = Inr d' \<Longrightarrow> d' = d\<lparr>accounts := accounts d @ [ra]\<rparr>"
  "insert_device rd d = Inr d' \<Longrightarrow> d' = d\<lparr>devices := devices d @ [rd]\<rparr>"
  "insert_challenge rc d = Inr d' \<Longrightarrow> d' = d\<lparr>auth_challenges := auth_challenges d @ [rc]\<rparr>"
  "insert_totp_factor rf d = Inr d' \<Longrightarrow> d' = d\<lparr>totp_factors := totp_factors d @ [rf]\<rparr>"
  "insert_recovery_code rr d = Inr d' \<Longrightarrow> d' = d\<lparr>recovery_codes := recovery_codes d @ [rr]\<rparr>"
  "insert_session rs d = Inr d' \<Longrightarrow> d' = d\<lparr>sessions := sessions d @ [rs]\<rparr>"
  "insert_keyset rk d = Inr d' \<Longrightarrow> d' = d\<lparr>account_keysets := account_keysets d @ [rk]\<rparr>"
  "insert_key_wrap rw d = Inr d' \<Longrightarrow> d' = d\<lparr>vault_key_wraps := vault_key_wraps d @ [rw]\<rparr>"
  "insert_audit ru d = Inr d' \<Longrightarrow> d' = d\<lparr>audit_events := audit_events d @ [ru]\<rparr>"
  unfolding row_inserts constrained_Inr_iff by simp_all

lemmas new_rows = new_account_def new_keyset_def new_device_def new_key_wrap_def new_session_def

lemmas plain_updates =
  delete_session_def drop_expired_challenges_def set_consumed_def mark_code_used_def set_last_step_def
  delete_factors_def delete_pending_factor_def set_verified_def delete_recovery_codes_def

lemma list_all_update_where:
  "list_all Q (update_where P f xs) \<longleftrightarrow> list_all (\<lambda>r. if P r then Q (f r) else Q r) xs"
  by (induction xs) (auto simp: update_where_def)

lemma update_sessions_ok:
  assumes "update_sessions P f d = Inr d'" and "\<And>s. se_id (f s) = se_id s" and "sessions_ok d"
  shows "sessions_ok d'"
proof -
  from assms(1) have checked: "list_all (\<lambda>r. P r \<longrightarrow> session_checks (f r)) (sessions d)"
    and unique: "distinct (map se_session_token_hash (update_where P f (sessions d)))"
    and d': "sessions d' = update_where P f (sessions d)"
    unfolding update_sessions_def Let_def constrained_Inr_iff by auto
  have "list_all session_checks (sessions d)" using assms(3) by (simp add: sessions_ok_def)
  with checked have "list_all (\<lambda>r. if P r then session_checks (f r) else session_checks r) (sessions d)"
    by (simp add: list_all_iff)
  moreover have "map se_id (update_where P f (sessions d)) = map se_id (sessions d)"
    by (rule map_update_where) (rule assms(2))
  ultimately show ?thesis
    using unique assms(3) by (simp add: sessions_ok_def unique_tokens_def d' list_all_update_where)
qed

lemma insert_session_ok: "insert_session r d = Inr d' \<Longrightarrow> sessions_ok d \<Longrightarrow> sessions_ok d'"
  unfolding insert_session_def constrained_Inr_iff sessions_ok_def unique_tokens_def by auto

lemma same_sessions_ok: "sessions d' = sessions d \<Longrightarrow> sessions_ok d' = sessions_ok d"
  by (simp add: sessions_ok_def unique_tokens_def)

lemma delete_session_ok: "sessions_ok d \<Longrightarrow> sessions_ok (delete_session i d)"
  by (auto simp: sessions_ok_def unique_tokens_def delete_session_def delete_where_def list_all_iff
      intro: distinct_map_filter)

lemma sessions_updated:
  "update_sessions P f d = Inr d' \<Longrightarrow> (\<And>s. se_id (f s) = se_id s) \<Longrightarrow>
     \<exists>P f. (\<forall>s. se_id (f s) = se_id s) \<and> update_sessions P f d = Inr d'"
  by blast

text \<open>What a step can do to the tables of sessions, challenges, factors, codes and accounts.\<close>

lemma db_step_sessions:
  assumes "db_step d d'"
  shows "sessions d' = sessions d \<or> (\<exists>P f. (\<forall>s. se_id (f s) = se_id s) \<and> update_sessions P f d = Inr d')
    \<or> (\<exists>i. d' = delete_session i d) \<or> (\<exists>s. insert_session s d = Inr d')"
  using assms
proof cases
  case (challenged input t)
  show ?thesis using insert_frames(3) [OF challenged] by simp
next
  case (audited au)
  show ?thesis using insert_frames(9) [OF audited] by simp
next
  case account_made
  show ?thesis using insert_frames(1) [OF account_made [unfolded new_account_def]] by simp
next
  case keyset_made
  show ?thesis using insert_frames(7) [OF keyset_made [unfolded new_keyset_def]] by simp
next
  case device_made
  show ?thesis using insert_frames(2) [OF device_made [unfolded new_device_def]] by simp
next
  case wrap_made
  show ?thesis using insert_frames(8) [OF wrap_made [unfolded new_key_wrap_def]] by simp
next
  case factor_made
  show ?thesis using insert_frames(4) [OF factor_made] by simp
next
  case code_made
  show ?thesis using insert_frames(5) [OF code_made] by simp
next
  case attempted
  show ?thesis using attempt_other_tables [OF attempted] by simp
next
  case revision_appended
  show ?thesis using append_other_tables [OF revision_appended] by simp
next
  case vault_opened
  show ?thesis using open_other_tables [OF vault_opened] by simp
next
  case revoked
  show ?thesis using sessions_updated [OF revoked [unfolded mark_revoked_def]] by simp
next
  case active
  show ?thesis using sessions_updated [OF active [unfolded mark_active_def]] by simp
next
  case csrf_set
  show ?thesis using sessions_updated [OF csrf_set [unfolded set_csrf_hash_def]] by simp
next
  case session_upgraded
  show ?thesis using sessions_updated [OF session_upgraded [unfolded upgrade_session_def]] by simp
next
  case session_made
  then show ?thesis unfolding new_session_def by blast
next
  case logged_out
  then show ?thesis by blast
qed (simp_all add: plain_updates)

lemma db_step_sessions_ok:
  assumes "db_step d d'" and "sessions_ok d"
  shows "sessions_ok d'"
  using db_step_sessions [OF assms(1)] assms(2)
    update_sessions_ok delete_session_ok insert_session_ok same_sessions_ok by blast

lemmas rest_defs = rest_ok_def challenges_ok_def keys_ok_def refs_ok_def

lemma rest_ok_other:
  assumes "rest_ok d" and "sessions d' = sessions d" and "auth_challenges d' = auth_challenges d"
    and "accounts d' = accounts d" and "totp_factors d' = totp_factors d" and "recovery_codes d' = recovery_codes d"
    and "map va_account_id (vaults d') = map va_account_id (vaults d)"
  shows "rest_ok d'"
  using assms by (simp add: rest_defs del: set_map)

lemma rest_ok_sessions:
  assumes "rest_ok d" and "update_sessions P f d = Inr d'" and "\<And>s. se_account_id (f s) = se_account_id s"
  shows "rest_ok d'"
proof -
  from assms(2) have "d' = d\<lparr>sessions := update_where P f (sessions d)\<rparr>"
    unfolding update_sessions_def Let_def constrained_Inr_iff by simp
  moreover have "map se_account_id (update_where P f (sessions d)) = map se_account_id (sessions d)"
    using assms(3) by (simp add: map_update_where)
  ultimately show ?thesis using assms(1) by (simp add: rest_defs del: set_map)
qed

lemma distinct_map_delete: "distinct (map g xs) \<Longrightarrow> distinct (map g (delete_where P xs))"
  unfolding delete_where_def by (rule distinct_map_filter)

lemma delete_where_subset: "set (map g (delete_where P xs)) \<subseteq> set (map g xs)"
  by (auto simp: delete_where_def)

lemma rest_ok_challenges:
  assumes "rest_ok d" and "d' = d\<lparr>auth_challenges := update_where P f (auth_challenges d)\<rparr>"
    and "\<And>c. ch_id (f c) = ch_id c" and "\<And>c. attempts_ok c \<Longrightarrow> attempts_ok (f c)"
  shows "rest_ok d'"
  using assms by (auto simp: rest_defs map_update_where list_all_iff set_update_where)

lemma rest_ok_factors:
  assumes "rest_ok d" and "d' = d\<lparr>totp_factors := update_where P f (totp_factors d)\<rparr>"
    and "\<And>c. tf_account_id (f c) = tf_account_id c"
  shows "rest_ok d'"
proof -
  have "map tf_account_id (update_where P f (totp_factors d)) = map tf_account_id (totp_factors d)"
    using assms(3) by (simp add: map_update_where)
  then show ?thesis using assms(1) by (simp add: assms(2) rest_defs del: set_map)
qed

lemma rest_ok_codes:
  assumes "rest_ok d" and "d' = d\<lparr>recovery_codes := update_where P f (recovery_codes d)\<rparr>"
    and "\<And>c. rc_id (f c) = rc_id c \<and> rc_account_id (f c) = rc_account_id c"
  shows "rest_ok d'"
proof -
  have "map rc_account_id (update_where P f (recovery_codes d)) = map rc_account_id (recovery_codes d)"
    "map rc_id (update_where P f (recovery_codes d)) = map rc_id (recovery_codes d)"
    using assms(3) by (simp_all add: map_update_where)
  then show ?thesis using assms(1) by (simp add: assms(2) rest_defs del: set_map)
qed

lemma rest_ok_delete_factors: "rest_ok d \<Longrightarrow> rest_ok (d\<lparr>totp_factors := delete_where P (totp_factors d)\<rparr>)"
  using delete_where_subset [of tf_account_id P "totp_factors d"] distinct_map_delete [of tf_account_id]
  by (auto simp: rest_defs simp del: set_map)

lemma rest_ok_delete_codes: "rest_ok d \<Longrightarrow> rest_ok (d\<lparr>recovery_codes := delete_where P (recovery_codes d)\<rparr>)"
  using delete_where_subset [of rc_account_id P "recovery_codes d"] distinct_map_delete [of rc_id]
  by (auto simp: rest_defs simp del: set_map)

lemma rest_ok_delete_sessions: "rest_ok d \<Longrightarrow> rest_ok (d\<lparr>sessions := delete_where P (sessions d)\<rparr>)"
  using delete_where_subset [of se_account_id P "sessions d"]
  by (auto simp: rest_defs simp del: set_map)

lemma rest_ok_delete_challenges: "rest_ok d \<Longrightarrow> rest_ok (d\<lparr>auth_challenges := delete_where P (auth_challenges d)\<rparr>)"
  using distinct_map_delete [of ch_id]
  by (auto simp: rest_defs list_all_iff set_delete_where)

lemma insert_account_rest:
  assumes "insert_account r d = Inr d'" and "rest_ok d"
  shows "rest_ok d'"
proof -
  from assms(1) have "d' = d\<lparr>accounts := accounts d @ [r]\<rparr>" "account_checks r" "acc_id r \<notin> acc_id ` set (accounts d)"
    "acc_login_handle_normalized r \<notin> acc_login_handle_normalized ` set (accounts d)"
    unfolding insert_account_def constrained_Inr_iff by simp_all
  with assms(2) show ?thesis by (simp add: rest_defs subset_insertI2)
qed

lemma insert_challenge_rest:
  assumes "insert_challenge (challenge_of input t) d = Inr d'" and "rest_ok d"
  shows "rest_ok d'"
proof -
  from assms(1) have "d' = d\<lparr>auth_challenges := auth_challenges d @ [challenge_of input t]\<rparr>"
    "ch_id (challenge_of input t) \<notin> ch_id ` set (auth_challenges d)"
    unfolding insert_challenge_def constrained_Inr_iff by simp_all
  moreover have "attempts_ok (challenge_of input t)"
    by (simp add: attempts_ok_def challenge_of_def MFA_CHALLENGE_MAX_ATTEMPTS_def)
  ultimately show ?thesis using assms(2) by (simp add: rest_defs)
qed

lemma insert_factor_rest:
  assumes "insert_totp_factor r d = Inr d'" and "rest_ok d"
  shows "rest_ok d'"
proof -
  from assms(1) have "d' = d\<lparr>totp_factors := totp_factors d @ [r]\<rparr>"
    "tf_account_id r \<notin> tf_account_id ` set (totp_factors d)" "account_exists d (tf_account_id r)"
    unfolding insert_totp_factor_def constrained_Inr_iff by simp_all
  with assms(2) show ?thesis by (simp add: rest_defs account_exists_def)
qed

lemma insert_code_rest:
  assumes "insert_recovery_code r d = Inr d'" and "rest_ok d"
  shows "rest_ok d'"
proof -
  from assms(1) have "d' = d\<lparr>recovery_codes := recovery_codes d @ [r]\<rparr>"
    "rc_id r \<notin> rc_id ` set (recovery_codes d)" "account_exists d (rc_account_id r)"
    unfolding insert_recovery_code_def constrained_Inr_iff by simp_all
  with assms(2) show ?thesis by (simp add: rest_defs account_exists_def)
qed

lemma insert_session_rest:
  assumes "insert_session r d = Inr d'" and "rest_ok d"
  shows "rest_ok d'"
proof -
  from assms(1) have "d' = d\<lparr>sessions := sessions d @ [r]\<rparr>" "account_exists d (se_account_id r)"
    unfolding insert_session_def constrained_Inr_iff by simp_all
  with assms(2) show ?thesis by (simp add: rest_defs account_exists_def)
qed

lemma insert_vault_rest:
  assumes "insert_vault r d = Inr d'" and "rest_ok d"
  shows "rest_ok d'"
proof -
  from assms(1) have "d' = d\<lparr>vaults := vaults d @ [r]\<rparr>" "account_exists d (va_account_id r)"
    unfolding insert_vault_def constrained_Inr_iff by simp_all
  with assms(2) show ?thesis by (simp add: rest_defs account_exists_def)
qed

lemma db_step_rest_ok:
  assumes "db_step d d'" and "rest_ok d"
  shows "rest_ok d'"
  using assms(1)
proof cases
  case (revoked i now)
  show ?thesis by (rule rest_ok_sessions [OF assms(2) revoked [unfolded mark_revoked_def]]) simp
next
  case active
  show ?thesis by (rule rest_ok_sessions [OF assms(2) active [unfolded mark_active_def]]) simp
next
  case csrf_set
  show ?thesis by (rule rest_ok_sessions [OF assms(2) csrf_set [unfolded set_csrf_hash_def]]) simp
next
  case session_upgraded
  show ?thesis by (rule rest_ok_sessions [OF assms(2) session_upgraded [unfolded upgrade_session_def]]) simp
next
  case logged_out
  with rest_ok_delete_sessions [OF assms(2)] show ?thesis by (simp add: delete_session_def)
next
  case expired
  with rest_ok_delete_challenges [OF assms(2)] show ?thesis by (simp add: drop_expired_challenges_def)
next
  case challenged
  from insert_challenge_rest [OF this assms(2)] show ?thesis .
next
  case consumed
  show ?thesis
    by (rule rest_ok_challenges [OF assms(2) consumed [unfolded set_consumed_def]]) (auto simp: attempts_ok_def)
next
  case (attempted i now)
  then have "d' = d\<lparr>auth_challenges := update_where (\<lambda>c. ch_id c = i)
      (\<lambda>c. c\<lparr>ch_attempts := ch_attempts c + 1, ch_consumed_at := (if MFA_CHALLENGE_MAX_ATTEMPTS \<le> ch_attempts c + 1
         then Some now else ch_consumed_at c)\<rparr>) (auth_challenges d)\<rparr>"
    by (simp add: count_attempt_def split: if_splits)
  then show ?thesis by (rule rest_ok_challenges [OF assms(2)]) (auto simp: attempts_ok_def)
next
  case audited
  show ?thesis by (rule rest_ok_other [OF assms(2)]) (simp_all add: insert_frames(9) [OF audited])
next
  case account_made
  from insert_account_rest [OF this [unfolded new_account_def] assms(2)] show ?thesis .
next
  case keyset_made
  show ?thesis
    by (rule rest_ok_other [OF assms(2)]) (simp_all add: insert_frames(7) [OF keyset_made [unfolded new_keyset_def]])
next
  case device_made
  show ?thesis
    by (rule rest_ok_other [OF assms(2)]) (simp_all add: insert_frames(2) [OF device_made [unfolded new_device_def]])
next
  case vault_opened
  from insert_vault_rest [OF this [unfolded new_vault_def] assms(2)] show ?thesis .
next
  case wrap_made
  show ?thesis
    by (rule rest_ok_other [OF assms(2)]) (simp_all add: insert_frames(8) [OF wrap_made [unfolded new_key_wrap_def]])
next
  case session_made
  from insert_session_rest [OF this [unfolded new_session_def] assms(2)] show ?thesis .
next
  case code_used
  show ?thesis by (rule rest_ok_codes [OF assms(2) code_used [unfolded mark_code_used_def]]) simp
next
  case factor_stepped
  show ?thesis by (rule rest_ok_factors [OF assms(2) factor_stepped [unfolded set_last_step_def]]) simp
next
  case factor_verified
  show ?thesis by (rule rest_ok_factors [OF assms(2) factor_verified [unfolded set_verified_def]]) simp
next
  case factors_removed
  with rest_ok_delete_factors [OF assms(2)] show ?thesis by (simp add: delete_factors_def)
next
  case pending_dropped
  with rest_ok_delete_factors [OF assms(2)] show ?thesis by (simp add: delete_pending_factor_def)
next
  case factor_made
  from insert_factor_rest [OF this assms(2)] show ?thesis .
next
  case codes_forgotten
  with rest_ok_delete_codes [OF assms(2)] show ?thesis by (simp add: delete_recovery_codes_def)
next
  case code_made
  from insert_code_rest [OF this assms(2)] show ?thesis .
next
  case revision_appended
  from append_other_tables [OF this] show ?thesis by (intro rest_ok_other [OF assms(2)]) simp_all
qed

end
