(* ===== verification/PV_Service.thy ===== *)
theory PV_Service
  imports PV_System
begin

text \<open>
  What the whole service guarantees, over every sequence of requests and cleanup runs and whatever
  the faults: the invariants of all tables, the refinement of the vaults to the abstract ledgers,
  the append-only log and the absence of lost updates.
\<close>

section \<open>Deleting accounts keeps the invariants\<close>

definition system_ok :: "db \<Rightarrow> bool" where
  "system_ok d \<longleftrightarrow> vaults_ok d \<and> sessions_ok d \<and> rest_ok d"

lemma db_step_ok: "db_step d d' \<Longrightarrow> system_ok d \<Longrightarrow> system_ok d'"
  by (simp add: system_ok_def db_step_vaults_ok db_step_sessions_ok db_step_rest_ok)

lemma db_steps_ok: "db_step\<^sup>*\<^sup>* d d' \<Longrightarrow> system_ok d \<Longrightarrow> system_ok d'"
  by (induction rule: rtranclp_induct) (auto intro: db_step_ok)

lemma empty_ok: "system_ok empty_db"
  by (simp add: system_ok_def vaults_ok_def sessions_ok_def unique_tokens_def rest_defs empty_db_def)

lemma delete_accounts_sessions: "sessions_ok d \<Longrightarrow> sessions_ok (delete_accounts gone d)"
  by (auto simp: sessions_ok_def unique_tokens_def delete_accounts_def Let_def list_all_iff set_delete_where
      intro: distinct_map_delete)

lemma delete_accounts_tables [simp]:
  "vaults (delete_accounts gone d) = delete_where (\<lambda>v. va_account_id v \<in> set gone) (vaults d)"
  "accounts (delete_accounts gone d) = delete_where (\<lambda>a. acc_id a \<in> set gone) (accounts d)"
  "auth_challenges (delete_accounts gone d)
     = delete_where (\<lambda>c. \<not> opt_all (\<lambda>a. a \<notin> set gone) (ch_account_id c)) (auth_challenges d)"
  "totp_factors (delete_accounts gone d) = delete_where (\<lambda>f. tf_account_id f \<in> set gone) (totp_factors d)"
  "recovery_codes (delete_accounts gone d) = delete_where (\<lambda>c. rc_account_id c \<in> set gone) (recovery_codes d)"
  "sessions (delete_accounts gone d) = delete_where (\<lambda>s. se_account_id s \<in> set gone) (sessions d)"
  by (simp_all add: delete_accounts_def Let_def)

lemma kept_references:
  assumes "set (map g xs) \<subseteq> acc_id ` set as"
  shows "set (map g (delete_where (\<lambda>x. g x \<in> G) xs)) \<subseteq> acc_id ` set (delete_where (\<lambda>a. acc_id a \<in> G) as)"
  using assms by (fastforce simp: delete_where_def)

lemma delete_accounts_rest:
  assumes "rest_ok d"
  shows "rest_ok (delete_accounts gone d)"
proof -
  have refs: "set (map se_account_id (sessions d)) \<subseteq> acc_id ` set (accounts d)"
    "set (map tf_account_id (totp_factors d)) \<subseteq> acc_id ` set (accounts d)"
    "set (map rc_account_id (recovery_codes d)) \<subseteq> acc_id ` set (accounts d)"
    "set (map va_account_id (vaults d)) \<subseteq> acc_id ` set (accounts d)"
    using assms by (simp_all add: rest_ok_def refs_ok_def del: set_map)
  have "refs_ok (delete_accounts gone d)"
    unfolding refs_ok_def delete_accounts_tables
    by (intro Un_least kept_references refs)
  moreover have "challenges_ok (delete_accounts gone d)"
    using assms by (auto simp: rest_defs distinct_map_delete list_all_iff set_delete_where)
  moreover have "keys_ok (delete_accounts gone d)"
    using assms by (simp add: rest_defs distinct_map_delete list_all_iff set_delete_where)
  ultimately show ?thesis by (simp add: rest_ok_def)
qed

text \<open>Whole vaults go, with all their items and revisions; the others keep theirs.\<close>

definition kept_vault :: "uuid list \<Rightarrow> db \<Rightarrow> uuid \<Rightarrow> bool" where
  "kept_vault gone d v \<longleftrightarrow> (\<exists>x. vault_row_of v d = Some x \<and> va_account_id x \<notin> set gone)"

lemma gone_vaults:
  assumes ok: "vaults_ok d" and row: "vault_row_of v d = Some x"
  shows "v \<in> set (map va_id (filter (\<lambda>v. va_account_id v \<in> set gone) (vaults d))) \<longleftrightarrow> va_account_id x \<in> set gone"
proof
  assume "v \<in> set (map va_id (filter (\<lambda>v. va_account_id v \<in> set gone) (vaults d)))"
  then obtain y where "y \<in> set (vaults d)" "va_account_id y \<in> set gone" "va_id y = v" by auto
  with vault_row_of_unique [OF ok, of y] row show "va_account_id x \<in> set gone" by simp
next
  assume "va_account_id x \<in> set gone"
  with vault_row_of_mem [OF row] show "v \<in> set (map va_id (filter (\<lambda>v. va_account_id v \<in> set gone) (vaults d)))"
    by auto
qed

lemma kept_log:
  assumes ok: "vaults_ok d" and kept: "kept_vault gone d v"
  shows "log_of v (delete_accounts gone d) = log_of v d"
proof -
  let ?vs = "set (map va_id (filter (\<lambda>v. va_account_id v \<in> set gone) (vaults d)))"
  from kept gone_vaults [OF ok] have "v \<notin> ?vs" by (auto simp: kept_vault_def)
  then show ?thesis
    by (auto simp: log_of_def delete_accounts_def Let_def delete_where_def intro!: filter_cong)
qed

lemma find_delete_where:
  "find P (delete_where Q xs) = find (\<lambda>x. P x \<and> \<not> Q x) xs"
  by (induction xs) (auto simp: delete_where_def)

lemma kept_row:
  assumes ok: "vaults_ok d"
  shows "vault_row_of v (delete_accounts gone d) = (if kept_vault gone d v then vault_row_of v d else None)"
proof (cases "vault_row_of v d")
  case None
  then have "\<not> kept_vault gone d v" by (simp add: kept_vault_def)
  with None show ?thesis
    by (auto simp: vault_row_of_def find_None_iff set_delete_where)
next
  case (Some x)
  show ?thesis
  proof (cases "va_account_id x \<in> set gone")
    case True
    have "va_account_id y \<in> set gone" if "y \<in> set (vaults d)" "va_id y = v" for y
      using vault_row_of_unique [OF ok that(1)] that(2) Some True by simp
    with Some True show ?thesis
      by (auto simp: vault_row_of_def kept_vault_def find_None_iff set_delete_where)
  next
    case False
    then have "x \<in> set (vaults (delete_accounts gone d))"
      using vault_row_of_mem [OF Some] by (simp add: set_delete_where)
    moreover have "distinct (map va_id (vaults (delete_accounts gone d)))"
      using vaults_okD(1) [OF ok] by (simp add: distinct_map_delete)
    ultimately have "vault_row_of (va_id x) (delete_accounts gone d) = Some x"
      by (cases "find (\<lambda>y. va_id y = va_id x) (vaults (delete_accounts gone d))")
        (auto simp: vault_row_of_def find_None_iff simp del: delete_accounts_tables
          dest: find_Some_mem distinct_map_unique)
    with Some False vault_row_of_mem [OF Some] show ?thesis by (auto simp: kept_vault_def)
  qed
qed

lemma kept_items:
  "i \<in> set (vault_items (delete_accounts gone d)) \<longleftrightarrow> i \<in> set (vault_items d)
     \<and> it_vault_id i \<notin> set (map va_id (filter (\<lambda>v. va_account_id v \<in> set gone) (vaults d)))"
  by (simp add: delete_accounts_def Let_def set_delete_where)

lemma delete_accounts_vaults:
  assumes ok: "vaults_ok d"
  shows "vaults_ok (delete_accounts gone d)"
proof (rule vaults_okI)
  let ?d = "delete_accounts gone d"
  show "distinct (map va_id (vaults ?d))" using vaults_okD(1) [OF ok] by (simp add: distinct_map_delete)
  show "distinct (map it_id (vault_items ?d))"
    using vaults_okD(2) [OF ok] by (simp add: delete_accounts_def Let_def distinct_map_delete)
  show "vault_consistent ?d v" if "v \<in> set (vaults ?d)" for v
  proof -
    from that have v: "v \<in> set (vaults d)" "va_account_id v \<notin> set gone" by (simp_all add: set_delete_where)
    then have "kept_vault gone d (va_id v)" using vault_row_of_unique [OF ok v(1)] by (simp add: kept_vault_def)
    with vaults_okD(3) [OF ok v(1)] kept_log [OF ok] show ?thesis by (simp add: vault_consistent_def)
  qed
  show "it_vault_id i \<in> va_id ` set (vaults ?d) \<and> item_consistent ?d i" if "i \<in> set (vault_items ?d)" for i
  proof -
    from that have i: "i \<in> set (vault_items d)"
      and stays: "it_vault_id i \<notin> set (map va_id (filter (\<lambda>v. va_account_id v \<in> set gone) (vaults d)))"
      unfolding kept_items by blast+
    from vaults_okD(4) [OF ok i] obtain v where v: "v \<in> set (vaults d)" "va_id v = it_vault_id i" by auto
    have kept: "va_account_id v \<notin> set gone"
    proof
      assume "va_account_id v \<in> set gone"
      with v(1) have "va_id v \<in> set (map va_id (filter (\<lambda>v. va_account_id v \<in> set gone) (vaults d)))" by auto
      with stays v(2) show False by (simp only:)
    qed
    then have "kept_vault gone d (it_vault_id i)"
      using vault_row_of_unique [OF ok v(1)] v(2) by (simp add: kept_vault_def)
    from kept_log [OF ok this] vaults_okD(5) [OF ok i] have "item_consistent ?d i"
      by (simp add: item_consistent_def item_log_def)
    moreover have "va_id v \<in> va_id ` set (vaults ?d)" using v(1) kept by (auto simp: set_delete_where)
    ultimately show ?thesis using v(2) by (simp only:)
  qed
  show "revision_placed ?d r" if "r \<in> set (vault_item_revisions ?d)" for r
  proof -
    from that have r: "r \<in> set (vault_item_revisions d)"
      and stays: "(rv_vault_id r, rv_item_id r) \<notin> set (map (\<lambda>i. (it_vault_id i, it_id i))
        (filter (\<lambda>i. it_vault_id i \<in> set (map va_id (filter (\<lambda>v. va_account_id v \<in> set gone) (vaults d))))
          (vault_items d)))"
      by (simp_all add: delete_accounts_def Let_def set_delete_where)
    from vaults_okD(6) [OF ok r] obtain i where i: "i \<in> set (vault_items d)" "it_id i = rv_item_id r"
      "it_vault_id i = rv_vault_id r" and checks: "revision_checks r"
      by (auto simp: revision_placed_def list_ex_iff)
    with stays have "i \<in> set (vault_items ?d)" unfolding kept_items by force
    with i checks show ?thesis by (auto simp: revision_placed_def list_ex_iff)
  qed
qed

lemma delete_accounts_ok: "system_ok d \<Longrightarrow> system_ok (delete_accounts gone d)"
  by (simp add: system_ok_def delete_accounts_vaults delete_accounts_sessions delete_accounts_rest)

lemma delete_accounts_ledgers:
  assumes "vaults_ok d"
  shows "ledgers_of (delete_accounts gone d) = ledgers_of d |` {v. kept_vault gone d v}"
proof
  fix v
  show "ledgers_of (delete_accounts gone d) v = (ledgers_of d |` {v. kept_vault gone d v}) v"
    using kept_row [OF assms] kept_log [OF assms]
    by (cases "kept_vault gone d v") (simp_all add: ledgers_of_def restrict_map_def)
qed

section \<open>Runs\<close>

definition deleted :: "db \<Rightarrow> db \<Rightarrow> bool" where
  "deleted d d' \<longleftrightarrow> (\<exists>gone. d' = delete_accounts gone d)"

lemma moves_cleanup_command: "moves deleted e (run_synthetic_cleanup getenv args)"
proof -
  have "moves deleted e (run_pool (delete_candidates X p c n))" for X p c n
    by (rule moves_run_pool) (auto simp: delete_candidates_def Let_def deleted_def intro!: r_into_rtranclp)
  moreover have "moves deleted e now_utc"
    by (rule moves_still) (auto simp: now_utc_def)
  ultimately show ?thesis
    unfolding run_synthetic_cleanup_def cleanup_synthetic_accounts_def Let_def
    by (intro moves_intros)
qed

lemma deleted_run:
  "deleted\<^sup>*\<^sup>* d d' \<Longrightarrow> system_ok d \<Longrightarrow> system_ok d' \<and> ledger_step\<^sup>*\<^sup>* (ledgers_of d) (ledgers_of d')"
proof (induction rule: rtranclp_induct)
  case (step u v)
  then obtain gone where v: "v = delete_accounts gone u" by (auto simp: deleted_def)
  from step have ok: "system_ok u" and run: "ledger_step\<^sup>*\<^sup>* (ledgers_of d) (ledgers_of u)" by auto
  have "ledger_step (ledgers_of u) (ledgers_of v)"
    using ok by (simp add: v system_ok_def delete_accounts_ledgers drop_ledgers)
  with run ok show ?case by (auto simp: v delete_accounts_ok)
qed simp

lemma operation_step_ok:
  assumes "operation_step w w'" and "w_txn w = None" and "system_ok (w_db w)"
  shows "w_txn w' = None \<and> system_ok (w_db w') \<and> ledger_step\<^sup>*\<^sup>* (ledgers_of (w_db w)) (ledgers_of (w_db w'))"
  using assms(1)
proof cases
  case served
  from service_step_moves [OF this assms(2)] have "db_step\<^sup>*\<^sup>* (w_db w) (w_db w')" "w_txn w' = None" by auto
  with db_steps_ok db_steps_ledgers assms(3) show ?thesis by (simp add: system_ok_def)
next
  case (cleaned_up getenv args e r)
  note run = movesD [OF moves_cleanup_command assms(2) cleaned_up]
  from deleted_run [OF run(1) assms(3)] run(2) show ?thesis by simp
qed

lemma operation_run_ok:
  assumes "operation_step\<^sup>*\<^sup>* w w'" and "w_txn w = None" and "system_ok (w_db w)"
  shows "w_txn w' = None \<and> system_ok (w_db w') \<and> ledger_step\<^sup>*\<^sup>* (ledgers_of (w_db w)) (ledgers_of (w_db w'))"
  using assms
proof (induction rule: rtranclp_induct)
  case (step u v)
  with operation_step_ok [OF step(2)] show ?case by (meson rtranclp_trans)
qed simp

text \<open>C4. Whatever requests and cleanup runs are served, in any order, with any faults of the database,
  clock and random source, the committed database stays consistent: every vault is a chain of
  revisions from its genesis hash to its head and every item's revisions are numbered without gap up
  to its latest one; session tokens are unique and sessions expire within their absolute limit; a
  challenge with used-up attempts is closed; handles, authenticators and recovery codes are unique; and
  everything belongs to an existing account. No transaction is left open.\<close>

theorem operation_invariant:
  assumes "operation_step\<^sup>*\<^sup>* (world_of empty_db) w"
  shows "system_ok (w_db w) \<and> w_txn w = None"
  using operation_run_ok [OF assms] empty_ok by simp

text \<open>C1. The service refines the abstract ledgers: every request and every cleanup run moves the vaults
  by steps of the abstract machine, which opens a vault empty, appends one entry under the conditions
  of optimistic concurrency, or drops whole vaults; and in every state the ledgers are the ones that
  the machine can reach from nothing.\<close>

theorem service_refines_ledgers:
  assumes "operation_step\<^sup>*\<^sup>* (world_of empty_db) w" and "operation_step w w'"
  shows "ledger_step\<^sup>*\<^sup>* (ledgers_of (w_db w)) (ledgers_of (w_db w'))
    \<and> ledger_step\<^sup>*\<^sup>* (\<lambda>_. None) (ledgers_of (w_db w')) \<and> ledgers_ok (ledgers_of (w_db w'))"
proof -
  have none: "ledgers_of empty_db = (\<lambda>_. None)"
    by (simp add: ledgers_of_def vault_row_of_def empty_db_def)
  note first = operation_run_ok [OF assms(1), simplified, OF empty_ok]
  note last = operation_step_ok [OF assms(2) conjunct1 [OF first]]
  from first last have run: "ledger_step\<^sup>*\<^sup>* (\<lambda>_. None) (ledgers_of (w_db w'))"
    unfolding none by (meson rtranclp_trans)
  moreover have "ledgers_ok (\<lambda>_. None)" by (simp add: ledgers_ok_def)
  ultimately show ?thesis using first last ledgers_stay_ok by blast
qed

text \<open>C3. A vault's log is append-only for its readers: over any run of requests the log only grows at
  its end, the vault keeps its genesis hash, and a sync cursor that was on the log stays on it.\<close>

theorem log_append_only:
  assumes "service_step\<^sup>*\<^sup>* w w'" and "w_txn w = None" and "system_ok (w_db w)"
    and "vault_row_of v (w_db w) = Some x"
  shows "\<exists>x' added. vault_row_of v (w_db w') = Some x' \<and> va_genesis_head_hash x' = va_genesis_head_hash x
    \<and> log_of v (w_db w') = log_of v (w_db w) @ added
    \<and> (\<forall>n h. on_log x (w_db w) n h \<longrightarrow> on_log x' (w_db w') n h)"
proof -
  from service_run_moves [OF assms(1,2)] have "db_step\<^sup>*\<^sup>* (w_db w) (w_db w')" by simp
  from vault.steps_extend [OF db_steps_ledger [OF this], of v] assms(3,4)
  obtain x' added where x': "vault_row_of v (w_db w') = Some x'" "vaults_ok (w_db w')"
    and same: "va_genesis_head_hash x' = va_genesis_head_hash x"
    and log: "log_of v (w_db w') = log_of v (w_db w) @ added"
    by (auto simp: system_ok_def)
  note ids = vault_row_of_mem [OF assms(4)] vault_row_of_mem [OF x'(1)]
  have len: "va_head_seq x = int (length (log_of v (w_db w)))" "va_head_seq x' = int (length (log_of v (w_db w')))"
    using vaults_okD(3) [of "w_db w" x] vaults_okD(3) [OF x'(2), of x'] ids assms(3)
    by (auto simp: vault_consistent_def Let_def system_ok_def)
  have "on_log x' (w_db w') n h" if "on_log x (w_db w) n h" for n h
  proof -
    have "nat n \<le> length (log_of v (w_db w))" using that ids len by (simp add: on_log_def nat_le_iff)
    then show ?thesis using that ids len log same by (simp add: on_log_def)
  qed
  with x' same log show ?thesis by blast
qed

section \<open>No lost update\<close>

fun write_of :: "api_call \<Rightarrow> (uuid \<times> int) option" where
  "write_of (CreateItem h v r) = Some (v, ci_base_head_seq r)"
| "write_of (CreateItemRevision h v i r) = Some (v, cr_base_head_seq r)"
| "write_of _ = None"

fun accepted :: "api_reply \<Rightarrow> bool" where
  "accepted (ItemCreated r) = (rs_status r = 201)"
| "accepted (ItemRevised r) = (rs_status r = 201)"
| "accepted _ = False"

lemma reply_run: "reply f m e w = (Inr p, w') \<longleftrightarrow> (\<exists>a. m e w = (Inr a, w') \<and> p = f a)"
  by (auto simp: reply_def try_io_def ret_def split: prod.splits sum.splits)

lemma write_answer_accepted:
  assumes "write_answer e h v row d d' resp" and "rs_status resp = 201"
  shows "\<exists>d1 a. session_refreshed d d1 \<and> vault_append a (row a d1) d1 d'"
  using assms unfolding write_answer_def vault_session_def write_accepted_def write_refused_def
  by (auto simp: vault_conflict_response_def no_store_json_def)

lemma create_base: "create_item_from_request X q = Inr r \<Longrightarrow> vci_base_head_seq r = ci_base_head_seq q"
  by (auto simp: create_item_from_request_def validate_nonnegative_seq_def and_then_Inr_iff split: if_splits)

lemma revise_base: "create_revision_from_request X q = Inr r \<Longrightarrow> vcr_base_head_seq r = cr_base_head_seq q"
  by (auto simp: create_revision_from_request_def validate_nonnegative_seq_def and_then_Inr_iff split: if_splits)

lemma accepted_append:
  assumes "serve c e w = (Inr p, w')" and "accepted p" and "w_txn w = None" and "write_of c = Some (v, b)"
  shows "\<exists>d1 r. session_refreshed (w_db w) d1 \<and> vault_appended v r d1 (w_db w') \<and> rv_base_head_seq r = b"
proof (cases c)
  case (CreateItem h v' q)
  with assms obtain resp where run: "create_item h v q e w = (Inr resp, w')" and "rs_status resp = 201"
    and b: "b = ci_base_head_seq q" by (auto simp: reply_run)
  with create_item_sound [OF run assms(3)] obtain r where r: "create_item_from_request (ext e) q = Inr r"
    and "write_answer e h v (\<lambda>a. create_row a v r) (w_db w) (w_db w') resp" by auto
  with write_answer_accepted \<open>rs_status resp = 201\<close> obtain d1 a where "session_refreshed (w_db w) d1"
    "vault_append a (create_row a v r d1) d1 (w_db w')" by blast
  moreover have "rv_base_head_seq (create_row a v r d1) = b" "rv_vault_id (create_row a v r d1) = v"
    by (simp_all add: create_row_def create_base [OF r] b)
  ultimately show ?thesis unfolding vault_appended_def by blast
next
  case (CreateItemRevision h v' i q)
  with assms obtain resp where run: "create_item_revision h v i q e w = (Inr resp, w')" and "rs_status resp = 201"
    and b: "b = cr_base_head_seq q" by (auto simp: reply_run)
  with create_item_revision_sound [OF run assms(3)] obtain r where r: "create_revision_from_request (ext e) q = Inr r"
    and "write_answer e h v (\<lambda>a. revise_row a v i r) (w_db w) (w_db w') resp" by auto
  with write_answer_accepted \<open>rs_status resp = 201\<close> obtain d1 a where "session_refreshed (w_db w) d1"
    "vault_append a (revise_row a v i r d1) d1 (w_db w')" by blast
  moreover have "rv_base_head_seq (revise_row a v i r d1) = b" "rv_vault_id (revise_row a v i r d1) = v"
    by (simp_all add: revise_row_def revise_base [OF r] b)
  ultimately show ?thesis unfolding vault_appended_def by blast
qed (use assms(4) in simp_all)

text \<open>C2. No update is lost: of two accepted writes to the same vault, in any run of requests between
  them, the later one was based on a later head. In particular two writers that have seen the same
  head are never both accepted.\<close>

theorem no_lost_update:
  assumes "serve c e w = (Inr p, w1)" and "accepted p" and "write_of c = Some (v, b)"
    and "service_step\<^sup>*\<^sup>* w1 w2"
    and "serve c' e' w2 = (Inr p', w3)" and "accepted p'" and "write_of c' = Some (v, b')"
    and "w_txn w = None" and "system_ok (w_db w)"
  shows "b < b'"
proof -
  from accepted_append [OF assms(1,2,8,3)] obtain d1 r where d1: "session_refreshed (w_db w) d1"
    and r: "vault_appended v r d1 (w_db w1)" "rv_base_head_seq r = b" by blast
  have w1: "w_txn w1 = None" by (rule movesD(2) [OF moves_serve assms(8,1)])
  from service_run_moves [OF assms(4) w1] have run: "db_step\<^sup>*\<^sup>* (w_db w1) (w_db w2)" and w2: "w_txn w2 = None"
    by auto
  from accepted_append [OF assms(5,6) w2 assms(7)] obtain d2 q where d2: "session_refreshed (w_db w2) d2"
    and q: "vault_appended v q d2 (w_db w3)" "rv_base_head_seq q = b'" by blast
  from run session_refreshed_steps [OF d2] have steps: "db_step\<^sup>*\<^sup>* (w_db w1) d2" by (rule rtranclp_trans)
  have ok: "vaults_ok d1"
    using same_vaults_ok [OF _ session_refreshed_vaults [OF d1]] assms(9) by (simp add: system_ok_def)
  from r(1) obtain a where "vault_append a r d1 (w_db w1)" "rv_vault_id r = v" by (auto simp: vault_appended_def)
  from append_row [OF ok this(1)] this(2) have "vault_row_of v d1 \<noteq> None" by blast
  with vault.bases_differ [OF _ r(1) db_steps_ledger [OF steps] q(1)] ok r(2) q(2) show ?thesis by simp
qed


section \<open>A concrete run\<close>

text \<open>A registration from the empty database: the first request issues the challenge.\<close>

lemma sample_run:
  "\<exists>p w. serve (RegisterStart ''ann'' AUTH_PROTOCOL) sample_env (world_of empty_db) = (Inr p, w)
     \<and> auth_challenges (w_db w) \<noteq> []"
proof -
  have "trim ''ann'' = ''ann''" by (rule trim_visible) (simp add: visible_char_def)
  moreover have "to_ascii_lowercase ''ann'' = ''ann''" by code_simp
  ultimately have handle: "normalize_login_handle ''ann'' = Inr ''ann''"
    by (simp add: normalize_login_handle_def MAX_LOGIN_HANDLE_BYTES_def)
  have "wp sample_env (serve (RegisterStart ''ann'' AUTH_PROTOCOL)) (\<lambda>_ w. auth_challenges (w_db w) \<noteq> [])
      (\<lambda>_ _. False) (world_of empty_db)"
    by (simp add: reply_def register_start_def wp_eqs ensure_supported_protocol_def handle
        cleanup_expired_challenges_def command_def drop_expired_challenges_def empty_db_def delete_where_def
        enforce_challenge_rate_limit_def query_def count_where_def AUTH_CHALLENGE_RATE_LIMIT_def Let_def
        insert_auth_challenge_def insert_challenge_stmt_def insert_challenge_def challenge_of_def
        SERVER_NONCE_BYTES_def nonblank_def AUTH_PROTOCOL_def opt_all_def constrained_def
        registration_event_def sample_def seconds_def REGISTER_CHALLENGE_TTL_def minutes_def)
  then show ?thesis by (auto elim: run_of_wp)
qed

theorem operation_invariant_witness:
  "\<exists>w. operation_step\<^sup>*\<^sup>* (world_of empty_db) w \<and> auth_challenges (w_db w) \<noteq> [] \<and> system_ok (w_db w) \<and> w_txn w = None"
proof -
  from sample_run obtain p w where "serve (RegisterStart ''ann'' AUTH_PROTOCOL) sample_env (world_of empty_db) = (Inr p, w)"
    and some: "auth_challenges (w_db w) \<noteq> []" by blast
  then have "operation_step\<^sup>*\<^sup>* (world_of empty_db) w" by (blast intro: served request)
  with operation_invariant [OF this] some show ?thesis by blast
qed

theorem service_refines_ledgers_witness:
  "\<exists>w. operation_step (world_of empty_db) w \<and> auth_challenges (w_db w) \<noteq> []
     \<and> ledger_step\<^sup>*\<^sup>* (ledgers_of (w_db (world_of empty_db))) (ledgers_of (w_db w)) \<and> ledgers_ok (ledgers_of (w_db w))"
proof -
  from sample_run obtain p w where "serve (RegisterStart ''ann'' AUTH_PROTOCOL) sample_env (world_of empty_db) = (Inr p, w)"
    and some: "auth_challenges (w_db w) \<noteq> []" by blast
  then have step: "operation_step (world_of empty_db) w" by (blast intro: served request)
  with service_refines_ledgers [OF rtranclp.rtrancl_refl step] some show ?thesis by blast
qed


text \<open>Two writes on top of each other: an item is created and then deleted.\<close>

lemma sample_vault_ok: "system_ok (vault_db sample_vault [])"
  by (simp add: system_ok_def vaults_ok_def vault_db_def empty_db_def vault_consistent_def log_of_def
      sample_vault_def sessions_ok_def unique_tokens_def session_checks_def sample_session_def seconds_def
      sample_sha256_length opt_all_def rest_defs vault_account_def
      account_checks_def kdf_profile AUTH_PROTOCOL_def PROFILE_ID_def nonblank_def)

lemma sample_writes:
  "\<exists>p w1 p' w2. serve (CreateItem sample_headers 77 sample_create) sample_env (world_of (vault_db sample_vault [])) = (Inr p, w1)
     \<and> accepted p \<and> serve (CreateItemRevision sample_headers 77 5 sample_revise) sample_env w1 = (Inr p', w2) \<and> accepted p'"
proof -
  have "wp sample_env (serve (CreateItem sample_headers 77 sample_create))
      (\<lambda>p. wp sample_env (serve (CreateItemRevision sample_headers 77 5 sample_revise))
        (\<lambda>p' _. accepted p \<and> accepted p') (\<lambda>_ _. False)) (\<lambda>_ _. False) (world_of (vault_db sample_vault []))"
    by (simp add: reply_def create_item_def create_item_tx_def create_item_from_request_def sample_create_def
        create_item_revision_def create_item_revision_tx_def create_revision_from_request_def sample_revise_def
        validate_nonnegative_seq_def validate_positive_seq_def create_revision_input_def revision_input_def
        revision_event_def sample_write min_time_def no_store_json_def del: hex_encode.simps)
  then show ?thesis by (fastforce elim!: run_of_wp)
qed

theorem no_lost_update_witness:
  "\<exists>p w1 p' w2. serve (CreateItem sample_headers 77 sample_create) sample_env (world_of (vault_db sample_vault [])) = (Inr p, w1)
     \<and> serve (CreateItemRevision sample_headers 77 5 sample_revise) sample_env w1 = (Inr p', w2)
     \<and> ci_base_head_seq sample_create < cr_base_head_seq sample_revise"
proof -
  from sample_writes obtain p w1 p' w2 where
    run: "serve (CreateItem sample_headers 77 sample_create) sample_env (world_of (vault_db sample_vault [])) = (Inr p, w1)"
      "accepted p" "serve (CreateItemRevision sample_headers 77 5 sample_revise) sample_env w1 = (Inr p', w2)" "accepted p'"
    by blast
  have "ci_base_head_seq sample_create < cr_base_head_seq sample_revise"
    by (rule no_lost_update [OF run(1,2) _ rtranclp.rtrancl_refl run(3,4)]) (simp_all add: sample_vault_ok)
  with run show ?thesis by blast
qed

theorem log_append_only_witness:
  "\<exists>w x x' added. service_step\<^sup>*\<^sup>* (world_of (vault_db sample_vault [])) w
     \<and> vault_row_of 77 (vault_db sample_vault []) = Some x \<and> vault_row_of 77 (w_db w) = Some x'
     \<and> log_of 77 (w_db w) = log_of 77 (vault_db sample_vault []) @ added"
proof -
  from sample_writes obtain p w where
    "serve (CreateItem sample_headers 77 sample_create) sample_env (world_of (vault_db sample_vault [])) = (Inr p, w)" by blast
  then have run: "service_step\<^sup>*\<^sup>* (world_of (vault_db sample_vault [])) w" by (blast intro: request)
  have row: "vault_row_of 77 (vault_db sample_vault []) = Some sample_vault"
    by (simp add: vault_row_of_def vault_db_def sample_vault_def)
  with log_append_only [OF run, of 77 sample_vault] run sample_vault_ok show ?thesis
    unfolding world_of_simps by blast
qed

end
