(* ===== verification/PV_Progress.thy ===== *)
theory PV_Progress
  imports PV_Service
begin

text \<open>
  Progress of the vault writers: while the database answers, an authorised and well-formed write never
  ends in an error. It is accepted exactly when it names the current head of the vault (and the current
  revision of an item that is not deleted) and brings new identifiers; otherwise it is answered with
  the conflict. None of the CHECK, UNIQUE and foreign-key constraints can get in the way in a database
  that satisfies the invariants.
\<close>

section \<open>Authorised requests\<close>

definition quiet :: "env \<Rightarrow> bool" where
  "quiet e \<longleftrightarrow> cf_database (conf e) \<and> (\<forall>n. fault_at e n = Fine)"

definition authorizes :: "externals \<Rightarrow> headers \<Rightarrow> time \<Rightarrow> session_row \<Rightarrow> db \<Rightarrow> bool" where
  "authorizes X h now s d \<longleftrightarrow> ensure_unsafe_request_context h = Inr ()
     \<and> live_session d now s \<and> se_session_state s = ''mfa_verified''
     \<and> (\<exists>tok. session_token_from_headers X h = Some tok \<and> se_session_token_hash s = sha256_verifier X tok)
     \<and> (\<exists>c. csrf_token_from_headers X h = Some c \<and> se_csrf_token_hash s = Some (sha256_verifier X c))"

lemma find_unique:
  assumes "distinct (map f xs)" and "x \<in> set xs" and "P x" and "\<And>y. P y \<Longrightarrow> f y = f x"
  shows "find P xs = Some x"
proof (cases "find P xs")
  case None
  with assms(2,3) show ?thesis by (auto simp: find_None_iff)
next
  case (Some y)
  then have "y \<in> set xs" "f y = f x" using find_Some_mem [OF Some] assms(4) by auto
  with distinct_map_unique [OF assms(1) _ assms(2)] Some show ?thesis by blast
qed

lemma session_by_token:
  assumes "sessions_ok d" and "s \<in> set (sessions d)" and "se_revoked_at s = None"
  shows "session_with_device (se_session_token_hash s) d = Some (s, device_revocation d s)"
proof -
  have "find (\<lambda>r. se_session_token_hash r = se_session_token_hash s \<and> se_revoked_at r = None) (sessions d) = Some s"
    by (rule find_unique [of se_session_token_hash]) (use assms in \<open>auto simp: sessions_ok_def unique_tokens_def\<close>)
  then show ?thesis by (simp add: session_with_device_def device_revocation_def)
qed

lemma csrf_by_id:
  assumes "sessions_ok d" and "s \<in> set (sessions d)" and "se_revoked_at s = None"
  shows "csrf_hash_of (se_id s) d = se_csrf_token_hash s"
proof -
  have "find (\<lambda>r. se_id r = se_id s \<and> se_revoked_at r = None) (sessions d) = Some s"
    by (rule find_unique [of se_id]) (use assms in \<open>auto simp: sessions_ok_def\<close>)
  then show ?thesis by (simp add: csrf_hash_of_def)
qed

text \<open>Refreshing the session cannot fail, and keeps its CSRF hash.\<close>

lemma mark_active_runs:
  assumes "sessions_ok d" and "s \<in> set (sessions d)" and "se_revoked_at s = None"
    and "idle \<le> se_absolute_expires_at s"
  obtains ss where "mark_active (se_id s) now idle d = Inr (d\<lparr>sessions := ss\<rparr>)"
    and "csrf_hash_of (se_id s) (d\<lparr>sessions := ss\<rparr>) = se_csrf_token_hash s"
proof -
  let ?f = "\<lambda>r :: session_row. r\<lparr>se_last_seen_at := Some now, se_idle_expires_at := idle, se_expires_at := idle\<rparr>"
  let ?ss = "update_where (\<lambda>r. se_id r = se_id s) ?f (sessions d)"
  have "session_checks (?f r)" if "r \<in> set (sessions d)" "se_id r = se_id s" for r
  proof -
    have "r = s" using distinct_map_unique that assms(1,2) unfolding sessions_ok_def by metis
    then show ?thesis using assms by (auto simp: session_checks_def sessions_ok_def list_all_iff)
  qed
  moreover have "map se_session_token_hash ?ss = map se_session_token_hash (sessions d)"
    by (rule map_update_where) simp
  ultimately have run: "mark_active (se_id s) now idle d = Inr (d\<lparr>sessions := ?ss\<rparr>)"
    using assms(1) by (simp add: mark_active_def update_sessions_Inr list_all_iff sessions_ok_def unique_tokens_def)
  have "sessions_ok (d\<lparr>sessions := ?ss\<rparr>)"
    using update_sessions_ok [OF run [unfolded mark_active_def] _ assms(1)] by simp
  moreover have "?f s \<in> set ?ss" using assms(2) by (auto simp: set_update_where)
  ultimately have "csrf_hash_of (se_id s) (d\<lparr>sessions := ?ss\<rparr>) = se_csrf_token_hash s"
    using csrf_by_id [of "d\<lparr>sessions := ?ss\<rparr>" "?f s"] assms(3) by simp
  with run that show thesis by blast
qed

text \<open>The guards in front of both writers are passed, and leave everything but the sessions alone.\<close>

lemma wp_write_guards:
  assumes "quiet e" and "sessions_ok (w_db w)"
    and "authorizes (ext e) h (clock e (w_tick w) div 1000000 * 1000000) s (w_db w)"
    and body: "\<And>c ss w'. cs_account_id c = se_account_id s \<Longrightarrow> cs_id c = se_id s \<Longrightarrow>
      w_db w' = (w_db w)\<lparr>sessions := ss\<rparr> \<Longrightarrow> w_txn w' = w_txn w \<Longrightarrow> wp e (f c) Q R w'"
  shows "wp e (try_io (lift (ensure_unsafe_request_context h)) (\<lambda>_. try_io database_pool (\<lambda>_.
      try_io (require_vault_session h) (\<lambda>c. try_io (ensure_csrf_token h (cs_id c)) (\<lambda>_. f c))))) Q R w"
proof -
  let ?now = "clock e (w_tick w) div 1000000 * 1000000"
  let ?idle = "min_time (?now + SESSION_IDLE_TTL) (se_absolute_expires_at s)"
  from assms(3) obtain tok c where ctx: "ensure_unsafe_request_context h = Inr ()"
    and live: "s \<in> set (sessions (w_db w))" "se_revoked_at s = None" "device_revocation (w_db w) s = None"
      "?now < se_idle_expires_at s" "?now < se_absolute_expires_at s" "se_session_state s = ''mfa_verified''"
    and tok: "session_token_from_headers (ext e) h = Some tok" "se_session_token_hash s = sha256_verifier (ext e) tok"
    and csrf: "csrf_token_from_headers (ext e) h = Some c" "se_csrf_token_hash s = Some (sha256_verifier (ext e) c)"
    unfolding authorizes_def live_session_def by auto
  have len: "length (sha256_verifier (ext e) c) = TOKEN_LEN"
    using assms(2) live(1) csrf(2) by (auto simp: sessions_ok_def list_all_iff session_checks_def opt_all_def TOKEN_LEN_def)
  have "?idle \<le> se_absolute_expires_at s" by (simp add: min_time_def)
  from mark_active_runs [OF assms(2) live(1,2) this, of ?now] obtain ss
    where act: "mark_active (se_id s) ?now ?idle (w_db w) = Inr ((w_db w)\<lparr>sessions := ss\<rparr>)"
      and hash: "csrf_hash_of (se_id s) ((w_db w)\<lparr>sessions := ss\<rparr>) = Some (sha256_verifier (ext e) c)"
    unfolding csrf(2) .
  from session_by_token [OF assms(2) live(1,2)] have row: "session_with_device (sha256_verifier (ext e) tok) (w_db w) = Some (s, None)"
    by (simp add: tok(2) live(3))
  from assms(1) show ?thesis
    using live(4,5) by (auto simp: wp_eqs quiet_def ctx require_vault_session_def load_current_session_def query_def Let_def
        tok(1) row live(6) vault_access_def refresh_session_activity_def command_def act ensure_csrf_token_def csrf(1) hash len
        ok_or_def intro!: body)
qed

section \<open>Constraints of an append\<close>

lemma space_is_ws: "[CHR '' ''] \<in> set ws_chars"
proof -
  have "map char_of [32 :: nat] \<in> set ws_chars" unfolding ws_chars_def set_map set_append by (rule imageI) simp
  moreover have "map char_of [32 :: nat] = [CHR '' '']" by (simp add: char_of_def bit_0)
  ultimately show ?thesis by simp
qed

lemma nonblank_trim:
  assumes "trim k \<noteq> []"
  shows "nonblank (trim k)"
proof (rule ccontr)
  assume blank: "\<not> nonblank (trim k)"
  obtain c cs where k: "trim k = c # cs" using assms by (cases "trim k") simp_all
  with blank have "trim k = [CHR '' ''] @ cs" by (auto simp: nonblank_def split: if_splits)
  with no_ws_front_trim [of k] space_is_ws show False by (auto simp: strip_any_None_iff)
qed

lemma decoded_hash: "decode_hash X t = Inr b \<Longrightarrow> length b = 32"
  by (auto simp: decode_hash_def decode_base64url_array_def HASH_BYTES_def and_then_Inr_iff split: if_splits)

lemma valid_envelope:
  "item_envelope_from_request X r = Inr v \<Longrightarrow> nonblank (vi_key_id v) \<and> nonblank (vi_crypto_version v)"
  by (auto simp: item_envelope_from_request_def and_then_Inr_iff validate_short_text_def Let_def
      ITEM_ENVELOPE_CRYPTO_VERSION_def nonblank_trim nonblank_def [of "_ # _"] split: if_splits)

lemma valid_create:
  assumes "create_item_from_request X request = Inr v"
  shows "0 \<le> vci_base_head_seq v" "length (vci_base_head_hash v) = 32" "length (vci_new_head_hash v) = 32"
    "length (vci_change_mac v) = 32" "length (vci_envelope_hash v) = 32"
    "nonblank (vi_key_id (vci_envelope v))" "nonblank (vi_crypto_version (vci_envelope v))"
  using assms by (auto simp: create_item_from_request_def and_then_Inr_iff validate_nonnegative_seq_def
      decoded_hash valid_envelope split: if_splits)

text \<open>The head sequence number of a consistent vault is the length of its log, so the next one is free.\<close>

lemma next_seq_free:
  assumes "vaults_ok d" and "v \<in> set (vaults d)"
    and "r \<in> set (vault_item_revisions d)" and "rv_vault_id r = va_id v"
  shows "rv_head_seq r \<le> va_head_seq v"
proof -
  have c: "chained (va_genesis_head_hash v) 0 (log_of (va_id v) d)" "va_head_seq v = int (length (log_of (va_id v) d))"
    using vaults_okD(3) [OF assms(1,2)] by (simp_all add: vault_consistent_def Let_def)
  have "r \<in> set (log_of (va_id v) d)" using assms(3,4) by (simp add: log_of_def)
  then obtain k where "k < length (log_of (va_id v) d)" "r = log_of (va_id v) d ! k" by (auto simp: in_set_conv_nth)
  with chained_nth_seq [OF c(1), of k] c(2) show ?thesis by simp
qed

lemma wrap_i64_small: "0 \<le> n \<Longrightarrow> n < 2 ^ 63 - 1 \<Longrightarrow> wrap_i64 (n + 1) = n + 1"
  by (simp add: wrap_i64_def)

text \<open>Once its revision is in, a write goes through to its answer.\<close>

lemma wp_finish_quiet:
  assumes "quiet e" and "w_txn w = Some (d, t)" and "account_exists d (cs_account_id c)" and "0 \<le> rs" and "0 \<le> hs"
    and "length hash = 32" and "list_ex (\<lambda>r. rv_vault_id r = v \<and> rv_item_id r = i \<and> rv_id r = rid) (vault_item_revisions d)"
    and "event \<noteq> None" and "nonblank (the event)"
  shows "wp e (finish_write c v i rid rs hs hash operation event now) (\<lambda>resp _. rs_status resp = 201) (\<lambda>_ _. False) w"
  using assms by (auto simp: wp_eqs quiet_def finish_write_def update_item_latest_def update_vault_head_def command_def
      set_item_latest_def set_vault_head_def constrained_def insert_audit_event_def insert_audit_def Let_def opt_all_def
      account_exists_def telemetry_defs counter_def no_store_json_def ok_or_def)

section \<open>Creating an item\<close>

lemma wp_item_quiet:
  assumes "quiet e" and "w_txn w = Some (d, t)" and "insert_item (new_item vid i t) d = Inr d'"
    and "\<And>w'. w_txn w' = Some (d', t) \<Longrightarrow> wp e k Q R w'"
  shows "wp e (or_conflict v (insert_item_row vid i) k) Q R w"
  using assms(1-3) by (auto simp: wp_eqs or_conflict_def insert_item_row_def quiet_def command_def Let_def intro!: assms(4))

lemma wp_revision_quiet:
  assumes "quiet e" and "w_txn w = Some (d, t)" and "insert_revision r d = Inr d'"
    and "\<And>w'. w_txn w' = Some (d', t) \<Longrightarrow> wp e k Q R w'"
  shows "wp e (or_conflict v (insert_revision_row r) k) Q R w"
  using assms(1-3) by (auto simp: wp_eqs or_conflict_def insert_revision_row_def quiet_def command_def Let_def intro!: assms(4))

lemma wp_quiet_refused:
  assumes "quiet e" and "w_txn w = Some (d, t)"
  shows "insert_item (new_item vid i t) d = Inl UniqueViolation \<Longrightarrow>
      wp e (or_conflict v (insert_item_row vid i) k) (\<lambda>resp _. rs_status resp = 409) R w"
    and "insert_revision r d = Inl UniqueViolation \<Longrightarrow>
      wp e (or_conflict v (insert_revision_row r) k) (\<lambda>resp _. rs_status resp = 409) R w"
  using assms by (simp_all add: wp_eqs or_conflict_def insert_item_row_def insert_revision_row_def quiet_def command_def
      Let_def write_error_def is_unique_violation_def vault_conflict_response_def no_store_json_def)

lemma create_checks:
  assumes "create_item_from_request X request = Inr v" and "vci_base_head_seq v < 2 ^ 63 - 1"
  shows "revision_checks (create_revision_input vid v (wrap_i64 (vci_base_head_seq v + 1)))"
  using valid_create [OF assms(1)] assms(2) by (simp add: revision_checks_def create_revision_input_def wrap_i64_small)

lemma insert_revision_free:
  assumes "revision_checks r" and "(rv_vault_id r, rv_item_id r) \<in> (\<lambda>i. (it_vault_id i, it_id i)) ` set (vault_items d)"
    and "\<And>q. q \<in> set (vault_item_revisions d) \<Longrightarrow> rv_vault_id q = rv_vault_id r \<Longrightarrow> rv_head_seq q \<noteq> rv_head_seq r"
    and "\<And>q. q \<in> set (vault_item_revisions d) \<Longrightarrow> rv_vault_id q = rv_vault_id r \<Longrightarrow> rv_item_id q = rv_item_id r \<Longrightarrow>
      rv_revision_seq q \<noteq> rv_revision_seq r"
  shows "insert_revision r d = (if rv_id r \<in> rv_id ` set (vault_item_revisions d) then Inl UniqueViolation
      else Inr (d\<lparr>vault_item_revisions := vault_item_revisions d @ [r]\<rparr>))"
proof -
  have "(rv_vault_id r, rv_head_seq r) \<notin> (\<lambda>q. (rv_vault_id q, rv_head_seq q)) ` set (vault_item_revisions d)"
    by (rule notI, erule imageE) (use assms(3) in \<open>metis prod.inject\<close>)
  moreover have "(rv_vault_id r, rv_item_id r, rv_revision_seq r)
      \<notin> (\<lambda>q. (rv_vault_id q, rv_item_id q, rv_revision_seq q)) ` set (vault_item_revisions d)"
    by (rule notI, erule imageE) (use assms(4) in \<open>metis prod.inject\<close>)
  ultimately show ?thesis by (simp add: insert_revision_def constrained_def assms(1,2))
qed

lemma create_inserts:
  fixes t :: time
  assumes "vaults_ok d" and "create_item_from_request X request = Inr v" and "vault_of a vid d = Some vt"
    and "va_head_seq vt < 2 ^ 63 - 1" and "vci_base_head_seq v = va_head_seq vt"
    and "vci_item_id v \<notin> it_id ` set (vault_items d)"
  defines "d1 \<equiv> d\<lparr>vault_items := vault_items d @ [new_item vid (vci_item_id v) t]\<rparr>"
  defines "r \<equiv> create_revision_input vid v (wrap_i64 (va_head_seq vt + 1))"
  shows "insert_item (new_item vid (vci_item_id v) t) d = Inr d1"
    and "insert_revision r d1 = (if vci_revision_id v \<in> rv_id ` set (vault_item_revisions d) then Inl UniqueViolation
      else Inr (d1\<lparr>vault_item_revisions := vault_item_revisions d @ [r]\<rparr>))"
proof -
  from find_Some_mem [OF assms(3) [unfolded vault_of_def]] have vt: "vt \<in> set (vaults d)" "va_id vt = vid" by auto
  then show "insert_item (new_item vid (vci_item_id v) t) d = Inr d1"
    using assms(6) by (auto simp: insert_item_def new_item_def d1_def)
  have checks: "revision_checks r"
    unfolding r_def using create_checks [OF assms(2)] assms(4,5) by simp
  have seq: "rv_head_seq r = va_head_seq vt + 1"
    using valid_create(1) [OF assms(2)] assms(4,5) by (simp add: r_def wrap_i64_small)
  have free: "rv_head_seq q \<noteq> rv_head_seq r" if "q \<in> set (vault_item_revisions d)" "rv_vault_id q = vid" for q
    using next_seq_free [OF assms(1) vt(1) that(1)] that(2) vt(2) seq by simp
  have other: "rv_item_id q \<noteq> vci_item_id v" if "q \<in> set (vault_item_revisions d)" for q
    using vaults_okD(6) [OF assms(1) that] assms(6) by (auto simp: revision_placed_def list_ex_iff intro: rev_image_eqI)
  show "insert_revision r d1 = (if vci_revision_id v \<in> rv_id ` set (vault_item_revisions d) then Inl UniqueViolation
      else Inr (d1\<lparr>vault_item_revisions := vault_item_revisions d @ [r]\<rparr>))"
    using insert_revision_free [of r d1] checks free other by (auto simp: r_def d1_def new_item_def)
qed

text \<open>The request names the head that the vault has, and new identifiers.\<close>

definition fresh_create :: "validated_create_item \<Rightarrow> vault_row \<Rightarrow> db \<Rightarrow> bool" where
  "fresh_create v vt d \<longleftrightarrow> vci_base_head_seq v = va_head_seq vt \<and> vci_base_head_hash v = va_head_hash vt
     \<and> vci_item_id v \<notin> it_id ` set (vault_items d) \<and> vci_revision_id v \<notin> rv_id ` set (vault_item_revisions d)"

lemma wp_create_stale:
  assumes "quiet e" and "w_txn w = Some (d, t)" and "vault_of (cs_account_id c) vid d = Some vt"
    and "vci_base_head_seq v \<noteq> va_head_seq vt \<or> vci_base_head_hash v \<noteq> va_head_hash vt"
  shows "wp e (create_item_tx c vid v now) (\<lambda>resp _. rs_status resp = 409) R w"
  using assms by (auto simp: create_item_tx_def wp_eqs lock_vault_head_def query_def quiet_def Let_def head_matches_def
      vault_head_from_row_def telemetry_defs counter_def vault_conflict_response_def no_store_json_def)

lemma wp_create_current:
  assumes "quiet e" and "w_txn w = Some (d, t)" and "vault_of (cs_account_id c) vid d = Some vt"
    and "vci_base_head_seq v = va_head_seq vt" and "vci_base_head_hash v = va_head_hash vt"
    and "\<And>w'. w_txn w' = Some (d, t) \<Longrightarrow> wp e (or_conflict (vault_head_from_row vt) (insert_item_row vid (vci_item_id v))
         (or_conflict (vault_head_from_row vt)
           (insert_revision_row (create_revision_input vid v (wrap_i64 (va_head_seq vt + 1))))
             (finish_write c vid (vci_item_id v) (vci_revision_id v) 1 (wrap_i64 (va_head_seq vt + 1))
               (vci_new_head_hash v) ''create'' (Some ''vault_item_created'') now))) Q R w'"
  shows "wp e (create_item_tx c vid v now) Q R w"
  using assms(1-5)
  by (auto simp: create_item_tx_def wp_eqs lock_vault_head_def query_def quiet_def Let_def head_matches_def
      vault_head_from_row_def intro!: assms(6) [unfolded vault_head_from_row_def, simplified])

lemma wp_create_fresh:
  assumes "quiet e" and "w_txn w = Some (d, t)" and "vaults_ok d" and "create_item_from_request X request = Inr v"
    and "vault_of (cs_account_id c) vid d = Some vt" and "va_head_seq vt < 2 ^ 63 - 1"
    and "account_exists d (cs_account_id c)" and "fresh_create v vt d"
  shows "wp e (create_item_tx c vid v now) (\<lambda>resp _. rs_status resp = 201) (\<lambda>_ _. False) w"
proof -
  let ?r = "create_revision_input vid v (wrap_i64 (va_head_seq vt + 1))"
  let ?d1 = "d\<lparr>vault_items := vault_items d @ [new_item vid (vci_item_id v) t]\<rparr>"
  let ?d2 = "?d1\<lparr>vault_item_revisions := vault_item_revisions d @ [?r]\<rparr>"
  from assms(8) have fresh: "vci_base_head_seq v = va_head_seq vt" "vci_base_head_hash v = va_head_hash vt"
    "vci_item_id v \<notin> it_id ` set (vault_items d)" "vci_revision_id v \<notin> rv_id ` set (vault_item_revisions d)"
    by (simp_all add: fresh_create_def)
  note ins = create_inserts [OF assms(3-6) fresh(1,3), of t]
  have rev: "insert_revision ?r ?d1 = Inr ?d2" using ins(2) fresh(4) by simp
  have seq: "0 \<le> va_head_seq vt" "wrap_i64 (va_head_seq vt + 1) = va_head_seq vt + 1"
    using valid_create(1) [OF assms(4)] assms(6) fresh(1) by (simp_all add: wrap_i64_small)
  have "wp e (finish_write c vid (vci_item_id v) (vci_revision_id v) 1 (wrap_i64 (va_head_seq vt + 1))
      (vci_new_head_hash v) ''create'' (Some ''vault_item_created'') now) (\<lambda>resp _. rs_status resp = 201) (\<lambda>_ _. False) w'"
    if "w_txn w' = Some (?d2, t)" for w'
    by (rule wp_finish_quiet [OF assms(1) that])
      (use assms(7) valid_create [OF assms(4)] seq in \<open>simp_all add: account_exists_def nonblank_def\<close>)
  then show ?thesis
    by (intro wp_create_current [OF assms(1,2,5) fresh(1,2)] wp_item_quiet [OF assms(1) _ ins(1)]
        wp_revision_quiet [OF assms(1) _ rev])
qed

lemma wp_create_taken:
  assumes "quiet e" and "w_txn w = Some (d, t)" and "vaults_ok d" and "create_item_from_request X request = Inr v"
    and "vault_of (cs_account_id c) vid d = Some vt" and "va_head_seq vt < 2 ^ 63 - 1" and "\<not> fresh_create v vt d"
  shows "wp e (create_item_tx c vid v now) (\<lambda>resp _. rs_status resp = 409) (\<lambda>_ _. False) w"
proof (cases "vci_base_head_seq v = va_head_seq vt \<and> vci_base_head_hash v = va_head_hash vt")
  case False
  then show ?thesis by (intro wp_create_stale [OF assms(1,2,5)]) simp
next
  case True
  then have head: "vci_base_head_seq v = va_head_seq vt" "vci_base_head_hash v = va_head_hash vt" by simp_all
  show ?thesis
  proof (cases "vci_item_id v \<in> it_id ` set (vault_items d)")
    case True
    then have "insert_item (new_item vid (vci_item_id v) t) d = Inl UniqueViolation"
      by (simp add: insert_item_def new_item_def)
    then show ?thesis
      by (intro wp_create_current [OF assms(1,2,5) head] wp_quiet_refused [OF assms(1)])
  next
    case item: False
    with assms(7) head have "vci_revision_id v \<in> rv_id ` set (vault_item_revisions d)" by (simp add: fresh_create_def)
    with create_inserts [OF assms(3-6) head(1) item, of t] show ?thesis
      by (intro wp_create_current [OF assms(1,2,5) head] wp_item_quiet [OF assms(1)] wp_quiet_refused [OF assms(1)]) auto
  qed
qed

section \<open>The whole writers\<close>

lemma session_account_exists:
  "system_ok d \<Longrightarrow> live_session d now s \<Longrightarrow> se_account_id s \<in> acc_id ` set (accounts d)"
  by (auto simp: system_ok_def rest_defs live_session_def)

lemma vaults_ok_sessions [simp]: "vaults_ok (d\<lparr>sessions := ss\<rparr>) = vaults_ok d"
  by (rule vaults_ok_tables) simp_all

lemma lookups_sessions [simp]:
  "vault_of a v (d\<lparr>sessions := ss\<rparr>) = vault_of a v d" "item_of v i (d\<lparr>sessions := ss\<rparr>) = item_of v i d"
  by (simp_all add: vault_of_def item_of_def)

text \<open>Both writers run the guards, read the request and the clock, and open the transaction.\<close>

lemma wp_writer_quiet:
  assumes "quiet e" and "system_ok (w_db w)"
    and "authorizes (ext e) h (clock e (w_tick w) div 1000000 * 1000000) s (w_db w)" and "parse (ext e) = Inr v"
    and "\<And>c ss w' t now. cs_account_id c = se_account_id s \<Longrightarrow> w_txn w' = Some ((w_db w)\<lparr>sessions := ss\<rparr>, t) \<Longrightarrow>
      account_exists ((w_db w)\<lparr>sessions := ss\<rparr>) (cs_account_id c) \<Longrightarrow> wp e (tx c v now) (\<lambda>resp _. Q resp) (\<lambda>_ _. False) w'"
  shows "\<exists>resp w'. handler (try_io (lift (ensure_unsafe_request_context h)) (\<lambda>_. try_io database_pool (\<lambda>_.
      try_io (require_vault_session h) (\<lambda>c. try_io (ensure_csrf_token h (cs_id c)) (\<lambda>_. try_io ask (\<lambda>e.
      try_io (lift (parse (ext e))) (\<lambda>r. try_io now_utc_second (\<lambda>now. try_io (unavailable begin_tx) (\<lambda>_.
      tx c r now)))))))) ) e w = (Inr resp, w') \<and> Q resp"
    (is "\<exists>resp w'. ?m e w = (Inr resp, w') \<and> _")
proof -
  have acc: "se_account_id s \<in> acc_id ` set (accounts (w_db w))"
    using session_account_exists [OF assms(2)] assms(3) by (auto simp: authorizes_def)
  have sess: "sessions_ok (w_db w)" using assms(2) by (simp add: system_ok_def)
  have "wp e ?m (\<lambda>resp _. Q resp) (\<lambda>_ _. False) w"
    unfolding wp_handler
    by (rule wp_write_guards [OF assms(1) sess assms(3)])
      (use assms(1) acc in \<open>auto simp: wp_eqs quiet_def assms(4) Let_def account_exists_def intro!: assms(5)\<close>)
  then show ?thesis by (auto elim: run_of_wp)
qed

text \<open>C10. While the database answers, an authorised and well-formed request to create an item in a vault of
  the account is never met with an error. It is accepted exactly when it names the current head and its
  item and revision identifiers are new, and is told about the conflict otherwise: no constraint of the
  schema stands in the way of a valid write, and no stale one gets through.\<close>

theorem create_item_accepted_iff:
  assumes "quiet e" and "system_ok (w_db w)"
    and "authorizes (ext e) h (clock e (w_tick w) div 1000000 * 1000000) s (w_db w)"
    and "create_item_from_request (ext e) request = Inr v"
    and "vault_of (se_account_id s) vault_id (w_db w) = Some vt" and "va_head_seq vt < 2 ^ 63 - 1"
  shows "\<exists>resp w'. create_item h vault_id request e w = (Inr resp, w')
    \<and> rs_status resp = (if fresh_create v vt (w_db w) then 201 else 409)"
  unfolding create_item_def
proof (rule wp_writer_quiet [OF assms(1-3)])
  fix c :: current_session and ss and w' :: world and t now
  assume c: "cs_account_id c = se_account_id s" and w': "w_txn w' = Some ((w_db w)\<lparr>sessions := ss\<rparr>, t)"
    and a: "account_exists ((w_db w)\<lparr>sessions := ss\<rparr>) (cs_account_id c)"
  let ?d = "(w_db w)\<lparr>sessions := ss\<rparr>"
  have ok: "vaults_ok ?d" "vault_of (cs_account_id c) vault_id ?d = Some vt" "fresh_create v vt ?d = fresh_create v vt (w_db w)"
    using assms(2,5) c by (simp_all add: system_ok_def fresh_create_def)
  show "wp e (create_item_tx c vault_id v now)
      (\<lambda>resp _. rs_status resp = (if fresh_create v vt (w_db w) then 201 else 409)) (\<lambda>_ _. False) w'"
    using wp_create_fresh [OF assms(1) w' ok(1) assms(4) ok(2) assms(6) a]
      wp_create_taken [OF assms(1) w' ok(1) assms(4) ok(2) assms(6)] ok(3) by simp
qed (rule assms(4))

section \<open>Revising an item\<close>

lemma valid_revision:
  assumes "create_revision_from_request X request = Inr v"
  shows "vcr_operation v = ''update'' \<or> vcr_operation v = ''delete''" "0 < vcr_base_revision_seq v"
    "0 \<le> vcr_base_head_seq v" "length (vcr_base_head_hash v) = 32" "length (vcr_new_head_hash v) = 32"
    "length (vcr_change_mac v) = 32" "length (vcr_envelope_hash v) = 32"
    "nonblank (vi_key_id (vcr_envelope v))" "nonblank (vi_crypto_version (vcr_envelope v))"
  using assms by (auto simp: create_revision_from_request_def and_then_Inr_iff validate_nonnegative_seq_def
      validate_positive_seq_def decoded_hash valid_envelope split: if_splits)

text \<open>The revision names the head of the vault and the latest revision of an item that is there, and has a
  new identifier.\<close>

definition fresh_revision :: "validated_create_revision \<Rightarrow> vault_row \<Rightarrow> item_row \<Rightarrow> db \<Rightarrow> bool" where
  "fresh_revision v vt it d \<longleftrightarrow> vcr_base_head_seq v = va_head_seq vt \<and> vcr_base_head_hash v = va_head_hash vt
     \<and> vcr_base_revision_seq v = it_latest_revision_seq it \<and> it_deleted_at it = None
     \<and> vcr_revision_id v \<notin> rv_id ` set (vault_item_revisions d)"

lemma revisions_from_nth: "revisions_from n rs \<Longrightarrow> k < length rs \<Longrightarrow> rv_revision_seq (rs ! k) = n + 1 + int k"
proof (induction rs arbitrary: n k)
  case (Cons r rs)
  then show ?case by (cases k) (auto simp: algebra_simps)
qed simp

text \<open>So is the next revision number of an item free, and no larger than the next head.\<close>

lemma next_revision_free:
  assumes "vaults_ok d" and "it \<in> set (vault_items d)"
  shows "r \<in> set (vault_item_revisions d) \<Longrightarrow> rv_vault_id r = it_vault_id it \<Longrightarrow> rv_item_id r = it_id it \<Longrightarrow>
      rv_revision_seq r \<le> it_latest_revision_seq it"
    and "vt \<in> set (vaults d) \<Longrightarrow> va_id vt = it_vault_id it \<Longrightarrow> it_latest_revision_seq it \<le> va_head_seq vt"
proof -
  let ?rs = "item_log (it_vault_id it) (it_id it) d"
  have rs: "revisions_from 0 ?rs" "it_latest_revision_seq it = int (length ?rs)"
    using vaults_okD(5) [OF assms] by (simp_all add: item_consistent_def Let_def)
  show "rv_revision_seq r \<le> it_latest_revision_seq it" if "r \<in> set (vault_item_revisions d)"
    "rv_vault_id r = it_vault_id it" "rv_item_id r = it_id it"
  proof -
    have "r \<in> set ?rs" using that by (simp add: item_log_def log_of_def)
    then obtain k where "k < length ?rs" "r = ?rs ! k" by (auto simp: in_set_conv_nth)
    with revisions_from_nth [OF rs(1), of k] rs(2) show ?thesis by simp
  qed
  show "it_latest_revision_seq it \<le> va_head_seq vt" if "vt \<in> set (vaults d)" "va_id vt = it_vault_id it"
    using vaults_okD(3) [OF assms(1) that(1)] that(2) rs(2)
    by (simp add: vault_consistent_def Let_def item_log_def)
qed

lemma revise_insert:
  assumes "vaults_ok d" and "create_revision_from_request X request = Inr v" and "vault_of a vid d = Some vt"
    and "va_head_seq vt < 2 ^ 63 - 1" and "item_of vid i d = Some it"
    and "vcr_base_head_seq v = va_head_seq vt" and "vcr_base_revision_seq v = it_latest_revision_seq it"
  defines "r \<equiv> revision_input vid i v (wrap_i64 (it_latest_revision_seq it + 1)) (wrap_i64 (va_head_seq vt + 1))"
  shows "insert_revision r d = (if vcr_revision_id v \<in> rv_id ` set (vault_item_revisions d) then Inl UniqueViolation
      else Inr (d\<lparr>vault_item_revisions := vault_item_revisions d @ [r]\<rparr>))"
    and "wrap_i64 (it_latest_revision_seq it + 1) = it_latest_revision_seq it + 1"
proof -
  from find_Some_mem [OF assms(3) [unfolded vault_of_def]] have vt: "vt \<in> set (vaults d)" "va_id vt = vid" by auto
  from find_Some_mem [OF assms(5) [unfolded item_of_def]] have it: "it \<in> set (vault_items d)" "it_vault_id it = vid" "it_id it = i"
    by auto
  note v = valid_revision [OF assms(2)]
  have le: "it_latest_revision_seq it \<le> va_head_seq vt"
    using next_revision_free(2) [OF assms(1) it(1) vt(1)] vt(2) it(2) by simp
  have wraps: "wrap_i64 (va_head_seq vt + 1) = va_head_seq vt + 1"
    "wrap_i64 (it_latest_revision_seq it + 1) = it_latest_revision_seq it + 1"
    using le v(2,3) assms(4,6,7) by (simp_all add: wrap_i64_small)
  then show "wrap_i64 (it_latest_revision_seq it + 1) = it_latest_revision_seq it + 1" by simp
  have checks: "revision_checks r"
    using v assms(6,7) wraps by (auto simp: revision_checks_def r_def revision_input_def)
  have "(rv_vault_id r, rv_item_id r) \<in> (\<lambda>i. (it_vault_id i, it_id i)) ` set (vault_items d)"
    using it by (auto simp: r_def intro: rev_image_eqI)
  with insert_revision_free [OF checks, of d] next_seq_free [OF assms(1) vt(1)] next_revision_free(1) [OF assms(1) it(1)]
  show "insert_revision r d = (if vcr_revision_id v \<in> rv_id ` set (vault_item_revisions d) then Inl UniqueViolation
      else Inr (d\<lparr>vault_item_revisions := vault_item_revisions d @ [r]\<rparr>))"
    by (force simp: r_def wraps vt(2) it(2,3))
qed

lemma wp_revise_stale:
  assumes "quiet e" and "w_txn w = Some (d, t)" and "vault_of (cs_account_id c) vid d = Some vt"
    and "item_of vid i d = Some it"
    and "vcr_base_head_seq v \<noteq> va_head_seq vt \<or> vcr_base_head_hash v \<noteq> va_head_hash vt
      \<or> vcr_base_revision_seq v \<noteq> it_latest_revision_seq it \<or> it_deleted_at it \<noteq> None"
  shows "wp e (create_item_revision_tx c vid i v now) (\<lambda>resp _. rs_status resp = 409) R w"
  using assms by (auto simp: create_item_revision_tx_def wp_eqs lock_vault_head_def lock_item_def query_def quiet_def
      Let_def head_matches_def vault_head_from_row_def telemetry_defs counter_def vault_conflict_response_def no_store_json_def)

lemma wp_revise_current:
  assumes "quiet e" and "w_txn w = Some (d, t)" and "vault_of (cs_account_id c) vid d = Some vt"
    and "item_of vid i d = Some it"
    and "vcr_base_head_seq v = va_head_seq vt" and "vcr_base_head_hash v = va_head_hash vt"
    and "vcr_base_revision_seq v = it_latest_revision_seq it" and "it_deleted_at it = None"
    and "\<And>w'. w_txn w' = Some (d, t) \<Longrightarrow> wp e (or_conflict (vault_head_from_row vt)
         (insert_revision_row (revision_input vid i v (wrap_i64 (it_latest_revision_seq it + 1)) (wrap_i64 (va_head_seq vt + 1))))
         (finish_write c vid i (vcr_revision_id v) (wrap_i64 (it_latest_revision_seq it + 1)) (wrap_i64 (va_head_seq vt + 1))
           (vcr_new_head_hash v) (vcr_operation v) (revision_event (vcr_operation v)) now)) Q R w'"
  shows "wp e (create_item_revision_tx c vid i v now) Q R w"
  using assms(1-8)
  by (auto simp: create_item_revision_tx_def wp_eqs lock_vault_head_def lock_item_def query_def quiet_def Let_def
      head_matches_def vault_head_from_row_def intro!: assms(9) [unfolded vault_head_from_row_def, simplified])

lemma wp_revise_quiet:
  assumes "quiet e" and "w_txn w = Some (d, t)" and "vaults_ok d" and "create_revision_from_request X request = Inr v"
    and "vault_of (cs_account_id c) vid d = Some vt" and "va_head_seq vt < 2 ^ 63 - 1" and "item_of vid i d = Some it"
    and "account_exists d (cs_account_id c)"
  shows "wp e (create_item_revision_tx c vid i v now)
    (\<lambda>resp _. rs_status resp = (if fresh_revision v vt it d then 201 else 409)) (\<lambda>_ _. False) w"
proof (cases "vcr_base_head_seq v = va_head_seq vt \<and> vcr_base_head_hash v = va_head_hash vt
    \<and> vcr_base_revision_seq v = it_latest_revision_seq it \<and> it_deleted_at it = None")
  case False
  then have "wp e (create_item_revision_tx c vid i v now) (\<lambda>resp _. rs_status resp = 409) (\<lambda>_ _. False) w"
    by (intro wp_revise_stale [OF assms(1,2,5,7)]) auto
  moreover have "\<not> fresh_revision v vt it d" using False by (auto simp: fresh_revision_def)
  ultimately show ?thesis by simp
next
  case True
  then have head: "vcr_base_head_seq v = va_head_seq vt" "vcr_base_head_hash v = va_head_hash vt"
    "vcr_base_revision_seq v = it_latest_revision_seq it" "it_deleted_at it = None" by simp_all
  note ins = revise_insert [OF assms(3-7) head(1,3)]
  note current = wp_revise_current [OF assms(1,2,5,7) head]
  show ?thesis
  proof (cases "vcr_revision_id v \<in> rv_id ` set (vault_item_revisions d)")
    case True
    then have "\<not> fresh_revision v vt it d" by (simp add: fresh_revision_def)
    with True ins(1) show ?thesis by (auto intro!: current wp_quiet_refused [OF assms(1)])
  next
    case False
    let ?r = "revision_input vid i v (wrap_i64 (it_latest_revision_seq it + 1)) (wrap_i64 (va_head_seq vt + 1))"
    let ?d = "d\<lparr>vault_item_revisions := vault_item_revisions d @ [?r]\<rparr>"
    from False ins(1) have rev: "insert_revision ?r d = Inr ?d" by simp
    have "wp e (finish_write c vid i (vcr_revision_id v) (wrap_i64 (it_latest_revision_seq it + 1))
        (wrap_i64 (va_head_seq vt + 1)) (vcr_new_head_hash v) (vcr_operation v) (revision_event (vcr_operation v)) now)
        (\<lambda>resp _. rs_status resp = 201) (\<lambda>_ _. False) w'" if "w_txn w' = Some (?d, t)" for w'
      by (rule wp_finish_quiet [OF assms(1) that])
        (use assms(6,8) valid_revision [OF assms(4)] head ins(2) wrap_i64_small [of "va_head_seq vt"] in
          \<open>auto simp: account_exists_def nonblank_def revision_event_def\<close>)
    moreover have "fresh_revision v vt it d" using head False by (simp add: fresh_revision_def)
    ultimately show ?thesis by (auto intro!: current wp_revision_quiet [OF assms(1) _ rev])
  qed
qed

text \<open>C11. The same for revising and deleting an item: an authorised and well-formed request on an item of
  the vault is accepted exactly when it names the current head and the current revision of the item, the
  item is not deleted, and the revision identifier is new; otherwise it is told about the conflict.\<close>

theorem create_item_revision_accepted_iff:
  assumes "quiet e" and "system_ok (w_db w)"
    and "authorizes (ext e) h (clock e (w_tick w) div 1000000 * 1000000) s (w_db w)"
    and "create_revision_from_request (ext e) request = Inr v"
    and "vault_of (se_account_id s) vault_id (w_db w) = Some vt" and "va_head_seq vt < 2 ^ 63 - 1"
    and "item_of vault_id item_id (w_db w) = Some it"
  shows "\<exists>resp w'. create_item_revision h vault_id item_id request e w = (Inr resp, w')
    \<and> rs_status resp = (if fresh_revision v vt it (w_db w) then 201 else 409)"
  unfolding create_item_revision_def
proof (rule wp_writer_quiet [OF assms(1-3)])
  fix c :: current_session and ss and w' :: world and t now
  assume c: "cs_account_id c = se_account_id s" and w': "w_txn w' = Some ((w_db w)\<lparr>sessions := ss\<rparr>, t)"
    and a: "account_exists ((w_db w)\<lparr>sessions := ss\<rparr>) (cs_account_id c)"
  let ?d = "(w_db w)\<lparr>sessions := ss\<rparr>"
  have ok: "vaults_ok ?d" "vault_of (cs_account_id c) vault_id ?d = Some vt" "item_of vault_id item_id ?d = Some it"
    "fresh_revision v vt it ?d = fresh_revision v vt it (w_db w)"
    using assms(2,5,7) c by (simp_all add: system_ok_def fresh_revision_def)
  show "wp e (create_item_revision_tx c vault_id item_id v now)
      (\<lambda>resp _. rs_status resp = (if fresh_revision v vt it (w_db w) then 201 else 409)) (\<lambda>_ _. False) w'"
    using wp_revise_quiet [OF assms(1) w' ok(1) assms(4) ok(2) assms(6) ok(3) a] ok(4) by simp
qed (rule assms(4))

section \<open>Witnesses\<close>

lemma sample_quiet: "quiet sample_env"
  by (simp add: quiet_def sample_env_def)

theorem create_item_accepted_iff_witness:
  "\<exists>v. create_item_from_request sample sample_create = Inr v \<and> fresh_create v sample_vault (vault_db sample_vault [])
    \<and> (\<exists>resp w'. create_item sample_headers 77 sample_create sample_env (world_of (vault_db sample_vault [])) = (Inr resp, w')
      \<and> rs_status resp = 201)"
proof -
  let ?w = "world_of (vault_db sample_vault [])" and ?s = "sample_session (seconds 2000)"
  obtain v where v: "create_item_from_request sample sample_create = Inr v" "fresh_create v sample_vault (vault_db sample_vault [])"
    by (simp add: create_item_from_request_def sample_create_def validate_nonnegative_seq_def sample_hash
        sample_item_envelope_valid fresh_create_def sample_vault_def vault_db_def empty_db_def del: hex_encode.simps)
  have auth: "authorizes (ext sample_env) sample_headers (clock sample_env (w_tick ?w) div 1000000 * 1000000) ?s (w_db ?w)"
    by (simp add: authorizes_def sample_context sample_headers_token sample_headers_csrf live_session_def
        device_revocation_def vault_db_def sample_session_def sha256_verifier_def seconds_def)
  from create_item_accepted_iff [OF sample_quiet _ auth _ _, of sample_create v 77 sample_vault] v sample_vault_ok
  show ?thesis by (auto simp: vault_of_def vault_db_def sample_session_def sample_vault_def)
qed

definition sample_created :: validated_create_item where
  "sample_created =
     \<lparr>vci_item_id = 5, vci_revision_id = 6, vci_base_head_seq = 0, vci_base_head_hash = replicate 32 3,
      vci_new_head_hash = replicate 32 4, vci_change_mac = replicate 32 5, vci_envelope_hash = replicate 32 6,
      vci_envelope = \<lparr>vi_value = item_envelope_json sample_item_envelope,
        vi_crypto_version = ITEM_ENVELOPE_CRYPTO_VERSION, vi_key_id = ''k''\<rparr>\<rparr>"

definition sample_written_vault :: vault_row where
  "sample_written_vault = sample_vault\<lparr>va_head_seq := 1, va_head_hash := replicate 32 4\<rparr>"

definition sample_written_db :: db where
  "sample_written_db = (vault_db sample_written_vault [sample_item])
     \<lparr>vault_item_revisions := [create_revision_input 77 sample_created 1]\<rparr>"

lemma sample_written_ok: "system_ok sample_written_db"
proof -
  have "revision_checks (create_revision_input 77 sample_created 1)"
    by (simp add: revision_checks_def create_revision_input_def sample_created_def nonblank_def ITEM_ENVELOPE_CRYPTO_VERSION_def)
  then have "vaults_ok sample_written_db"
    by (simp add: vaults_ok_def sample_written_db_def vault_db_def empty_db_def vault_consistent_def item_consistent_def
        log_of_def item_log_def sample_written_vault_def sample_vault_def sample_item_def new_item_def revision_placed_def
        create_revision_input_def sample_created_def tip_def)
  with sample_vault_ok show ?thesis
    by (simp add: system_ok_def sample_written_db_def vault_db_def empty_db_def sessions_ok_def unique_tokens_def rest_defs
        sample_written_vault_def sample_vault_def)
qed

theorem create_item_revision_accepted_iff_witness:
  "\<exists>v. create_revision_from_request sample sample_revise = Inr v
    \<and> fresh_revision v sample_written_vault sample_item sample_written_db
    \<and> (\<exists>resp w'. create_item_revision sample_headers 77 5 sample_revise sample_env (world_of sample_written_db) = (Inr resp, w')
      \<and> rs_status resp = 201)"
proof -
  let ?w = "world_of sample_written_db" and ?s = "sample_session (seconds 2000)"
  obtain v where v: "create_revision_from_request sample sample_revise = Inr v"
    "fresh_revision v sample_written_vault sample_item sample_written_db"
    by (simp add: create_revision_from_request_def sample_revise_def validate_nonnegative_seq_def validate_positive_seq_def
        sample_hash sample_item_envelope_valid fresh_revision_def sample_written_vault_def sample_vault_def
        sample_written_db_def vault_db_def empty_db_def sample_item_def new_item_def sample_created_def del: hex_encode.simps)
  have auth: "authorizes (ext sample_env) sample_headers (clock sample_env (w_tick ?w) div 1000000 * 1000000) ?s (w_db ?w)"
    by (simp add: authorizes_def sample_context sample_headers_token sample_headers_csrf live_session_def
        device_revocation_def sample_written_db_def vault_db_def sample_session_def sha256_verifier_def seconds_def)
  have found: "vault_of (se_account_id ?s) 77 (w_db ?w) = Some sample_written_vault" "item_of 77 5 (w_db ?w) = Some sample_item"
    by (simp_all add: vault_of_def item_of_def sample_written_db_def vault_db_def sample_session_def
        sample_written_vault_def sample_vault_def sample_item_def new_item_def)
  from create_item_revision_accepted_iff [OF sample_quiet _ auth _ found(1) _ found(2), of sample_revise v] v sample_written_ok
  show ?thesis by (auto simp: sample_written_vault_def)
qed

end
