(* ===== verification/PV_Honest.thy ===== *)
theory PV_Honest
  imports PV_Progress
begin

text \<open>
  The honest client. A client that knows the secret behind the verifier of its account, and follows the
  protocol over \<open>login_start\<close> and \<open>login_finish\<close> while the database answers, is let in.
\<close>

section \<open>A service that answers\<close>

text \<open>The database answers, the keys are configured, all clock readings from the moment \<open>t\<close> on lie within the
  life of a challenge, the times of the answers can be formatted, and the session cookie is a valid header
  value.\<close>

definition dependable :: "env \<Rightarrow> time \<Rightarrow> bool" where
  "dependable e t \<longleftrightarrow> quiet e \<and> cf_synthetic_metadata_key (conf e) \<noteq> None
     \<and> (\<forall>n. t \<le> clock e n \<and> clock e n \<le> t + LOGIN_CHALLENGE_TTL)
     \<and> (\<forall>u. t - seconds 1 \<le> u \<and> u \<le> t + hours 24 \<longrightarrow> rfc3339 (ext e) u \<noteq> None)
     \<and> (\<forall>tok. header_value_ok (ext e) (session_cookie (ext e) tok))"

text \<open>The random source draws new identifiers and tokens at the positions \<open>N\<close> of its stream.\<close>

definition fresh_draws :: "env \<Rightarrow> nat set \<Rightarrow> db \<Rightarrow> bool" where
  "fresh_draws e N d \<longleftrightarrow> inj_on (fresh_uuid e) N
     \<and> (\<forall>n \<in> N. fresh_uuid e n \<notin> ch_id ` set (auth_challenges d) \<union> dev_id ` set (devices d) \<union> se_id ` set (sessions d)
        \<and> sha256_verifier (ext e) (map (draw e n) [0..<TOKEN_LEN]) \<notin> se_session_token_hash ` set (sessions d))"

lemma fresh_drawsD:
  assumes "fresh_draws e N d" and "n \<in> N"
  shows "fresh_uuid e n \<notin> ch_id ` set (auth_challenges d)" "fresh_uuid e n \<notin> dev_id ` set (devices d)"
    "fresh_uuid e n \<notin> se_id ` set (sessions d)"
    "sha256_verifier (ext e) (map (draw e n) [0..<TOKEN_LEN]) \<notin> se_session_token_hash ` set (sessions d)"
  using assms unfolding fresh_draws_def by blast+

lemma trunc_bounds: "(c :: int) div 1000000 * 1000000 \<le> c" "c - 1000000 < c div 1000000 * 1000000"
  by presburger+

lemma dependable_formats:
  assumes "dependable e t" and "0 \<le> k" and "k \<le> hours 12"
  obtains F where "\<And>n. rfc3339 (ext e) (clock e n div 1000000 * 1000000 + k) = Some (F n)"
proof -
  have "\<exists>y. rfc3339 (ext e) (clock e n div 1000000 * 1000000 + k) = Some y" for n
  proof -
    let ?u = "clock e n div 1000000 * 1000000 + k"
    have "t \<le> clock e n" "clock e n \<le> t + LOGIN_CHALLENGE_TTL" using assms(1) by (simp_all add: dependable_def)
    then have "t - seconds 1 \<le> ?u \<and> ?u \<le> t + hours 24"
      using trunc_bounds [of "clock e n"] assms(2,3) by (simp add: seconds_def LOGIN_CHALLENGE_TTL_def minutes_def hours_def)
    with assms(1) have "rfc3339 (ext e) ?u \<noteq> None" unfolding dependable_def by blast
    then show ?thesis by blast
  qed
  then have "\<exists>F. \<forall>n. rfc3339 (ext e) (clock e n div 1000000 * 1000000 + k) = Some (F n)" by (intro choice allI)
  with that show thesis by blast
qed

section \<open>Starting\<close>

text \<open>What the start of a login leaves behind for an account: an open challenge that carries what the answer
  tells the client.\<close>

definition login_pending :: "externals \<Rightarrow> account_row \<Rightarrow> bytes \<Rightarrow> time \<Rightarrow> login_start_response \<Rightarrow> db \<Rightarrow> bool" where
  "login_pending X a cn t r d \<longleftrightarrow>
     (\<exists>c sn m. c \<in> set (auth_challenges d) \<and> ch_id c = lr_login_challenge_id r
       \<and> ch_challenge_type c = ''login'' \<and> ch_auth_protocol c = AUTH_PROTOCOL \<and> ch_consumed_at c = None
       \<and> ch_account_id c = Some (acc_id a) \<and> ch_login_handle_normalized c = acc_login_handle_normalized a
       \<and> ch_server_nonce c = sn \<and> length sn = SERVER_NONCE_BYTES \<and> t \<le> ch_expires_at c
       \<and> ch_public_metadata c = login_metadata_json m \<and> lm_client_nonce m = encode_base64url X cn
       \<and> lm_server_nonce m = encode_base64url X sn \<and> lm_auth_verifier_profile m = PROFILE_ID
       \<and> lm_auth_verifier_iterations m = DEFAULT_ITERATIONS \<and> \<not> lm_synthetic m
       \<and> lr_server_nonce r = encode_base64url X sn
       \<and> lr_auth_verifier_salt r = encode_base64url X (acc_auth_verifier_salt a)
       \<and> lr_auth_verifier_iterations r = DEFAULT_ITERATIONS)"

lemma count_where_mono:
  assumes "\<And>x. P x \<Longrightarrow> Q x"
  shows "count_where P (delete_where D xs) \<le> count_where Q xs"
  unfolding count_where_def delete_where_def
  by (induction xs) (auto intro: le_SucI dest: assms)

lemma account_found:
  assumes "system_ok d" and "a \<in> set (accounts d)"
  shows "account_by_handle (acc_login_handle_normalized a) d = Some a" and "account_checks a"
proof -
  show "account_by_handle (acc_login_handle_normalized a) d = Some a"
    unfolding account_by_handle_def
    by (rule find_unique [of acc_login_handle_normalized]) (use assms in \<open>auto simp: system_ok_def rest_defs\<close>)
  show "account_checks a" using assms by (auto simp: system_ok_def rest_defs list_all_iff)
qed

text \<open>The metadata of an account passes the checks of \<open>load_login_metadata\<close>.\<close>

lemma wp_load_known:
  assumes "quiet e" and "account_by_handle h (w_db w) = Some a" and "account_checks a"
    and "Q (Some \<lparr>lo_account_id = Some (acc_id a), lo_kdf_profile = acc_kdf_profile a, lo_account_salt = acc_account_salt a,
      lo_auth_verifier_salt = acc_auth_verifier_salt a, lo_auth_verifier_iterations = DEFAULT_ITERATIONS\<rparr>)
      (w\<lparr>w_tick := w_tick w + 1\<rparr>)"
  shows "wp e (load_login_metadata h) Q R w"
  using assms
  by (simp add: load_login_metadata_def wp_eqs query_def quiet_def Let_def account_checks_def DEFAULT_SALT_BYTES_def
      DEFAULT_ITERATIONS_def kdf_profile)

lemma wp_limit_passed:
  assumes "quiet e" and "recent_challenges h k (clock e (w_tick w) div 1000000 * 1000000 - AUTH_CHALLENGE_RATE_LIMIT_WINDOW)
      (w_db w) < AUTH_CHALLENGE_RATE_LIMIT"
    and "Q () (w\<lparr>w_tick := w_tick w + 2\<rparr>)"
  shows "wp e (enforce_challenge_rate_limit h k) Q R w"
  using assms
  by (simp add: enforce_challenge_rate_limit_def recent_challenges_def wp_eqs query_def quiet_def Let_def)

lemma recent_mono:
  assumes "since' \<le> since" and "recent_challenges h k since' d < n"
  shows "recent_challenges h k since (drop_expired_challenges u d) < n"
proof -
  have "recent_challenges h k since (drop_expired_challenges u d) \<le> recent_challenges h k since' d"
    unfolding recent_challenges_def drop_expired_challenges_def using assms(1) by (auto intro: count_where_mono)
  with assms(2) show ?thesis by simp
qed

text \<open>The database after the start: expired challenges are gone, and the new one is there.\<close>

definition challenge_added :: "env \<Rightarrow> world \<Rightarrow> world \<Rightarrow> bool" where
  "challenge_added e w w' \<longleftrightarrow> w_txn w' = None
     \<and> (\<exists>n. w_tick w \<le> n \<and> n < w_tick w' \<and> w_tick w' \<le> w_tick w + 16
        \<and> ch_id ` set (auth_challenges (w_db w')) \<subseteq> insert (fresh_uuid e n) (ch_id ` set (auth_challenges (w_db w))))
     \<and> w_db w' = (w_db w)\<lparr>auth_challenges := auth_challenges (w_db w')\<rparr>"

definition login_start_of :: "externals \<Rightarrow> string \<Rightarrow> bytes \<Rightarrow> login_start_request" where
  "login_start_of X handle cn =
     \<lparr>ls_login_handle = handle, ls_auth_protocol = AUTH_PROTOCOL, ls_client_nonce = encode_base64url X cn\<rparr>"

lemma wp_login_start_known:
  assumes "dependable e t" and "system_ok (w_db w)" and "w_txn w = None" and "a \<in> set (accounts (w_db w))"
    and "normalize_login_handle handle = Inr (acc_login_handle_normalized a)"
    and "base64url_roundtrip (ext e)" and "length cn = CLIENT_NONCE_BYTES"
    and "fresh_draws e {w_tick w..<w_tick w + 32} (w_db w)"
    and "recent_challenges (acc_login_handle_normalized a) ''login'' (t - seconds 1 - AUTH_CHALLENGE_RATE_LIMIT_WINDOW) (w_db w)
      < AUTH_CHALLENGE_RATE_LIMIT"
  shows "wp e (login_start (login_start_of (ext e) handle cn))
    (\<lambda>resp w'. login_pending (ext e) a cn (t div 1000000 * 1000000 + LOGIN_CHALLENGE_TTL) (rs_body resp) (w_db w') \<and> challenge_added e w w')
    (\<lambda>_ _. False) w"
proof -
  have q: "quiet e" using assms(1) by (simp add: dependable_def)
  have db: "cf_database (conf e)" "\<And>n. fault_at e n = Fine" using q by (simp_all add: quiet_def)
  obtain key where key: "cf_synthetic_metadata_key (conf e) = Some key" using assms(1) by (auto simp: dependable_def)
  have nonce: "decode_base64url_array (ext e) CLIENT_NONCE_BYTES (encode_base64url (ext e) cn) = Inr cn"
    using assms(7) by (simp add: decode_encode [OF assms(6)])
  note a = account_found [OF assms(2,4)]
  let ?h = "acc_login_handle_normalized a"
  have times: "t \<le> clock e n" "clock e n \<le> t + LOGIN_CHALLENGE_TTL" for n using assms(1) by (simp_all add: dependable_def)
  have limit: "recent_challenges ?h ''login'' (clock e n div 1000000 * 1000000 - AUTH_CHALLENGE_RATE_LIMIT_WINDOW)
      (drop_expired_challenges u (w_db w)) < AUTH_CHALLENGE_RATE_LIMIT" for n u
    by (rule recent_mono [OF _ assms(9)]) (use times(1) [of n] trunc_bounds(2) [of "clock e n"] in \<open>simp add: seconds_def\<close>)
  obtain F where F: "\<And>n. rfc3339 (ext e) (clock e n div 1000000 * 1000000 + LOGIN_CHALLENGE_TTL) = Some (F n)"
    by (rule dependable_formats [OF assms(1), of LOGIN_CHALLENGE_TTL]) (auto simp: LOGIN_CHALLENGE_TTL_def minutes_def seconds_def hours_def)
  have later: "t div 1000000 \<le> clock e n div 1000000" for n
    using times(1) [of n] by (simp add: zdiv_mono1)
  have new: "fresh_uuid e n \<notin> ch_id ` set (auth_challenges (drop_expired_challenges u (w_db w)))"
    if "w_tick w \<le> n" "n < w_tick w + 32" for n u
    using assms(8) that by (auto simp: fresh_draws_def drop_expired_challenges_def set_delete_where)
  have typed: "nonblank ?h" using a(2) by (simp add: account_checks_def)
  have exists: "account_exists (drop_expired_challenges u (w_db w)) (acc_id a)" for u
    using assms(4) by (simp add: account_exists_def drop_expired_challenges_def)
  have fmt: "\<exists>s. rfc3339 (ext e) (clock e n div 1000000 * 1000000 + LOGIN_CHALLENGE_TTL) = Some s" for n
    by (rule dependable_formats [OF assms(1), of LOGIN_CHALLENGE_TTL]) (auto simp: LOGIN_CHALLENGE_TTL_def minutes_def seconds_def hours_def)
  show ?thesis
    unfolding login_start_def login_start_of_def wp_handler
    apply (simp add: wp_eqs db ensure_supported_protocol_def key assms(5) nonce cleanup_expired_challenges_def command_def Let_def)
    apply (rule wp_limit_passed [OF q])
     apply (simp add: limit)
    apply (simp add: wp_eqs)
    apply (rule wp_load_known [OF q _ a(2)])
     apply (simp add: a(1))
    apply (simp add: wp_eqs db Let_def insert_auth_challenge_def insert_challenge_stmt_def command_def telemetry_defs
        insert_challenge_def challenge_of_def new exists typed opt_all_def SERVER_NONCE_BYTES_def AUTH_PROTOCOL_def constrained_def F
        no_store_json_def)
    apply (rule conjI)
     apply (simp add: login_pending_def ex_disj_distrib conj_disj_distribR)
     apply (rule disjI1)
     apply (use times trunc_bounds in \<open>auto simp: AUTH_PROTOCOL_def SERVER_NONCE_BYTES_def seconds_def intro: later\<close>)[1]
    apply (unfold challenge_added_def)
    apply (rule conjI, simp)
    apply (rule conjI)
     apply (rule exI [of _ "Suc (Suc (Suc (Suc (w_tick w))))"])
     apply (auto simp: drop_expired_challenges_def set_delete_where)
    done
qed

section \<open>New sessions and second-factor challenges\<close>

definition valid_device :: "validated_device \<Rightarrow> bool" where
  "valid_device dv \<longleftrightarrow> nonblank (vd_label dv) \<and> is_object (vd_public_metadata dv)
     \<and> vd_client_type dv \<in> {''browser'', ''browser-extension'', ''ios'', ''android'', ''cli''}"

lemma valid_device_request: "device_from_parts X l k m = Inr dv \<Longrightarrow> valid_device dv"
  by (auto simp: device_from_parts_def and_then_Inr_iff validate_short_text_def Let_def valid_device_def
      nonblank_trim split: if_splits)

lemma device_just_added:
  "i \<notin> dev_id ` set (devices d) \<Longrightarrow> dev_id r = i \<Longrightarrow> dev_account_id r = a \<Longrightarrow>
     device_of (d\<lparr>devices := devices d @ [r]\<rparr>) a i = Some r"
proof -
  assume new: "i \<notin> dev_id ` set (devices d)" "dev_id r = i" "dev_account_id r = a"
  have "find (\<lambda>v. dev_account_id v = a \<and> dev_id v = i) (devices d) = None"
    using new(1) by (auto simp: find_None_iff)
  then show ?thesis by (simp add: device_of_def find_append_right new(2,3))
qed

lemma wp_session_quiet:
  assumes "quiet e" and "w_txn w = Some (d, t)" and "account_exists d a" and "valid_device dv"
    and "state \<in> {''mfa_enrollment_required'', ''mfa_recovery'', ''mfa_verified''}" and "sha256_is_32_bytes (ext e)"
    and "fresh_draws e N d" and "{w_tick w..w_tick w + 2} \<subseteq> N"
    and "\<And>w' d' i tok. w_txn w' = Some (d', t) \<Longrightarrow> w_tick w' = w_tick w + 5 \<Longrightarrow> w_db w' = w_db w \<Longrightarrow>
      accounts d' = accounts d \<Longrightarrow> auth_challenges d' = auth_challenges d \<Longrightarrow>
      Q (i, tok, now + SESSION_IDLE_TTL, now + SESSION_ABSOLUTE_TTL) w'"
  shows "wp e (create_session_with_device a dv state now) Q R w"
proof -
  have db: "\<And>n. fault_at e n = Fine" using assms(1) by (simp add: quiet_def)
  have N: "w_tick w \<in> N" "Suc (w_tick w) \<in> N" "Suc (Suc (w_tick w)) \<in> N" using assms(8) by auto
  note dev = fresh_drawsD(2) [OF assms(7) N(1)] and ses = fresh_drawsD(3) [OF assms(7) N(2)]
    and tok = fresh_drawsD(4) [OF assms(7) N(3)]
  have len: "length (sha256_verifier (ext e) m) = 32" for m
    using assms(6) by (simp add: sha256_verifier_def sha256_is_32_bytes_def)
  have le: "now + SESSION_IDLE_TTL \<le> now + SESSION_ABSOLUTE_TTL"
    by (simp add: SESSION_IDLE_TTL_def SESSION_ABSOLUTE_TTL_def minutes_def hours_def seconds_def)
  let ?i = "fresh_uuid e (w_tick w)" and ?k = "sha256_verifier (ext e) (map (draw e (Suc (Suc (w_tick w)))) [0..<TOKEN_LEN])"
  obtain v where v: "new_device ?i a dv (Some now) d = Inr (d\<lparr>devices := devices d @ [v]\<rparr>)" "dev_id v = ?i" "dev_account_id v = a"
    using assms(3,4) dev by (simp add: new_device_def insert_device_def valid_device_def constrained_def)
  have "device_of (d\<lparr>devices := devices d @ [v]\<rparr>) a ?i = Some v"
    by (rule device_just_added [OF dev v(2,3)])
  then obtain s where s: "new_session (fresh_uuid e (Suc (w_tick w))) a ?i ?k state (now + SESSION_IDLE_TTL)
      (now + SESSION_ABSOLUTE_TTL) (Some now) (d\<lparr>devices := devices d @ [v]\<rparr>)
      = Inr (d\<lparr>devices := devices d @ [v], sessions := sessions d @ [s]\<rparr>)"
    using assms(3,5) ses tok len le
    by (simp add: new_session_def insert_session_def session_checks_def opt_all_def account_exists_def constrained_def)
  show ?thesis
    unfolding create_session_with_device_def random_token_def
    by (simp add: wp_eqs assms(2) db Let_def command_def v(1) s) (rule assms(9) [where d' = "d\<lparr>devices := devices d @ [v], sessions := sessions d @ [s]\<rparr>"], simp_all)
qed

text \<open>A second factor is asked for with a new challenge that carries the device of the login.\<close>

definition mfa_pending :: "externals \<Rightarrow> uuid \<Rightarrow> validated_device \<Rightarrow> time \<Rightarrow> uuid \<Rightarrow> db \<Rightarrow> bool" where
  "mfa_pending X a dv t i d \<longleftrightarrow>
     (\<exists>c j. c \<in> set (auth_challenges d) \<and> ch_id c = i \<and> ch_challenge_type c = ''pre_mfa''
       \<and> ch_auth_protocol c = AUTH_PROTOCOL \<and> ch_consumed_at c = None \<and> t \<le> ch_expires_at c
       \<and> ch_account_id c = Some a \<and> ch_attempts c = 0
       \<and> ch_public_metadata c = pre_mfa_metadata_json X \<lparr>pm_login_challenge_id = j, pm_device = from_validated dv\<rparr>)"

definition mfa_asked :: "login_finish_response \<Rightarrow> uuid \<Rightarrow> bool" where
  "mfa_asked body i \<longleftrightarrow> (\<exists>x. body = MfaChallenge ''mfa_required'' i [''totp'', ''recovery_code''] x)"

lemma wp_issue_mfa_quiet:
  assumes "dependable e u" and "w_txn w = Some (d, t)" and "account_exists d a" and "nonblank h"
    and "fresh_uuid e (w_tick w) \<notin> ch_id ` set (auth_challenges d)" and "now = clock e n div 1000000 * 1000000"
  shows "wp e (issue_mfa_challenge i a h dv now)
    (\<lambda>resp w'. mfa_asked (rs_body resp) (fresh_uuid e (w_tick w)) \<and> w_tick w' \<le> w_tick w + 8
      \<and> mfa_pending (ext e) a dv (now + LOGIN_CHALLENGE_TTL) (fresh_uuid e (w_tick w)) (w_db w')
      \<and> (\<exists>cs xs. w_db w' = d\<lparr>auth_challenges := cs, audit_events := xs\<rparr>)) (\<lambda>_ _. False) w"
proof -
  have q: "\<And>n. fault_at e n = Fine" using assms(1) by (simp add: dependable_def quiet_def)
  obtain x where x: "rfc3339 (ext e) (now + LOGIN_CHALLENGE_TTL) = Some x"
    unfolding assms(6)
    by (rule dependable_formats [OF assms(1), of LOGIN_CHALLENGE_TTL]) (auto simp: LOGIN_CHALLENGE_TTL_def minutes_def seconds_def hours_def)
  let ?c = "challenge_of \<lparr>ic_id = fresh_uuid e (w_tick w), ic_account_id = Some a, ic_login_handle_normalized = h,
      ic_challenge_type = ''pre_mfa'', ic_server_nonce = map (draw e (Suc (w_tick w))) [0..<SERVER_NONCE_BYTES],
      ic_public_metadata = pre_mfa_metadata_json (ext e) \<lparr>pm_login_challenge_id = i, pm_device = from_validated dv\<rparr>,
      ic_expires_at = now + LOGIN_CHALLENGE_TTL\<rparr> t"
  have ins: "insert_challenge ?c d = Inr (d\<lparr>auth_challenges := auth_challenges d @ [?c]\<rparr>)"
    using assms(3-5) by (simp add: insert_challenge_def challenge_of_def SERVER_NONCE_BYTES_def AUTH_PROTOCOL_def opt_all_def)
  have pending: "mfa_pending (ext e) a dv (now + LOGIN_CHALLENGE_TTL) (fresh_uuid e (w_tick w))
      (d\<lparr>auth_challenges := auth_challenges d @ [?c], audit_events := xs\<rparr>)" for xs
    unfolding mfa_pending_def by (rule exI [of _ ?c], rule exI [of _ i]) (simp add: challenge_of_def)
  show ?thesis
    unfolding issue_mfa_challenge_def
    using assms(3) by (simp add: wp_eqs assms(2) q Let_def insert_auth_challenge_tx_def insert_challenge_stmt_def command_def ins
        insert_audit_event_def insert_audit_def constrained_def nonblank_def opt_all_def account_exists_def telemetry_defs x
        no_store_json_def mfa_asked_def pending)
      auto
qed

lemma wp_audit_quiet:
  assumes "quiet e" and "w_txn w = Some (d, t)" and "account_exists d a" and "nonblank ev"
    and "\<And>xs w'. w_txn w' = Some (d\<lparr>audit_events := xs\<rparr>, t) \<Longrightarrow> w_tick w' = w_tick w + 1 \<Longrightarrow> Q () w'"
  shows "wp e (insert_audit_event a i ev m) Q R w"
  using assms(1-4)
  by (simp add: insert_audit_event_def wp_eqs quiet_def command_def insert_audit_def constrained_def opt_all_def Let_def)
    (rule assms(5), simp_all)

lemma session_times_format:
  assumes "dependable e u" and "now = clock e n div 1000000 * 1000000"
  obtains x y where "rfc3339 (ext e) (now + SESSION_IDLE_TTL) = Some x" "rfc3339 (ext e) (now + SESSION_ABSOLUTE_TTL) = Some y"
proof -
  obtain x where "rfc3339 (ext e) (now + SESSION_IDLE_TTL) = Some x"
    unfolding assms(2)
    by (rule dependable_formats [OF assms(1), of SESSION_IDLE_TTL]) (auto simp: SESSION_IDLE_TTL_def minutes_def seconds_def hours_def)
  moreover obtain y where "rfc3339 (ext e) (now + SESSION_ABSOLUTE_TTL) = Some y"
    unfolding assms(2)
    by (rule dependable_formats [OF assms(1), of SESSION_ABSOLUTE_TTL]) (auto simp: SESSION_ABSOLUTE_TTL_def minutes_def seconds_def hours_def)
  ultimately show thesis by (rule that)
qed

definition session_granted :: "externals \<Rightarrow> string \<Rightarrow> bool \<Rightarrow> session_response \<Rightarrow> string option \<Rightarrow> bool" where
  "session_granted X state access s cookie \<longleftrightarrow> sr_state s = state \<and> sr_vault_access s = access
     \<and> (\<exists>tok. cookie = Some (session_cookie X tok))"

definition enrolment_opened :: "externals \<Rightarrow> login_finish_response response \<Rightarrow> bool" where
  "enrolment_opened X resp \<longleftrightarrow> (\<exists>s. rs_body resp = SessionCreated ''session_created'' s ''enroll_totp''
     \<and> session_granted X ''mfa_enrollment_required'' False s (rs_set_cookie resp))"

lemma wp_setup_quiet:
  assumes "dependable e u" and "w_txn w = Some (d, t)" and "account_exists d a" and "valid_device dv"
    and "sha256_is_32_bytes (ext e)" and "fresh_draws e N d" and "{w_tick w..w_tick w + 2} \<subseteq> N"
    and "now = clock e n div 1000000 * 1000000"
  shows "wp e (create_setup_session a dv now) (\<lambda>resp _. enrolment_opened (ext e) resp) (\<lambda>_ _. False) w"
proof -
  have q: "quiet e" "\<And>n. fault_at e n = Fine" using assms(1) by (simp_all add: dependable_def quiet_def)
  obtain x y where times: "rfc3339 (ext e) (now + SESSION_IDLE_TTL) = Some x" "rfc3339 (ext e) (now + SESSION_ABSOLUTE_TTL) = Some y"
    by (rule session_times_format [OF assms(1,8)])
  have header: "header_value_ok (ext e) (session_cookie (ext e) tok)" for tok using assms(1) by (simp add: dependable_def)
  show ?thesis
    unfolding create_setup_session_def wp_try wp_ask
    apply (rule wp_session_quiet [OF q(1) assms(2,3,4) _ assms(5-7)], simp)
    apply (unfold prod.case wp_try)
    apply (rule wp_audit_quiet [OF q(1)], assumption)
    apply (use assms(3) in \<open>simp_all add: account_exists_def nonblank_def wp_eqs q(2) telemetry_defs times header Let_def
        no_store_json_def enrolment_opened_def session_granted_def\<close>)
    apply blast
    done
qed

section \<open>Finishing\<close>

text \<open>What the client sends after the start: the proof over the transcript, computed from its secret and
  the salt, iteration count and nonce of the answer.\<close>

definition client_finish ::
  "externals \<Rightarrow> bytes \<Rightarrow> string \<Rightarrow> bytes \<Rightarrow> bytes \<Rightarrow> device_request \<Rightarrow> login_start_response \<Rightarrow> login_finish_request option" where
  "client_finish X secret handle cn cf dev r =
     (case (decode_base64url_array X DEFAULT_SALT_BYTES (lr_auth_verifier_salt r),
            decode_base64url_array X SERVER_NONCE_BYTES (lr_server_nonce r)) of
        (Inr salt, Inr sn) \<Rightarrow>
          map_option (\<lambda>p. \<lparr>lf_login_challenge_id = lr_login_challenge_id r, lf_auth_protocol = AUTH_PROTOCOL,
              lf_client_nonce = encode_base64url X cn, lf_server_nonce = lr_server_nonce r,
              lf_client_final_without_proof = encode_base64url X cf, lf_client_proof = encode_base64url X p, lf_device = dev\<rparr>)
            (ok (client_proof X secret salt (lr_auth_verifier_iterations r) (login_auth_message X
              \<lparr>la_challenge_id = lr_login_challenge_id r, la_auth_protocol = AUTH_PROTOCOL,
               la_login_handle_normalized = handle, la_client_nonce = cn, la_server_nonce = sn,
               la_client_final_without_proof = cf\<rparr>)))
      | _ \<Rightarrow> None)"

text \<open>The secret is the one behind the verifier that the account stores.\<close>

definition knows_secret :: "externals \<Rightarrow> bytes \<Rightarrow> account_row \<Rightarrow> bool" where
  "knows_secret X secret a \<longleftrightarrow> acc_auth_protocol a = AUTH_PROTOCOL \<and> (\<exists>v. derive_verifier X secret (acc_auth_verifier_salt a) DEFAULT_ITERATIONS = Inr v
     \<and> acc_auth_stored_key a = sv_stored_key v)"

text \<open>The parts of the database that matter to the login.\<close>

definition login_base :: "db \<Rightarrow> account_row \<Rightarrow> bool" where
  "login_base d a \<longleftrightarrow> distinct (map acc_id (accounts d)) \<and> distinct (map ch_id (auth_challenges d))
     \<and> a \<in> set (accounts d) \<and> account_checks a \<and> acc_auth_protocol a = AUTH_PROTOCOL"

lemma wp_proof_quiet:
  assumes "quiet e" and "w_txn w = Some (d, t)" and "login_base d a"
    and "verify_client_proof (ext e) (acc_auth_stored_key a) msg p = Inr True" and "\<not> lm_synthetic m"
    and "\<And>w'. w_txn w' = Some (d, t) \<Longrightarrow> w_tick w' = w_tick w + 1 \<Longrightarrow> Q True w'"
  shows "wp e (check_login_proof (Some (acc_id a)) m (acc_login_handle_normalized a) msg p) Q R w"
proof -
  have "find (\<lambda>x. acc_id x = acc_id a \<and> acc_login_handle_normalized x = acc_login_handle_normalized a
      \<and> acc_auth_protocol x = AUTH_PROTOCOL) (accounts d) = Some a"
    by (rule find_unique [of acc_id]) (use assms(3) in \<open>auto simp: login_base_def\<close>)
  moreover have "length (acc_auth_stored_key a) = AUTH_KEY_BYTES"
    using assms(3) by (simp add: login_base_def account_checks_def AUTH_KEY_BYTES_def)
  ultimately show ?thesis
    using assms by (simp add: check_login_proof_def wp_eqs quiet_def query_def Let_def account_stored_key_def
        auth_key_from_vec_def)
qed

text \<open>The answer to an accepted login: a second-factor challenge if the account has a verified factor,
  otherwise an enrolment session.\<close>

definition login_answered :: "externals \<Rightarrow> account_row \<Rightarrow> validated_device \<Rightarrow> time \<Rightarrow> db \<Rightarrow>
    login_finish_response response \<Rightarrow> world \<Rightarrow> bool" where
  "login_answered X a dv t d resp w' \<longleftrightarrow>
     (if active_totp_factor (acc_id a) d = None then enrolment_opened X resp
      else \<exists>i. mfa_asked (rs_body resp) i \<and> mfa_pending X (acc_id a) dv t i (w_db w')
        \<and> (\<exists>cs xs. w_db w' = d\<lparr>auth_challenges := cs, audit_events := xs\<rparr>))"

lemma dependable_clock:
  assumes "dependable e t"
  shows "t div 1000000 * 1000000 \<le> clock e n div 1000000 * 1000000"
    and "clock e n div 1000000 * 1000000 \<le> t div 1000000 * 1000000 + LOGIN_CHALLENGE_TTL"
proof -
  have "t \<le> clock e n" "clock e n \<le> t + 300 * 1000000"
    using assms by (simp_all add: dependable_def LOGIN_CHALLENGE_TTL_def minutes_def seconds_def)
  then have "t div 1000000 \<le> clock e n div 1000000" "clock e n div 1000000 \<le> (t + 300 * 1000000) div 1000000"
    by (simp_all only: zdiv_mono1)
  moreover have "(t + 300 * 1000000) div 1000000 = 300 + t div 1000000" by (rule div_mult_self1) simp
  ultimately show "t div 1000000 * 1000000 \<le> clock e n div 1000000 * 1000000"
    and "clock e n div 1000000 * 1000000 \<le> t div 1000000 * 1000000 + LOGIN_CHALLENGE_TTL"
    by (simp_all add: LOGIN_CHALLENGE_TTL_def minutes_def seconds_def)
qed

lemma fresh_draws_later:
  assumes "fresh_draws e {m..<k} (w_db w)" and "challenge_added e w w'" and "m \<le> w_tick w"
  shows "fresh_draws e {w_tick w'..<k} (w_db w')"
proof -
  from assms(2) obtain n where n: "w_tick w \<le> n" "n < w_tick w'"
    and ids: "ch_id ` set (auth_challenges (w_db w')) \<subseteq> insert (fresh_uuid e n) (ch_id ` set (auth_challenges (w_db w)))"
    and same: "w_db w' = (w_db w)\<lparr>auth_challenges := auth_challenges (w_db w')\<rparr>"
    by (auto simp: challenge_added_def)
  have rest: "devices (w_db w') = devices (w_db w)" "sessions (w_db w') = sessions (w_db w)"
    using arg_cong [OF same, of devices] arg_cong [OF same, of sessions] by simp_all
  have "fresh_uuid e j \<notin> ch_id ` set (auth_challenges (w_db w'))" if "j \<in> {w_tick w'..<k}" for j
  proof -
    have "j \<in> {m..<k}" "n \<in> {m..<k}" "j \<noteq> n" using that n assms(3) by auto
    then have "fresh_uuid e j \<noteq> fresh_uuid e n" using assms(1) by (auto simp: fresh_draws_def dest: inj_onD)
    with ids fresh_drawsD(1) [OF assms(1) \<open>j \<in> {m..<k}\<close>] show ?thesis by blast
  qed
  moreover have "{w_tick w'..<k} \<subseteq> {m..<k}" using n assms(3) by auto
  ultimately show ?thesis using assms(1) by (auto simp: fresh_draws_def rest intro: inj_on_subset)
qed

text \<open>The open challenge, its proof and the client's request meet in \<open>login_tx\<close>.\<close>

lemma wp_login_tx_known:
  assumes "dependable e u" and "w_txn w = Some (d, t)" and "w_db w = d'" and "login_base d a"
    and "sha256_is_32_bytes (ext e)" and "base64url_roundtrip (ext e)"
    and "fresh_draws e N d" and "{w_tick w..w_tick w + 8} \<subseteq> N" and "valid_device dv"
    and "login_pending (ext e) a cn (u div 1000000 * 1000000 + LOGIN_CHALLENGE_TTL) r d"
    and "decode_base64url_array (ext e) SERVER_NONCE_BYTES (lr_server_nonce r) = Inr sn"
    and "now = clock e n div 1000000 * 1000000"
    and "verify_client_proof (ext e) (acc_auth_stored_key a) (login_auth_message (ext e)
      \<lparr>la_challenge_id = lr_login_challenge_id r, la_auth_protocol = AUTH_PROTOCOL,
       la_login_handle_normalized = acc_login_handle_normalized a, la_client_nonce = cn, la_server_nonce = sn,
       la_client_final_without_proof = cf\<rparr>) p = Inr True"
  shows "wp e (login_tx (lr_login_challenge_id r) cn sn cf p dv now)
    (login_answered (ext e) a dv (u div 1000000 * 1000000 + LOGIN_CHALLENGE_TTL) d) (\<lambda>_ _. False) w"
proof -
  have q: "quiet e" "\<And>n. fault_at e n = Fine" using assms(1) by (simp_all add: dependable_def quiet_def)
  obtain c m where c: "c \<in> set (auth_challenges d)" "ch_id c = lr_login_challenge_id r"
      "ch_challenge_type c = ''login''" "ch_auth_protocol c = AUTH_PROTOCOL" "ch_consumed_at c = None"
      "ch_account_id c = Some (acc_id a)" "ch_login_handle_normalized c = acc_login_handle_normalized a"
      "ch_public_metadata c = login_metadata_json m" "u div 1000000 * 1000000 + LOGIN_CHALLENGE_TTL \<le> ch_expires_at c"
    and m: "lm_client_nonce m = encode_base64url (ext e) cn" "lm_server_nonce m = encode_base64url (ext e) (ch_server_nonce c)"
      "lm_auth_verifier_profile m = PROFILE_ID" "lm_auth_verifier_iterations m = DEFAULT_ITERATIONS" "\<not> lm_synthetic m"
    and n: "lr_server_nonce r = encode_base64url (ext e) (ch_server_nonce c)" "length (ch_server_nonce c) = SERVER_NONCE_BYTES"
    using assms(10) unfolding login_pending_def by blast
  have sn: "ch_server_nonce c = sn" using assms(11) n by (simp add: decode_encode [OF assms(6)])
  have "login_challenge (lr_login_challenge_id r) now d = Some c"
    unfolding login_challenge_def
    by (rule find_unique [of ch_id])
      (use assms(4) c dependable_clock(2) [OF assms(1), of n] in \<open>auto simp: login_base_def open_challenge_def assms(12)\<close>)
  note found = this decode_login_json [OF m(3,4)]
  let ?d = "set_consumed (ch_id c) now d"
  have ex: "account_exists ?d (acc_id a)" using assms(4) by (simp add: login_base_def account_exists_def)
  have h: "nonblank (acc_login_handle_normalized a)" using assms(4) by (simp add: login_base_def account_checks_def)
  have "map ch_id (auth_challenges ?d) = map ch_id (auth_challenges d)"
    by (simp add: set_consumed_def map_update_where)
  then have ids: "ch_id ` set (auth_challenges ?d) = ch_id ` set (auth_challenges d)" by (metis set_map)
  have draws: "fresh_draws e N ?d" using assms(7) by (simp add: fresh_draws_def ids)
  have N: "Suc (Suc (Suc (Suc (w_tick w)))) \<in> N" using assms(8) by auto
  have answered: "login_answered (ext e) a dv (u div 1000000 * 1000000 + LOGIN_CHALLENGE_TTL) d resp w'"
    if "active_totp_factor (acc_id a) d = Some f"
      and "mfa_asked (rs_body resp) i \<and> w_tick w' \<le> k \<and> mfa_pending (ext e) (acc_id a) dv (now + LOGIN_CHALLENGE_TTL) i (w_db w')
      \<and> (\<exists>cs xs. w_db w' = ?d\<lparr>auth_challenges := cs, audit_events := xs\<rparr>)" for f resp w' i k
  proof -
    have "mfa_pending (ext e) (acc_id a) dv (u div 1000000 * 1000000 + LOGIN_CHALLENGE_TTL) i (w_db w')"
      using that(2) dependable_clock(1) [OF assms(1), of n] unfolding mfa_pending_def assms(12) by force
    with that show ?thesis by (auto simp: login_answered_def set_consumed_def)
  qed
  show ?thesis
    unfolding login_tx_def
    apply (simp add: wp_eqs assms(2) q query_def found m sn Let_def c)
    apply (rule wp_proof_quiet [OF q(1) _ assms(4) _ m(5)])
      apply simp
     apply (simp add: assms(13))
    apply (simp add: c(6,7) ok_or_def wp_eqs q query_def consume_auth_challenge_def command_def Let_def)
    apply (cases "active_totp_factor (acc_id a) d")
     apply simp
     apply (rule wp_mono [OF wp_setup_quiet [OF assms(1) _ ex assms(9,5) draws _ assms(12)]])
        apply simp
       apply (rule subset_trans [OF _ assms(8)], simp)
      apply (simp add: login_answered_def)
     apply assumption
    apply simp
    apply (rule wp_mono [OF wp_issue_mfa_quiet [OF assms(1) _ ex h _ assms(12)]])
       apply simp
      apply (rule fresh_drawsD(1) [OF draws], simp add: N)
     apply (erule answered, assumption)
    apply assumption
    done
qed

text \<open>The answer of the start gives the client all it needs for the finish.\<close>

lemma client_finish_of:
  assumes "login_pending (ext e) a cn b r d" and "account_checks a" and "knows_secret (ext e) secret a"
    and "hmac_lengths (ext e)" and "base64url_roundtrip (ext e)"
  obtains sn p where "decode_base64url_array (ext e) SERVER_NONCE_BYTES (lr_server_nonce r) = Inr sn"
    and "length p = KEY_LEN"
    and "verify_client_proof (ext e) (acc_auth_stored_key a) (login_auth_message (ext e)
      \<lparr>la_challenge_id = lr_login_challenge_id r, la_auth_protocol = AUTH_PROTOCOL,
       la_login_handle_normalized = acc_login_handle_normalized a, la_client_nonce = cn, la_server_nonce = sn,
       la_client_final_without_proof = cf\<rparr>) p = Inr True"
    and "client_finish (ext e) secret (acc_login_handle_normalized a) cn cf dev r = Some
      \<lparr>lf_login_challenge_id = lr_login_challenge_id r, lf_auth_protocol = AUTH_PROTOCOL,
       lf_client_nonce = encode_base64url (ext e) cn, lf_server_nonce = lr_server_nonce r,
       lf_client_final_without_proof = encode_base64url (ext e) cf, lf_client_proof = encode_base64url (ext e) p,
       lf_device = dev\<rparr>"
proof -
  obtain sn where sn: "length sn = SERVER_NONCE_BYTES" "lr_server_nonce r = encode_base64url (ext e) sn"
      "lr_auth_verifier_salt r = encode_base64url (ext e) (acc_auth_verifier_salt a)"
      "lr_auth_verifier_iterations r = DEFAULT_ITERATIONS"
    using assms(1) unfolding login_pending_def by blast
  obtain v where v: "derive_verifier (ext e) secret (acc_auth_verifier_salt a) DEFAULT_ITERATIONS = Inr v"
      "acc_auth_stored_key a = sv_stored_key v"
    using assms(3) unfolding knows_secret_def by blast
  let ?msg = "login_auth_message (ext e)
      \<lparr>la_challenge_id = lr_login_challenge_id r, la_auth_protocol = AUTH_PROTOCOL,
       la_login_handle_normalized = acc_login_handle_normalized a, la_client_nonce = cn, la_server_nonce = sn,
       la_client_final_without_proof = cf\<rparr>"
  obtain p where p: "client_proof (ext e) secret (acc_auth_verifier_salt a) DEFAULT_ITERATIONS ?msg = Inr p" "length p = KEY_LEN"
    by (rule honest_proof_exists [OF assms(4) v(1)])
  have d1: "decode_base64url_array (ext e) SERVER_NONCE_BYTES (lr_server_nonce r) = Inr sn"
    using sn by (simp add: decode_encode [OF assms(5)])
  have d2: "decode_base64url_array (ext e) DEFAULT_SALT_BYTES (lr_auth_verifier_salt r) = Inr (acc_auth_verifier_salt a)"
    using assms(2) by (simp add: sn decode_encode [OF assms(5)] account_checks_def DEFAULT_SALT_BYTES_def)
  have "client_finish (ext e) secret (acc_login_handle_normalized a) cn cf dev r = Some
      \<lparr>lf_login_challenge_id = lr_login_challenge_id r, lf_auth_protocol = AUTH_PROTOCOL,
       lf_client_nonce = encode_base64url (ext e) cn, lf_server_nonce = lr_server_nonce r,
       lf_client_final_without_proof = encode_base64url (ext e) cf, lf_client_proof = encode_base64url (ext e) p,
       lf_device = dev\<rparr>"
    unfolding client_finish_def by (simp add: d1 d2 sn(4) p(1))
  with honest_proof_verifies [OF assms(4) v(1) p(1)] show thesis
    by (intro that [OF d1 p(2)]) (simp_all add: v(2))
qed

lemma wp_login_finish_known:
  assumes "dependable e u" and "w_txn w = None" and "w_db w = d" and "login_base d a"
    and "sha256_is_32_bytes (ext e)" and "base64url_roundtrip (ext e)" and "hmac_lengths (ext e)"
    and "fresh_draws e N d" and "{w_tick w..w_tick w + 10} \<subseteq> N" and "device_from_request (ext e) dev = Inr dv"
    and "ensure_unsafe_request_context h = Inr ()" and "cf \<noteq> []" and "length cf \<le> MAX_DEVICE_PUBLIC_METADATA_BYTES"
    and "length cn = CLIENT_NONCE_BYTES"
    and "login_pending (ext e) a cn (u div 1000000 * 1000000 + LOGIN_CHALLENGE_TTL) r d"
    and "knows_secret (ext e) secret a"
    and "client_finish (ext e) secret (acc_login_handle_normalized a) cn cf dev r = Some request"
  shows "wp e (login_finish h request)
    (login_answered (ext e) a dv (u div 1000000 * 1000000 + LOGIN_CHALLENGE_TTL) d) (\<lambda>_ _. False) w"
proof -
  have q: "cf_database (conf e)" "\<And>n. fault_at e n = Fine" using assms(1) by (simp_all add: dependable_def quiet_def)
  have checks: "account_checks a" using assms(4) by (simp add: login_base_def)
  obtain sn p where sn: "decode_base64url_array (ext e) SERVER_NONCE_BYTES (lr_server_nonce r) = Inr sn"
    and p: "length p = KEY_LEN" and verified: "verify_client_proof (ext e) (acc_auth_stored_key a) (login_auth_message (ext e)
      \<lparr>la_challenge_id = lr_login_challenge_id r, la_auth_protocol = AUTH_PROTOCOL,
       la_login_handle_normalized = acc_login_handle_normalized a, la_client_nonce = cn, la_server_nonce = sn,
       la_client_final_without_proof = cf\<rparr>) p = Inr True"
    and "client_finish (ext e) secret (acc_login_handle_normalized a) cn cf dev r = Some
      \<lparr>lf_login_challenge_id = lr_login_challenge_id r, lf_auth_protocol = AUTH_PROTOCOL,
       lf_client_nonce = encode_base64url (ext e) cn, lf_server_nonce = lr_server_nonce r,
       lf_client_final_without_proof = encode_base64url (ext e) cf, lf_client_proof = encode_base64url (ext e) p,
       lf_device = dev\<rparr>"
    by (rule client_finish_of [OF assms(15) checks assms(16,7,6), of cf dev])
  with assms(17) have request: "request =
      \<lparr>lf_login_challenge_id = lr_login_challenge_id r, lf_auth_protocol = AUTH_PROTOCOL,
       lf_client_nonce = encode_base64url (ext e) cn, lf_server_nonce = lr_server_nonce r,
       lf_client_final_without_proof = encode_base64url (ext e) cf, lf_client_proof = encode_base64url (ext e) p,
       lf_device = dev\<rparr>" by simp
  have dv: "valid_device dv" using assms(10) by (auto simp: device_from_request_def intro: valid_device_request)
  have cf: "decode_base64url (ext e) (encode_base64url (ext e) cf) = Inr cf"
    using assms(6) by (simp add: decode_base64url_def encode_base64url_def base64url_roundtrip_def)
  have run: "wp e (login_tx (lr_login_challenge_id r) cn sn cf p dv (clock e (w_tick w) div 1000000 * 1000000))
      (login_answered (ext e) a dv (u div 1000000 * 1000000 + LOGIN_CHALLENGE_TTL) d) (\<lambda>_ _. False)
      (w\<lparr>w_tick := w_tick w + 2, w_txn := Some (d, clock e (Suc (w_tick w)))\<rparr>)"
    by (rule wp_login_tx_known [OF assms(1) _ _ assms(4,5,6,8) _ dv assms(15) sn refl verified])
      (use assms(3,9) in \<open>auto simp: subset_iff\<close>)
  have kept: "login_answered (ext e) a dv b d resp (w'\<lparr>w_txn := None\<rparr>) \<longleftrightarrow> login_answered (ext e) a dv b d resp w'"
    for b resp w' by (simp add: login_answered_def)
  show ?thesis
    unfolding login_finish_def request wp_handler
    apply (simp add: wp_eqs assms(11,10,3) q decode_encode [OF assms(6)] assms(14) sn cf assms(12) p KEY_LEN_def AUTH_KEY_BYTES_def
        assms(13) [unfolded not_less [symmetric]] kept Let_def)
    apply (rule wp_mono [OF run [simplified]])
    apply simp_all
    done
qed

section \<open>The client is let in\<close>

text \<open>Between the two requests of a client, whatever else the service does: it keeps its invariant, the
  account and the client's challenge are still there, and the random source still draws new values.\<close>

definition undisturbed :: "env \<Rightarrow> uuid \<Rightarrow> account_row \<Rightarrow> world \<Rightarrow> world \<Rightarrow> bool" where
  "undisturbed e i a w w' \<longleftrightarrow> w_txn w' = None \<and> system_ok (w_db w') \<and> a \<in> set (accounts (w_db w'))
     \<and> (\<forall>c \<in> set (auth_challenges (w_db w)). ch_id c = i \<longrightarrow> c \<in> set (auth_challenges (w_db w')))
     \<and> fresh_draws e {w_tick w'..w_tick w' + 10} (w_db w')"

lemma undisturbed_base: "undisturbed e i a w w' \<Longrightarrow> acc_auth_protocol a = AUTH_PROTOCOL \<Longrightarrow> login_base (w_db w') a"
  by (auto simp: undisturbed_def login_base_def system_ok_def rest_defs list_all_iff)

lemma undisturbed_pending:
  "undisturbed e (lr_login_challenge_id r) a w w' \<Longrightarrow> login_pending X a cn b r (w_db w) \<Longrightarrow> login_pending X a cn b r (w_db w')"
  unfolding undisturbed_def login_pending_def by blast

lemma start_undisturbed:
  assumes "login_start q e w = (x, w')" and "challenge_added e w w'" and "system_ok (w_db w)" and "a \<in> set (accounts (w_db w))"
    and "w_txn w = None" and "fresh_draws e {w_tick w..<w_tick w + 32} (w_db w)"
  shows "undisturbed e i a w' w'"
proof -
  have "system_ok (w_db w')"
    using db_steps_ok [OF movesD(1) [OF register_db.moves_login_start assms(5,1)] assms(3)] .
  moreover have same: "w_db w' = (w_db w)\<lparr>auth_challenges := auth_challenges (w_db w')\<rparr>" and tick: "w_tick w' \<le> w_tick w + 16"
    using assms(2) by (auto simp: challenge_added_def)
  moreover have "a \<in> set (accounts (w_db w'))" using assms(4) arg_cong [OF same, of accounts] by simp
  moreover have "{w_tick w'..w_tick w' + 10} \<subseteq> {w_tick w'..<w_tick w + 32}" using tick by auto
  with fresh_draws_later [OF assms(6,2) order_refl] have "fresh_draws e {w_tick w'..w_tick w' + 10} (w_db w')"
    by (auto simp: fresh_draws_def intro: inj_on_subset)
  ultimately show ?thesis using assms(2) by (simp add: undisturbed_def challenge_added_def)
qed

text \<open>C13. A client that knows the secret is let in. While the database answers, for an account whose stored
  verifier was derived from the client's secret and whose handle is below the rate limit, \<open>login_start\<close> answers,
  the client can compute its request from the answer, and \<open>login_finish\<close> accepts that request after whatever
  else the service did in between, as long as the challenge is still there: an account without a verified TOTP
  factor gets an enrolment session with its cookie, any other a second-factor challenge that carries its device.\<close>

theorem honest_login_accepted:
  assumes "dependable e t" and "system_ok (w_db w)" and "w_txn w = None" and "a \<in> set (accounts (w_db w))"
    and "normalize_login_handle handle = Inr (acc_login_handle_normalized a)" and "knows_secret (ext e) secret a"
    and "base64url_roundtrip (ext e)" and "hmac_lengths (ext e)" and "sha256_is_32_bytes (ext e)"
    and "length cn = CLIENT_NONCE_BYTES" and "cf \<noteq> []" and "length cf \<le> MAX_DEVICE_PUBLIC_METADATA_BYTES"
    and "device_from_request (ext e) dev = Inr dv" and "ensure_unsafe_request_context h = Inr ()"
    and "fresh_draws e {w_tick w..<w_tick w + 32} (w_db w)"
    and "recent_challenges (acc_login_handle_normalized a) ''login'' (t - seconds 1 - AUTH_CHALLENGE_RATE_LIMIT_WINDOW) (w_db w)
      < AUTH_CHALLENGE_RATE_LIMIT"
  shows "\<exists>r w1 request. login_start (login_start_of (ext e) handle cn) e w = (Inr r, w1)
    \<and> client_finish (ext e) secret (acc_login_handle_normalized a) cn cf dev (rs_body r) = Some request
    \<and> undisturbed e (lr_login_challenge_id (rs_body r)) a w1 w1
    \<and> (\<forall>w2. undisturbed e (lr_login_challenge_id (rs_body r)) a w1 w2 \<longrightarrow>
        (\<exists>resp w3. login_finish h request e w2 = (Inr resp, w3)
          \<and> login_answered (ext e) a dv (t div 1000000 * 1000000 + LOGIN_CHALLENGE_TTL) (w_db w2) resp w3))"
proof -
  let ?b = "t div 1000000 * 1000000 + LOGIN_CHALLENGE_TTL"
  obtain r w1 where start: "login_start (login_start_of (ext e) handle cn) e w = (Inr r, w1)"
    and pending: "login_pending (ext e) a cn ?b (rs_body r) (w_db w1)" and added: "challenge_added e w w1"
    using run_of_wp [OF wp_login_start_known [OF assms(1,2,3,4,5,7,10,15,16)]] by blast
  note checks = account_found(2) [OF assms(2,4)]
  obtain request where request: "client_finish (ext e) secret (acc_login_handle_normalized a) cn cf dev (rs_body r) = Some request"
    by (rule client_finish_of [OF pending checks assms(6,8,7), of cf dev]) blast
  have base: "acc_auth_protocol a = AUTH_PROTOCOL" using assms(6) by (simp add: knows_secret_def)
  have "\<exists>resp w3. login_finish h request e w2 = (Inr resp, w3) \<and> login_answered (ext e) a dv ?b (w_db w2) resp w3"
    if u: "undisturbed e (lr_login_challenge_id (rs_body r)) a w1 w2" for w2
  proof -
    have w2: "w_txn w2 = None" "fresh_draws e {w_tick w2..w_tick w2 + 10} (w_db w2)" using u by (simp_all add: undisturbed_def)
    show ?thesis
      by (rule run_of_wp [OF wp_login_finish_known [OF assms(1) w2(1) refl undisturbed_base [OF u base] assms(9,7,8) w2(2)
            subset_refl assms(13,14,11,12,10) undisturbed_pending [OF u pending] assms(6) request]]) blast
  qed
  with start request start_undisturbed [OF start added assms(2,4,3,15)] show ?thesis by blast
qed

section \<open>Witness\<close>

lemma sample_dependable: "dependable sample_env (seconds 1000)"
proof -
  have "rfc3339 sample u \<noteq> None" if "seconds 1000 - seconds 1 \<le> u" for u
    using that by (simp add: sample_def seconds_def)
  then show ?thesis
    by (simp add: dependable_def sample_quiet sample_header LOGIN_CHALLENGE_TTL_def minutes_def seconds_def)
qed

lemma sample_draws:
  assumes "\<forall>n \<in> N. n < 2 ^ 128 \<and> of_nat n \<notin> ch_id ` set (auth_challenges d)" and "devices d = []" and "sessions d = []"
  shows "fresh_draws sample_env N d"
proof -
  have "inj_on (of_nat :: nat \<Rightarrow> uuid) N"
  proof (rule inj_onI)
    fix m n assume "m \<in> N" "n \<in> N" and eq: "(of_nat m :: uuid) = of_nat n"
    then have "m < 2 ^ 128" "n < 2 ^ 128" using assms(1) by auto
    with arg_cong [OF eq, of unat] show "m = n" by (simp add: unat_of_nat take_bit_nat_eq_self)
  qed
  then show ?thesis using assms by (simp add: fresh_draws_def sample_env_def)
qed

text \<open>The sample account with the verifier of a secret.\<close>

definition account_with :: "bytes \<Rightarrow> account_row" where
  "account_with key = sample_account\<lparr>acc_auth_stored_key := key\<rparr>"

lemma sample_secret:
  obtains key where "knows_secret sample [1, 2] (account_with key)" and "length key = 32"
proof -
  obtain sp where sp: "salted_password sample [1, 2] (replicate 32 4) DEFAULT_ITERATIONS = Inr sp"
    by (simp add: salted_password_Inr_iff DEFAULT_ITERATIONS_def MIN_ITERATIONS_def MAX_ITERATIONS_def MIN_SALT_BYTES_def)
  let ?v = "\<lparr>sv_stored_key = sha256 sample (hmac_sha256 sample sp (as_bytes ''Client Key'')),
      sv_server_key = hmac_sha256 sample sp (as_bytes ''Server Key'')\<rparr>"
  have "derive_verifier sample [1, 2] (replicate 32 4) DEFAULT_ITERATIONS = Inr ?v"
    by (simp add: derive_verifier_def sp Let_def)
  then show thesis
    by (intro that [of "sv_stored_key ?v"]) (simp_all add: knows_secret_def account_with_def sample_account_def sample_sha256_length)
qed

definition known_db :: "bytes \<Rightarrow> db" where
  "known_db key = empty_db\<lparr>accounts := [account_with key]\<rparr>"

lemma known_ok: "length key = 32 \<Longrightarrow> system_ok (known_db key)"
  by (simp add: known_db_def account_with_def sample_account_def system_ok_def vaults_ok_def sessions_ok_def unique_tokens_def
      rest_defs empty_db_def account_checks_def nonblank_def AUTH_PROTOCOL_def PROFILE_ID_def DEFAULT_ITERATIONS_def kdf_profile)

lemma sample_handle_normal: "normalize_login_handle ''ann'' = Inr ''ann''"
proof -
  have "trim ''ann'' = ''ann''" by (rule trim_visible) (simp add: visible_char_def)
  moreover have "to_ascii_lowercase ''ann'' = ''ann''" by code_simp
  ultimately show ?thesis by (simp add: normalize_login_handle_def MAX_LOGIN_HANDLE_BYTES_def)
qed

theorem honest_login_accepted_witness:
  "\<exists>key r w1 request resp w2. length key = 32
    \<and> login_start (login_start_of sample ''ann'' (replicate 32 5)) sample_env (world_of (known_db key)) = (Inr r, w1)
    \<and> client_finish sample [1, 2] ''ann'' (replicate 32 5) [9]
        \<lparr>dq_label = ''d'', dq_client_type = ''cli'', dq_public_metadata = JObj []\<rparr> (rs_body r) = Some request
    \<and> login_finish (\<lambda>_. None) request sample_env w1 = (Inr resp, w2)"
proof -
  obtain key where key: "knows_secret sample [1, 2] (account_with key)" "length key = 32" by (rule sample_secret)
  let ?a = "account_with key" and ?w = "world_of (known_db key)"
  have h: "normalize_login_handle ''ann'' = Inr (acc_login_handle_normalized ?a)" "acc_login_handle_normalized ?a = ''ann''"
    using sample_handle_normal by (simp_all add: account_with_def sample_account_def)
  have "fresh_draws sample_env {w_tick ?w..<w_tick ?w + 32} (w_db ?w)"
    by (rule sample_draws) (simp_all add: known_db_def empty_db_def)
  moreover have "recent_challenges (acc_login_handle_normalized ?a) ''login'' u (w_db ?w) < AUTH_CHALLENGE_RATE_LIMIT" for u
    by (simp add: recent_challenges_def known_db_def empty_db_def count_where_def AUTH_CHALLENGE_RATE_LIMIT_def)
  moreover have "?a \<in> set (accounts (w_db ?w))" by (simp add: known_db_def)
  moreover have "length (replicate 32 5 :: bytes) = CLIENT_NONCE_BYTES" "length [9 :: byte] \<le> MAX_DEVICE_PUBLIC_METADATA_BYTES"
    by (simp_all add: CLIENT_NONCE_BYTES_def MAX_DEVICE_PUBLIC_METADATA_BYTES_def)
  moreover have "ensure_unsafe_request_context (\<lambda>_. None) = Inr ()" by (simp add: ensure_unsafe_request_context_def)
  ultimately have "\<exists>r w1 request. login_start (login_start_of sample ''ann'' (replicate 32 5)) sample_env ?w = (Inr r, w1)
    \<and> client_finish sample [1, 2] ''ann'' (replicate 32 5) [9]
        \<lparr>dq_label = ''d'', dq_client_type = ''cli'', dq_public_metadata = JObj []\<rparr> (rs_body r) = Some request
    \<and> undisturbed sample_env (lr_login_challenge_id (rs_body r)) ?a w1 w1
    \<and> (\<forall>w2. undisturbed sample_env (lr_login_challenge_id (rs_body r)) ?a w1 w2 \<longrightarrow>
        (\<exists>resp w3. login_finish (\<lambda>_. None) request sample_env w2 = (Inr resp, w3)
          \<and> login_answered sample ?a \<lparr>vd_label = ''d'', vd_client_type = ''cli'', vd_public_metadata = JObj []\<rparr>
              (seconds 1000 div 1000000 * 1000000 + LOGIN_CHALLENGE_TTL) (w_db w2) resp w3))"
    using honest_login_accepted [of sample_env "seconds 1000" ?w ?a "''ann''" "[1, 2]" "replicate 32 5" "[9]"
        "\<lparr>dq_label = ''d'', dq_client_type = ''cli'', dq_public_metadata = JObj []\<rparr>" _ "\<lambda>_. None", OF sample_dependable]
      key known_ok [OF key(2)] h(1) sample_device_valid by (simp add: h(2))
  with key(2) show ?thesis by blast
qed

end
