(* ===== verification/PV_HonestRegistration.thy ===== *)
theory PV_HonestRegistration
  imports PV_Honest
begin

text \<open>
  The honest registration. A client that takes a free handle and derives its verifier from the salt that
  \<open>register_start\<close> tells it gets its account from \<open>register_finish\<close>, and that account stores the verifier of
  its secret, so that the honest login of \<open>PV_Honest\<close> is open to it.
\<close>

section \<open>Starting\<close>

definition registration_pending :: "externals \<Rightarrow> string \<Rightarrow> time \<Rightarrow> register_start_response \<Rightarrow> db \<Rightarrow> bool" where
  "registration_pending X h t r d \<longleftrightarrow>
     (\<exists>c m s1 s2. c \<in> set (auth_challenges d) \<and> ch_id c = rg_registration_id r
       \<and> ch_challenge_type c = ''register'' \<and> ch_auth_protocol c = AUTH_PROTOCOL \<and> ch_consumed_at c = None
       \<and> ch_login_handle_normalized c = h \<and> t \<le> ch_expires_at c \<and> ch_public_metadata c = register_metadata_json m
       \<and> rm_kdf_profile m = default_kdf_profile \<and> rm_auth_verifier_profile m = PROFILE_ID
       \<and> rm_auth_verifier_iterations m = DEFAULT_ITERATIONS \<and> rm_account_salt m = encode_base64url X s1
       \<and> rm_auth_verifier_salt m = encode_base64url X s2 \<and> length s1 = DEFAULT_SALT_BYTES \<and> length s2 = DEFAULT_SALT_BYTES
       \<and> rg_auth_verifier_salt r = encode_base64url X s2 \<and> rg_auth_verifier_iterations r = DEFAULT_ITERATIONS)"

text \<open>A handle passes the CHECK constraint of the table.\<close>

lemma normalized_nonblank:
  assumes "normalize_login_handle handle = Inr h"
  shows "nonblank h"
proof -
  have "h = to_ascii_lowercase (trim handle)" "h \<noteq> []"
    using assms by (auto simp: normalize_login_handle_def Let_def split: if_splits)
  then have "h = trim h" by (simp add: trim_lower_trim)
  with nonblank_trim [of h] \<open>h \<noteq> []\<close> show ?thesis by simp
qed

lemma wp_register_start_known:
  assumes "dependable e t" and "w_txn w = None" and "normalize_login_handle handle = Inr h"
    and "fresh_draws e {w_tick w..<w_tick w + 32} (w_db w)"
    and "recent_challenges h ''register'' (t - seconds 1 - AUTH_CHALLENGE_RATE_LIMIT_WINDOW) (w_db w) < AUTH_CHALLENGE_RATE_LIMIT"
  shows "wp e (register_start handle AUTH_PROTOCOL)
    (\<lambda>resp w'. registration_pending (ext e) h (t div 1000000 * 1000000 + REGISTER_CHALLENGE_TTL) (rs_body resp) (w_db w')
      \<and> challenge_added e w w') (\<lambda>_ _. False) w"
proof -
  have q: "quiet e" "cf_database (conf e)" "\<And>n. fault_at e n = Fine" using assms(1) by (simp_all add: dependable_def quiet_def)
  have times: "t \<le> clock e n" for n using assms(1) by (simp add: dependable_def)
  have limit: "recent_challenges h ''register'' (clock e n div 1000000 * 1000000 - AUTH_CHALLENGE_RATE_LIMIT_WINDOW)
      (drop_expired_challenges u (w_db w)) < AUTH_CHALLENGE_RATE_LIMIT" for n u
    by (rule recent_mono [OF _ assms(5)]) (use times [of n] trunc_bounds(2) [of "clock e n"] in \<open>simp add: seconds_def\<close>)
  obtain F where F: "\<And>n. rfc3339 (ext e) (clock e n div 1000000 * 1000000 + REGISTER_CHALLENGE_TTL) = Some (F n)"
    by (rule dependable_formats [OF assms(1), of REGISTER_CHALLENGE_TTL]) (auto simp: REGISTER_CHALLENGE_TTL_def minutes_def seconds_def hours_def)
  have later: "t div 1000000 \<le> clock e n div 1000000" for n using times [of n] by (simp add: zdiv_mono1)
  have new: "fresh_uuid e n \<notin> ch_id ` set (auth_challenges (drop_expired_challenges u (w_db w)))"
    if "w_tick w \<le> n" "n < w_tick w + 32" for n u
    using assms(4) that by (auto simp: fresh_draws_def drop_expired_challenges_def set_delete_where)
  note h = normalized_nonblank [OF assms(3)]
  show ?thesis
    unfolding register_start_def wp_handler
    apply (simp add: wp_eqs q ensure_supported_protocol_def assms(3) cleanup_expired_challenges_def command_def Let_def)
    apply (rule wp_limit_passed [OF q(1)])
     apply (simp add: limit)
    apply (simp add: wp_eqs q Let_def insert_auth_challenge_def insert_challenge_stmt_def command_def telemetry_defs
        insert_challenge_def challenge_of_def new h opt_all_def SERVER_NONCE_BYTES_def AUTH_PROTOCOL_def constrained_def F
        no_store_json_def)
    apply (rule conjI)
     apply (simp add: registration_pending_def ex_disj_distrib conj_disj_distribR)
     apply (rule disjI1)
     apply (intro conjI later)
      apply (simp add: AUTH_PROTOCOL_def)
     apply (rule exI, rule conjI, rule refl)
     apply simp
     apply (rule exI, rule conjI, rule refl)
     apply (rule exI, rule conjI, rule refl)
     apply simp
    apply (unfold challenge_added_def)
    apply (rule conjI, simp)
    apply (rule conjI)
     apply (rule exI [of _ "Suc (Suc (Suc (w_tick w)))"])
     apply (auto simp: drop_expired_challenges_def set_delete_where)
    done
qed

section \<open>The new rows\<close>

definition sound_envelope :: "validated_envelope \<Rightarrow> string \<Rightarrow> bool" where
  "sound_envelope v version \<longleftrightarrow> ve_crypto_version v = version \<and> nonblank (ve_key_id v)
     \<and> length (ve_nonce v) = 12 \<and> ve_ciphertext v \<noteq> []"

lemma envelope_sound: "envelope_from_request X q version = Inr v \<Longrightarrow> sound_envelope v version"
  by (auto simp: envelope_from_request_def and_then_Inr_iff validate_short_text_def Let_def sound_envelope_def
      nonblank_trim decode_base64url_array_def AEAD_NONCE_BYTES_def split: if_splits)

text \<open>New identifiers occur in none of the tables that a registration writes.\<close>

definition fresh_rows :: "env \<Rightarrow> nat set \<Rightarrow> db \<Rightarrow> bool" where
  "fresh_rows e N d \<longleftrightarrow> fresh_draws e N d
     \<and> (\<forall>n \<in> N. fresh_uuid e n \<notin> acc_id ` set (accounts d) \<union> ks_id ` set (account_keysets d)
          \<union> ks_account_id ` set (account_keysets d) \<union> kw_id ` set (vault_key_wraps d) \<union> kw_account_id ` set (vault_key_wraps d))"

lemma fresh_rowsD:
  assumes "fresh_rows e N d" and "n \<in> N"
  shows "fresh_uuid e n \<notin> acc_id ` set (accounts d)" "fresh_uuid e n \<notin> ks_id ` set (account_keysets d)"
    "fresh_uuid e n \<notin> ks_account_id ` set (account_keysets d)" "fresh_uuid e n \<notin> kw_id ` set (vault_key_wraps d)"
    "fresh_uuid e n \<notin> kw_account_id ` set (vault_key_wraps d)"
  using assms unfolding fresh_rows_def by blast+

text \<open>The statements of a registration, one after the other, where every identifier is new.\<close>

lemma registration_inserts:
  assumes "i \<notin> acc_id ` set (accounts d)" "h \<notin> acc_login_handle_normalized ` set (accounts d)" "nonblank h"
    and m: "rm_kdf_profile m = default_kdf_profile" "rm_auth_verifier_iterations m = DEFAULT_ITERATIONS"
    and "length s1 = 32" "length s2 = 32" "length k1 = 32" "length k2 = 32"
    and keyset: "sound_envelope ks ACCOUNT_KEYSET_CRYPTO_VERSION" "k \<notin> ks_id ` set (account_keysets d)"
      "i \<notin> ks_account_id ` set (account_keysets d)"
    and device: "valid_device dv" "l \<notin> dev_id ` set (devices d)"
    and vault: "v \<notin> va_id ` set (vaults d)" "length g = 32"
    and wrap: "sound_envelope vk VAULT_KEY_WRAP_CRYPTO_VERSION" "ve_key_id ks = ve_key_id vk" "j \<notin> kw_id ` set (vault_key_wraps d)"
      "i \<notin> kw_account_id ` set (vault_key_wraps d)"
    and session: "s \<notin> se_id ` set (sessions d)" "th \<notin> se_session_token_hash ` set (sessions d)" "length th = 32" "idle \<le> absolute"
  obtains a d1 d2 d3 d4 d5 d6 d7 where "new_account i h m s1 s2 k1 k2 t d = Inr d1" and "new_keyset k i ks d1 = Inr d2"
    and "new_device l i dv None d2 = Inr d3" and "new_vault v i g t' d3 = Inr d4" and "new_key_wrap j v i vk d4 = Inr d5"
    and "new_session s i l th ''mfa_enrollment_required'' idle absolute None d5 = Inr d6"
    and "insert_audit \<lparr>au_account_id = Some i, au_actor_device_id = u, au_event_type = ''account_registered'', au_event_metadata = z\<rparr> d6
      = Inr d7"
    and "accounts d7 = accounts d @ [a]" and "acc_id a = i" and "acc_login_handle_normalized a = h"
    and "acc_auth_protocol a = AUTH_PROTOCOL" and "acc_auth_verifier_salt a = s2" and "acc_auth_stored_key a = k1"
proof -
  obtain a where a: "new_account i h m s1 s2 k1 k2 t d = Inr (d\<lparr>accounts := accounts d @ [a]\<rparr>)" "acc_id a = i"
      "acc_login_handle_normalized a = h" "acc_auth_protocol a = AUTH_PROTOCOL" "acc_auth_verifier_salt a = s2" "acc_auth_stored_key a = k1"
    using assms(1-9) by (simp add: new_account_def insert_account_def account_checks_def constrained_def AUTH_PROTOCOL_def
        PROFILE_ID_def DEFAULT_ITERATIONS_def kdf_profile)
  let ?d1 = "d\<lparr>accounts := accounts d @ [a]\<rparr>"
  have i: "account_exists x i" if "accounts x = accounts d @ [a]" for x by (simp add: account_exists_def a(2) that)
  have pairs: "(i, x) \<notin> (\<lambda>q. (ks_account_id q, ks_key_id q)) ` set (account_keysets d)"
    "(v, i, x) \<notin> (\<lambda>q. (kw_vault_id q, kw_account_id q, kw_key_id q)) ` set (vault_key_wraps d)" for x
    using keyset(3) wrap(4) by auto
  obtain q where q: "new_keyset k i ks ?d1 = Inr (?d1\<lparr>account_keysets := account_keysets d @ [q]\<rparr>)"
      "ks_account_id q = i" "ks_key_id q = ve_key_id ks"
    using keyset i [of ?d1] pairs(1) by (auto simp: new_keyset_def insert_keyset_def constrained_def sound_envelope_def
        ACCOUNT_KEYSET_CRYPTO_VERSION_def)
  let ?d2 = "?d1\<lparr>account_keysets := account_keysets d @ [q]\<rparr>"
  obtain r where r: "new_device l i dv None ?d2 = Inr (?d2\<lparr>devices := devices d @ [r]\<rparr>)" "dev_id r = l" "dev_account_id r = i"
    using device i [of ?d2] by (auto simp: new_device_def insert_device_def constrained_def valid_device_def)
  let ?d3 = "?d2\<lparr>devices := devices d @ [r]\<rparr>"
  obtain y where y: "new_vault v i g t' ?d3 = Inr (?d3\<lparr>vaults := vaults d @ [y]\<rparr>)" "va_id y = v" "va_account_id y = i"
    using vault i [of ?d3] by (auto simp: new_vault_def insert_vault_def constrained_def VAULT_CRYPTO_PROFILE_ID_def nonblank_def)
  let ?d4 = "?d3\<lparr>vaults := vaults d @ [y]\<rparr>"
  obtain wr where wr: "new_key_wrap j v i vk ?d4 = Inr (?d4\<lparr>vault_key_wraps := vault_key_wraps d @ [wr]\<rparr>)"
    using wrap q(2,3) y(2,3) pairs(2) by (auto simp: new_key_wrap_def insert_key_wrap_def constrained_def sound_envelope_def
        VAULT_KEY_WRAP_CRYPTO_VERSION_def image_iff)
  let ?d5 = "?d4\<lparr>vault_key_wraps := vault_key_wraps d @ [wr]\<rparr>"
  have "device_of ?d5 i l = Some r" using device_just_added [OF device(2) r(2,3)] by (simp add: device_of_def)
  then obtain x where x: "new_session s i l th ''mfa_enrollment_required'' idle absolute None ?d5
      = Inr (?d5\<lparr>sessions := sessions d @ [x]\<rparr>)"
    using session i [of ?d5] by (simp add: new_session_def insert_session_def session_checks_def opt_all_def constrained_def)
  let ?d6 = "?d5\<lparr>sessions := sessions d @ [x]\<rparr>"
  have "insert_audit \<lparr>au_account_id = Some i, au_actor_device_id = u, au_event_type = ''account_registered'',
      au_event_metadata = z\<rparr> ?d6 = Inr (?d6\<lparr>audit_events := audit_events d @ [\<lparr>au_account_id = Some i, au_actor_device_id = u,
        au_event_type = ''account_registered'', au_event_metadata = z\<rparr>]\<rparr>)"
    using i [of ?d6] by (simp add: insert_audit_def constrained_def opt_all_def nonblank_def)
  from that [OF a(1) q(1) r(1) y(1) wr x this _ a(2-6)] show thesis by simp
qed

section \<open>Finishing\<close>

text \<open>An account of the handle and the key, with the salt that the client was told.\<close>

definition account_stored :: "externals \<Rightarrow> uuid \<Rightarrow> string \<Rightarrow> string \<Rightarrow> bytes \<Rightarrow> db \<Rightarrow> bool" where
  "account_stored X i h salt key d \<longleftrightarrow>
     (\<exists>a \<in> set (accounts d). acc_id a = i \<and> acc_login_handle_normalized a = h \<and> acc_auth_protocol a = AUTH_PROTOCOL
        \<and> encode_base64url X (acc_auth_verifier_salt a) = salt \<and> acc_auth_stored_key a = key)"

lemma wp_register_tx_known:
  assumes "quiet e" and "w_txn w = Some (d, t)" and "distinct (map ch_id (auth_challenges d))"
    and "registration_pending (ext e) h b r d" and "now \<le> b" and "base64url_roundtrip (ext e)" and "sha256_is_32_bytes (ext e)"
    and "rq_registration_id request = rg_registration_id r" and "h \<notin> acc_login_handle_normalized ` set (accounts d)" and "nonblank h"
    and "length k1 = 32" and "length k2 = 32" and "sound_envelope ks ACCOUNT_KEYSET_CRYPTO_VERSION"
    and "sound_envelope vk VAULT_KEY_WRAP_CRYPTO_VERSION" and "ve_key_id ks = ve_key_id vk" and "valid_device dv"
    and "iv_vault_id (rq_initial_vault request) \<notin> va_id ` set (vaults d)"
    and "fresh_rows e N d" and "n0 \<in> N" "n1 \<in> N" "n2 \<in> N" "n3 \<in> N" "n4 \<in> N" "n5 \<in> N"
    and "\<And>w' d'. w_txn w' = Some (d', t) \<Longrightarrow> w_tick w' = w_tick w + 9 \<Longrightarrow>
      account_stored (ext e) (fresh_uuid e n0) h (rg_auth_verifier_salt r) k1 d' \<Longrightarrow> Q () w'"
  shows "wp e (register_tx request k1 k2 ks vk dv now (fresh_uuid e n0) (fresh_uuid e n1) (fresh_uuid e n2) (fresh_uuid e n3)
    (fresh_uuid e n4) (sha256_verifier (ext e) (map (draw e n5) [0..<TOKEN_LEN]))) Q R w"
proof -
  have q: "\<And>n. fault_at e n = Fine" using assms(1) by (simp add: quiet_def)
  obtain c m s1 s2 where c: "c \<in> set (auth_challenges d)" "ch_id c = rg_registration_id r" "ch_challenge_type c = ''register''"
      "ch_auth_protocol c = AUTH_PROTOCOL" "ch_consumed_at c = None" "ch_login_handle_normalized c = h" "b \<le> ch_expires_at c"
      "ch_public_metadata c = register_metadata_json m"
    and m: "rm_kdf_profile m = default_kdf_profile" "rm_auth_verifier_profile m = PROFILE_ID"
      "rm_auth_verifier_iterations m = DEFAULT_ITERATIONS" "rm_account_salt m = encode_base64url (ext e) s1"
      "rm_auth_verifier_salt m = encode_base64url (ext e) s2" "length s1 = DEFAULT_SALT_BYTES" "length s2 = DEFAULT_SALT_BYTES"
    and salt: "rg_auth_verifier_salt r = encode_base64url (ext e) s2"
    using assms(4) unfolding registration_pending_def by blast
  have found: "register_challenge (rg_registration_id r) now d = Some c"
    unfolding register_challenge_def
    by (rule find_unique [of ch_id]) (use assms(3,5) c in \<open>auto simp: open_challenge_def\<close>)
  have len: "length (sha256_verifier (ext e) x) = 32" "length (genesis_head_hash (ext e) x') = 32" for x x'
    using assms(7) by (simp_all add: sha256_verifier_def genesis_head_hash_def sha256_is_32_bytes_def)
  have le: "now + SESSION_IDLE_TTL \<le> now + SESSION_ABSOLUTE_TTL"
    by (simp add: SESSION_IDLE_TTL_def SESSION_ABSOLUTE_TTL_def minutes_def hours_def seconds_def)
  have salts: "length s1 = 32" "length s2 = 32" using m by (simp_all add: DEFAULT_SALT_BYTES_def)
  note draws = fresh_drawsD [where e = e and N = N and d = d]
  have fd: "fresh_draws e N d" using assms(18) by (simp add: fresh_rows_def)
  obtain a d1 d2 d3 d4 d5 d6 d7 where ins: "new_account (fresh_uuid e n0) h m s1 s2 k1 k2 t d = Inr d1"
    "new_keyset (fresh_uuid e n1) (fresh_uuid e n0) ks d1 = Inr d2" "new_device (fresh_uuid e n3) (fresh_uuid e n0) dv None d2 = Inr d3"
    "new_vault (iv_vault_id (rq_initial_vault request)) (fresh_uuid e n0) (genesis_head_hash (ext e) (iv_vault_id (rq_initial_vault request)))
      t d3 = Inr d4"
    "new_key_wrap (fresh_uuid e n2) (iv_vault_id (rq_initial_vault request)) (fresh_uuid e n0) vk d4 = Inr d5"
    "new_session (fresh_uuid e n4) (fresh_uuid e n0) (fresh_uuid e n3) (sha256_verifier (ext e) (map (draw e n5) [0..<TOKEN_LEN]))
      ''mfa_enrollment_required'' (now + SESSION_IDLE_TTL) (now + SESSION_ABSOLUTE_TTL) None d5 = Inr d6"
    "insert_audit \<lparr>au_account_id = Some (fresh_uuid e n0), au_actor_device_id = Some (fresh_uuid e n3),
      au_event_type = ''account_registered'', au_event_metadata = registered_event\<rparr> d6 = Inr d7"
    and a: "accounts d7 = accounts d @ [a]" "acc_id a = fresh_uuid e n0" "acc_login_handle_normalized a = h"
      "acc_auth_protocol a = AUTH_PROTOCOL" "acc_auth_verifier_salt a = s2" "acc_auth_stored_key a = k1"
    by (rule registration_inserts [OF fresh_rowsD(1) [OF assms(18,19)] assms(9,10) m(1,3) salts assms(11,12,13)
          fresh_rowsD(2) [OF assms(18,20)] fresh_rowsD(3) [OF assms(18,19)] assms(16) fresh_drawsD(2) [OF fd assms(22)]
          assms(17) len(2) assms(14,15) fresh_rowsD(4) [OF assms(18,21)] fresh_rowsD(5) [OF assms(18,19)]
          fresh_drawsD(3) [OF fd assms(23)] fresh_drawsD(4) [OF fd assms(24)] len(1) le])
  have stored: "account_stored (ext e) (fresh_uuid e n0) h (rg_auth_verifier_salt r) k1 (set_consumed i now d7)" for i
    using a by (auto simp: account_stored_def salt)
  show ?thesis
    unfolding register_tx_def unavailable_if_taken_def
    apply (simp add: wp_eqs assms(2,8) q query_def command_def found c decode_register_json m decode_encode [OF assms(6)] ok_or_def
        ins insert_audit_event_def consume_auth_challenge_def Let_def)
    apply (rule assms(25))
      apply simp_all
    apply (rule stored)
    done
qed

text \<open>What the client sends: the two keys of the verifier that it derives from its secret and the salt of the answer,
  its wrapped keys, the identifier of its first vault, and its device.\<close>

definition client_register ::
  "externals \<Rightarrow> bytes \<Rightarrow> encrypted_envelope_request \<Rightarrow> initial_vault_request \<Rightarrow> device_request \<Rightarrow> register_start_response
   \<Rightarrow> register_finish_request option" where
  "client_register X secret keyset vault dev r =
     (case decode_base64url_array X DEFAULT_SALT_BYTES (rg_auth_verifier_salt r) of
        Inl _ \<Rightarrow> None
      | Inr salt \<Rightarrow>
          map_option (\<lambda>v. \<lparr>rq_registration_id = rg_registration_id r, rq_auth_protocol = AUTH_PROTOCOL,
              rq_auth_stored_key = encode_base64url X (sv_stored_key v), rq_auth_server_key = encode_base64url X (sv_server_key v),
              rq_encrypted_account_keyset = keyset, rq_initial_vault = vault, rq_device = dev\<rparr>)
            (ok (derive_verifier X secret salt (rg_auth_verifier_iterations r))))"

text \<open>The two keys of a verifier differ, as they do for a hash without a known collision.\<close>

definition keys_differ :: "externals \<Rightarrow> bool" where
  "keys_differ X \<longleftrightarrow> (\<forall>k. sha256 X (hmac_sha256 X k (as_bytes ''Client Key'')) \<noteq> hmac_sha256 X k (as_bytes ''Server Key''))"

lemma client_register_of:
  assumes "registration_pending X h b r d" and "base64url_roundtrip X" and "hmac_lengths X" and "sha256_is_32_bytes X" and "keys_differ X"
  obtains v salt where "rg_auth_verifier_salt r = encode_base64url X salt" and "length salt = DEFAULT_SALT_BYTES"
    and "derive_verifier X secret salt DEFAULT_ITERATIONS = Inr v"
    and "length (sv_stored_key v) = 32" and "length (sv_server_key v) = 32" and "sv_stored_key v \<noteq> sv_server_key v"
    and "client_register X secret keyset vault dev r = Some \<lparr>rq_registration_id = rg_registration_id r, rq_auth_protocol = AUTH_PROTOCOL,
        rq_auth_stored_key = encode_base64url X (sv_stored_key v), rq_auth_server_key = encode_base64url X (sv_server_key v),
        rq_encrypted_account_keyset = keyset, rq_initial_vault = vault, rq_device = dev\<rparr>"
proof -
  obtain salt where salt: "rg_auth_verifier_salt r = encode_base64url X salt" "length salt = DEFAULT_SALT_BYTES"
      "rg_auth_verifier_iterations r = DEFAULT_ITERATIONS"
    using assms(1) unfolding registration_pending_def by blast
  obtain sp where sp: "salted_password X secret salt DEFAULT_ITERATIONS = Inr sp"
    using salt(2) by (simp add: salted_password_Inr_iff DEFAULT_ITERATIONS_def MIN_ITERATIONS_def MAX_ITERATIONS_def
        MIN_SALT_BYTES_def DEFAULT_SALT_BYTES_def)
  let ?v = "\<lparr>sv_stored_key = sha256 X (hmac_sha256 X sp (as_bytes ''Client Key'')),
      sv_server_key = hmac_sha256 X sp (as_bytes ''Server Key'')\<rparr>"
  have v: "derive_verifier X secret salt DEFAULT_ITERATIONS = Inr ?v" by (simp add: derive_verifier_def sp Let_def)
  have "decode_base64url_array X DEFAULT_SALT_BYTES (encode_base64url X salt) = Inr salt"
    using salt(2) by (simp add: decode_encode [OF assms(2)])
  then have "client_register X secret keyset vault dev r = Some \<lparr>rq_registration_id = rg_registration_id r, rq_auth_protocol = AUTH_PROTOCOL,
        rq_auth_stored_key = encode_base64url X (sv_stored_key ?v), rq_auth_server_key = encode_base64url X (sv_server_key ?v),
        rq_encrypted_account_keyset = keyset, rq_initial_vault = vault, rq_device = dev\<rparr>"
    unfolding client_register_def salt(1,3) by (simp add: v)
  then show thesis
    by (intro that [OF salt(1,2) v])
      (use assms(3-5) in \<open>simp_all add: sha256_is_32_bytes_def hmac_lengths_def keys_differ_def\<close>)
qed

lemma wp_register_finish_known:
  assumes "dependable e u" and "w_txn w = None" and "w_db w = d" and "distinct (map ch_id (auth_challenges d))"
    and "registration_pending (ext e) h (u div 1000000 * 1000000 + REGISTER_CHALLENGE_TTL) r d"
    and "base64url_roundtrip (ext e)" and "sha256_is_32_bytes (ext e)"
    and "h \<notin> acc_login_handle_normalized ` set (accounts d)" and "nonblank h"
    and "length k1 = 32" and "length k2 = 32" and "k1 \<noteq> k2"
    and "envelope_from_request (ext e) keyset ACCOUNT_KEYSET_CRYPTO_VERSION = Inr ks"
    and "envelope_from_request (ext e) (iv_encrypted_vault_key vault) VAULT_KEY_WRAP_CRYPTO_VERSION = Inr vk"
    and "ve_key_id ks = ve_key_id vk" and "device_from_request (ext e) dev = Inr dv"
    and "iv_vault_id vault \<notin> va_id ` set (vaults d)" and "fresh_rows e N d" and "{w_tick w..w_tick w + 10} \<subseteq> N"
  shows "wp e (register_finish \<lparr>rq_registration_id = rg_registration_id r, rq_auth_protocol = AUTH_PROTOCOL,
        rq_auth_stored_key = encode_base64url (ext e) k1, rq_auth_server_key = encode_base64url (ext e) k2,
        rq_encrypted_account_keyset = keyset, rq_initial_vault = vault, rq_device = dev\<rparr>)
    (\<lambda>resp w'. rs_status resp = 201
      \<and> account_stored (ext e) (rf_account_id (rs_body resp)) h (rg_auth_verifier_salt r) k1 (w_db w')) (\<lambda>_ _. False) w"
proof -
  have q: "quiet e" "cf_database (conf e)" "\<And>n. fault_at e n = Fine" using assms(1) by (simp_all add: dependable_def quiet_def)
  let ?now = "clock e (w_tick w) div 1000000 * 1000000" and ?n = "w_tick w"
  obtain x y where times: "rfc3339 (ext e) (?now + SESSION_IDLE_TTL) = Some x" "rfc3339 (ext e) (?now + SESSION_ABSOLUTE_TTL) = Some y"
    by (rule session_times_format [OF assms(1) refl])
  have header: "header_value_ok (ext e) (session_cookie (ext e) tok)" for tok using assms(1) by (simp add: dependable_def)
  have dv: "valid_device dv" using assms(16) by (auto simp: device_from_request_def intro: valid_device_request)
  have le: "?now \<le> u div 1000000 * 1000000 + REGISTER_CHALLENGE_TTL"
    using dependable_clock(2) [OF assms(1), of ?n] by (simp add: REGISTER_CHALLENGE_TTL_def LOGIN_CHALLENGE_TTL_def minutes_def seconds_def)
  have N: "Suc ?n \<in> N" "Suc (Suc ?n) \<in> N" "Suc (Suc (Suc ?n)) \<in> N" "Suc (Suc (Suc (Suc ?n))) \<in> N"
    "Suc (Suc (Suc (Suc (Suc ?n)))) \<in> N" "Suc (Suc (Suc (Suc (Suc (Suc ?n))))) \<in> N"
    using assms(19) by (auto simp: subset_iff)
  show ?thesis
    unfolding register_finish_def wp_handler random_token_def
    apply (simp add: wp_eqs q ensure_supported_protocol_def decode_encode [OF assms(6)] assms(10-16) AUTH_KEY_BYTES_def Let_def)
    apply (rule wp_register_tx_known [OF q(1) _ assms(4,5) le assms(6,7) _ assms(8,9,10,11) envelope_sound [OF assms(13)]
          envelope_sound [OF assms(14)] assms(15) dv _ assms(18) N])
       apply (simp_all add: assms(3,17))
    apply (unfold wp_try wp_unavailable)
    apply (subst wp_commit, assumption)
    apply (simp add: wp_eqs q telemetry_defs times header no_store_json_def Let_def)
    done
qed

section \<open>The account of the client\<close>

lemma fresh_rows_later:
  assumes "fresh_rows e {m..<k} (w_db w)" and "challenge_added e w w'" and "m \<le> w_tick w"
  shows "fresh_rows e {w_tick w'..<k} (w_db w')"
proof -
  have same: "w_db w' = (w_db w)\<lparr>auth_challenges := auth_challenges (w_db w')\<rparr>" using assms(2) by (simp add: challenge_added_def)
  have "accounts (w_db w') = accounts (w_db w)" "account_keysets (w_db w') = account_keysets (w_db w)"
    "vault_key_wraps (w_db w') = vault_key_wraps (w_db w)"
    using arg_cong [OF same, of accounts] arg_cong [OF same, of account_keysets] arg_cong [OF same, of vault_key_wraps] by simp_all
  moreover have "fresh_draws e {w_tick w'..<k} (w_db w')"
    by (rule fresh_draws_later [OF _ assms(2,3)]) (use assms(1) in \<open>simp add: fresh_rows_def\<close>)
  moreover have "{w_tick w'..<k} \<subseteq> {m..<k}" using assms(2,3) by (auto simp: challenge_added_def)
  ultimately show ?thesis using assms(1) by (auto simp: fresh_rows_def)
qed


section \<open>Witness\<close>

text \<open>The sample functions with a keyed hash that puts the message first, so that the two keys of a verifier differ.\<close>

definition sample_keyed :: externals where
  "sample_keyed = sample\<lparr>hmac_sha256 := (\<lambda>k m. take_pad 32 (m @ k))\<rparr>"

definition keyed_env :: env where
  "keyed_env = sample_env\<lparr>ext := sample_keyed\<rparr>"

lemma keyed_laws:
  "base64url_roundtrip sample_keyed" "hmac_lengths sample_keyed" "sha256_is_32_bytes sample_keyed" "keys_differ sample_keyed"
proof -
  show "base64url_roundtrip sample_keyed" "hmac_lengths sample_keyed" "sha256_is_32_bytes sample_keyed"
    by (simp_all add: base64url_roundtrip_def hmac_lengths_def sha256_is_32_bytes_def sample_keyed_def sample_def hex_roundtrip)
  have "hd (as_bytes ''Client Key'') \<noteq> (hd (as_bytes ''Server Key'') :: byte)" by (simp add: as_bytes_def)
  moreover have "hd (take_pad 32 (take_pad 32 (as_bytes ''Client Key'' @ k))) = hd (as_bytes ''Client Key'')"
    "hd (take_pad 32 (as_bytes ''Server Key'' @ k)) = hd (as_bytes ''Server Key'')" for k
    by (simp_all add: take_pad_def as_bytes_def)
  ultimately have "take_pad 32 (take_pad 32 (as_bytes ''Client Key'' @ k)) \<noteq> take_pad 32 (as_bytes ''Server Key'' @ k)" for k
    by metis
  then show "keys_differ sample_keyed" by (simp add: keys_differ_def sample_keyed_def sample_def)
qed

lemma keyed_same:
  "envelope_from_request sample_keyed = envelope_from_request sample" "device_from_request sample_keyed = device_from_request sample"
  by (simp_all add: fun_eq_iff envelope_from_request_def decode_base64url_array_def decode_base64url_def device_from_request_def
      device_from_parts_def sample_keyed_def cong: if_cong)

lemma keyed_dependable: "dependable keyed_env (seconds 1000)"
proof -
  have "rfc3339 sample_keyed = rfc3339 sample" "header_value_ok sample_keyed = header_value_ok sample"
    "session_cookie sample_keyed = session_cookie sample"
    by (simp_all add: sample_keyed_def session_cookie_def encode_base64url_def fun_eq_iff)
  then show ?thesis using sample_dependable by (simp add: dependable_def keyed_env_def quiet_def)
qed

lemma keyed_rows: "\<forall>n \<in> N. n < 2 ^ 128 \<Longrightarrow> fresh_rows keyed_env N empty_db"
  using sample_draws [of N empty_db] by (simp add: fresh_rows_def fresh_draws_def keyed_env_def empty_db_def)


end
