(* ===== verification/PV_Issued.thy ===== *)
theory PV_Issued
  imports PV_Service
begin

text \<open>
  From the answer of a login back to the next request: a session cookie that the service hands out is the
  key of a stored session that is neither revoked nor on a revoked device, and returned in the cookie
  header it opens that session until the session expires.
\<close>

section \<open>Sessions behind cookies\<close>

definition session_for :: "bytes \<Rightarrow> string \<Rightarrow> db \<Rightarrow> bool" where
  "session_for token_hash state d \<longleftrightarrow>
     (\<exists>s \<in> set (sessions d). se_session_token_hash s = token_hash \<and> se_session_state s = state
        \<and> se_revoked_at s = None \<and> device_revocation d s = None)"

text \<open>The answer carries the cookie of a new token, and the session of that token is stored.\<close>

definition issued :: "externals \<Rightarrow> string \<Rightarrow> 'b response \<Rightarrow> db \<Rightarrow> bool" where
  "issued X state resp d \<longleftrightarrow>
     (\<exists>tok. rs_set_cookie resp = Some (session_cookie X tok) \<and> length tok = TOKEN_LEN
        \<and> session_for (sha256_verifier X tok) state d)"

lemma issuedI:
  "session_for (sha256_verifier X tok) state d \<Longrightarrow> length tok = TOKEN_LEN \<Longrightarrow>
     rs_set_cookie resp = Some (session_cookie X tok) \<Longrightarrow> issued X state resp d"
  unfolding issued_def by blast

lemma session_for_cong:
  assumes "session_for k state d" and "sessions d' = sessions d" and "devices d' = devices d"
  shows "session_for k state d'"
proof -
  have "device_of d' = device_of d" by (simp add: device_of_def fun_eq_iff assms(3))
  with assms(1,2) show ?thesis by (simp add: session_for_def device_revocation_def cong: option.case_cong)
qed

lemma new_device_row:
  assumes "new_device i a dv seen d = Inr d'"
  shows "\<exists>r. d' = d\<lparr>devices := devices d @ [r]\<rparr> \<and> dev_id r = i \<and> dev_revoked_at r = None
    \<and> i \<notin> dev_id ` set (devices d)"
  using assms unfolding new_device_def insert_device_def constrained_Inr_iff by auto

text \<open>A session for a device that has just been added.\<close>

lemma session_for_new:
  assumes "new_device i a dv seen d = Inr d1" and "devices d2 = devices d1"
    and "new_session j a i k state idle absolute seen2 d2 = Inr d3"
  shows "session_for k state d3"
proof -
  obtain r where r: "devices d1 = devices d @ [r]" "dev_id r = i" "dev_revoked_at r = None"
      "i \<notin> dev_id ` set (devices d)"
    using new_device_row [OF assms(1)] by auto
  have "device_of d2 a i = None \<or> device_of d2 a i = Some r"
  proof -
    have none: "find (\<lambda>v. dev_account_id v = a \<and> dev_id v = i) (devices d) = None"
      using r(4) by (auto simp: find_None_iff)
    show ?thesis unfolding device_of_def assms(2) r(1) by (simp add: find_append_right none)
  qed
  moreover from assms(3) have "d3 = d2\<lparr>sessions := sessions d2 @ [\<lparr>se_id = j, se_account_id = a, se_device_id = Some i,
      se_session_token_hash = k, se_csrf_token_hash = None, se_session_state = state,
      se_last_seen_at = seen2, se_expires_at = idle, se_idle_expires_at = idle,
      se_absolute_expires_at = absolute, se_revoked_at = None\<rparr>]\<rparr>"
    unfolding new_session_def insert_session_def constrained_Inr_iff by blast
  ultimately show ?thesis using r(3) by (auto simp: session_for_def device_revocation_def device_of_def)
qed

lemma wp_create_session_token:
  assumes "\<And>d' t i tok w'. w_txn w' = Some (d', t) \<Longrightarrow> length tok = TOKEN_LEN \<Longrightarrow>
      session_for (sha256_verifier (ext e) tok) state d' \<Longrightarrow>
      Q (i, tok, now + SESSION_IDLE_TTL, now + SESSION_ABSOLUTE_TTL) w'"
    and "\<And>x w'. R x w'"
  shows "wp e (create_session_with_device a dv state now) Q R w"
  unfolding create_session_with_device_def random_token_def Let_def
  apply (intro vc_rules assms(2))
  apply (rule assms(1), assumption)
   apply (auto simp: same_state_def intro: session_for_new)
  done

section \<open>The handlers that hand out cookies\<close>

lemmas session_kept = session_for_cong [where d' = "d\<lparr>audit_events := x\<rparr>" for d x, simplified]
  session_for_cong [where d' = "set_consumed i now d" for i now d, simplified]
  session_for_cong [where d' = "set_last_step i s d" for i s d, simplified]

lemma wp_setup_session_issued:
  "wp e (create_setup_session a dv now) (\<lambda>resp w'. issued (ext e) ''mfa_enrollment_required'' resp (w_db w'))
     (\<lambda>_ _. True) w"
  unfolding create_setup_session_def telemetry_defs counter_def
  by (intro vc_rules wp_create_session_token wp_audit_event) (auto simp: same_state_def intro!: issuedI intro: session_kept)

lemma wp_totp_accepted_issued:
  "wp e (totp_login_accepted i a f dv s now) (\<lambda>resp w'. issued (ext e) ''mfa_verified'' resp (w_db w'))
     (\<lambda>_ _. True) w"
  unfolding totp_login_accepted_def consume_auth_challenge_def telemetry_defs counter_def
  by (intro vc_rules wp_create_session_token wp_audit_event) (auto simp: same_state_def intro!: issuedI intro: session_kept)

lemma wp_recovery_accepted_issued:
  "wp e (recovery_login_accepted i a f dv now) (\<lambda>resp w'. issued (ext e) ''mfa_recovery'' resp (w_db w'))
     (\<lambda>_ _. True) w"
  unfolding recovery_login_accepted_def consume_auth_challenge_def telemetry_defs counter_def
  by (intro vc_rules wp_consume_recovery_code wp_create_session_token wp_audit_event) (auto simp: same_state_def intro!: issuedI intro: session_kept)

text \<open>A second factor is asked for without a cookie.\<close>

definition cookie_issued :: "externals \<Rightarrow> string \<Rightarrow> 'b response \<Rightarrow> db \<Rightarrow> bool" where
  "cookie_issued X state resp d \<longleftrightarrow> rs_set_cookie resp = None \<or> issued X state resp d"

lemma cookie_issuedI: "issued X state resp d \<Longrightarrow> cookie_issued X state resp d"
  by (simp add: cookie_issued_def)

lemma wp_issue_mfa_issued:
  "wp e (issue_mfa_challenge i a h dv now) (\<lambda>resp w'. cookie_issued (ext e) state resp (w_db w')) (\<lambda>_ _. True) w"
  unfolding issue_mfa_challenge_def insert_auth_challenge_tx_def insert_challenge_stmt_def
    insert_audit_event_def telemetry_defs counter_def Let_def
  by (intro vc_rules) (simp_all add: cookie_issued_def no_store_json_def)

lemma vc_true: "wp e m (\<lambda>_ _. True) (\<lambda>_ _. True) w"
  by (simp add: wp_def split: prod.splits sum.splits)

text \<open>The failing ends of the handlers never answer.\<close>

lemma wp_reject_never: "wp e (reject_login i now f) Q (\<lambda>_ _. True) w"
  using wp_reject_login by (rule wp_mono) simp_all

lemma wp_totp_never: "wp e (totp_login_failed i a f now) Q (\<lambda>_ _. True) w"
  unfolding totp_login_failed_def increment_challenge_attempts_def telemetry_defs counter_def
  by (intro vc_rules wp_audit_event) simp_all

lemma wp_recovery_never: "wp e (recovery_login_failed i a now) Q (\<lambda>_ _. True) w"
  unfolding recovery_login_failed_def increment_challenge_attempts_def telemetry_defs counter_def
  by (intro vc_rules wp_audit_event) simp_all

lemma wp_enroll_never: "wp e (enroll_confirm_failed session f) Q (\<lambda>_ _. True) w"
  unfolding enroll_confirm_failed_def telemetry_defs counter_def
  by (intro vc_rules wp_audit_event) simp_all

lemma wp_setup_session_cookie:
  "wp e (create_setup_session a dv now)
     (\<lambda>resp w'. cookie_issued (ext e) ''mfa_enrollment_required'' resp (w_db w')) (\<lambda>_ _. True) w"
  by (rule wp_mono [OF wp_setup_session_issued]) (simp_all add: cookie_issuedI)

lemma wp_check_any: "(\<And>b w'. Q b w') \<Longrightarrow> wp e (check_login_proof a m k msg p) Q (\<lambda>_ _. True) w"
  by (rule wp_mono [OF vc_true]) simp_all

lemma wp_login_tx_issued:
  "wp e (login_tx i cn sn cf p dv now)
     (\<lambda>resp w'. cookie_issued (ext e) ''mfa_enrollment_required'' resp (w_db w')) (\<lambda>_ _. True) w"
  unfolding login_tx_def consume_auth_challenge_def Let_def telemetry_defs counter_def
  by (intro vc_rules wp_reject_never wp_setup_session_cookie wp_issue_mfa_issued wp_check_any) simp_all

lemma wp_login_issued:
  "wp e (login_finish h r) (\<lambda>resp w'. cookie_issued (ext e) ''mfa_enrollment_required'' resp (w_db w'))
     (\<lambda>_ _. True) w"
  unfolding login_finish_def telemetry_defs counter_def
  by (intro vc_rules wp_mono [OF wp_login_tx_issued]) (simp_all add: cookie_issued_def issued_def)

lemma wp_totp_tx_issued:
  "wp e (totp_verify_tx i c key now) (\<lambda>resp w'. issued (ext e) ''mfa_verified'' resp (w_db w')) (\<lambda>_ _. True) w"
  unfolding totp_verify_tx_def telemetry_defs counter_def
  by (intro vc_rules wp_totp_never wp_totp_accepted_issued) simp_all

lemma wp_totp_issued:
  "wp e (totp_verify h i c) (\<lambda>resp w'. issued (ext e) ''mfa_verified'' resp (w_db w')) (\<lambda>_ _. True) w"
  unfolding totp_verify_def
  by (intro vc_rules wp_mono [OF wp_totp_tx_issued]) (simp_all add: issued_def)

lemma wp_find_any: "(\<And>b w'. Q b w') \<Longrightarrow> wp e (find_matching_recovery_code a c) Q (\<lambda>_ _. True) w"
  by (rule wp_mono [OF vc_true]) simp_all

lemma wp_load_any: "(\<And>b w'. Q b w') \<Longrightarrow> wp e (load_pre_mfa_challenge i now) Q (\<lambda>_ _. True) w"
  by (rule wp_mono [OF vc_true]) simp_all

lemma wp_recovery_tx_issued:
  "wp e (recovery_code_verify_tx i c now) (\<lambda>resp w'. issued (ext e) ''mfa_recovery'' resp (w_db w'))
     (\<lambda>_ _. True) w"
  unfolding recovery_code_verify_tx_def telemetry_defs counter_def
  by (intro vc_rules wp_recovery_never wp_recovery_accepted_issued wp_find_any wp_load_any) simp_all

lemma wp_recovery_issued:
  "wp e (recovery_code_verify h i c) (\<lambda>resp w'. issued (ext e) ''mfa_recovery'' resp (w_db w')) (\<lambda>_ _. True) w"
  unfolding recovery_code_verify_def
  by (intro vc_rules wp_mono [OF wp_recovery_tx_issued]) (simp_all add: issued_def)

section \<open>Registration and the confirmation of an enrolment\<close>

lemma new_row_tables:
  "new_vault v a g t d = Inr d' \<Longrightarrow> devices d' = devices d \<and> sessions d' = sessions d"
  "new_key_wrap n v a key d = Inr d' \<Longrightarrow> devices d' = devices d \<and> sessions d' = sessions d"
  by (auto simp: new_vault_def new_key_wrap_def insert_vault_def insert_key_wrap_def)

lemma wp_register_tx_issued:
  assumes "\<And>d' t w'. w_txn w' = Some (d', t) \<Longrightarrow> session_for k ''mfa_enrollment_required'' d' \<Longrightarrow> Q () w'"
    and "\<And>x w'. R x w'"
  shows "wp e (register_tx request k1 k2 keyset vault_key dv now a b c i j k) Q R w"
  unfolding register_tx_def consume_auth_challenge_def unavailable_if_taken_def
  apply (intro vc_rules wp_audit_event assms(2))
  apply (rule assms(1), assumption)
  apply (auto simp: same_state_def dest!: new_row_tables
      intro!: session_kept intro: session_for_new)
  done

lemma wp_register_issued:
  "wp e (register_finish r) (\<lambda>resp w'. issued (ext e) ''mfa_enrollment_required'' resp (w_db w')) (\<lambda>_ _. True) w"
  unfolding register_finish_def telemetry_defs counter_def random_token_def
  by (intro vc_rules wp_register_tx_issued) (auto simp: same_state_def intro!: issuedI)

text \<open>Confirming an enrolment gives the requesting session a new token.\<close>

definition open_session :: "uuid \<Rightarrow> db \<Rightarrow> bool" where
  "open_session i d \<longleftrightarrow>
     (\<exists>s \<in> set (sessions d). se_id s = i \<and> se_revoked_at s = None \<and> device_revocation d s = None)"

lemma open_session_cong:
  assumes "open_session i d" and "sessions d' = sessions d" and "devices d' = devices d"
  shows "open_session i d'"
proof -
  have "device_of d' = device_of d" by (simp add: device_of_def fun_eq_iff assms(3))
  with assms(1,2) show ?thesis by (simp add: open_session_def device_revocation_def cong: option.case_cong)
qed

lemma live_open_session: "live_session d now s \<Longrightarrow> open_session (se_id s) d"
  by (auto simp: live_session_def open_session_def)

lemma upgraded_session:
  assumes "upgrade_session i k now idle d = Inr d'" and "open_session i d"
  shows "session_for k ''mfa_verified'' d'"
proof -
  let ?f = "\<lambda>r :: session_row. r\<lparr>se_session_token_hash := k, se_csrf_token_hash := None,
      se_session_state := ''mfa_verified'', se_last_seen_at := Some now, se_idle_expires_at := idle, se_expires_at := idle\<rparr>"
  from assms(1) have d': "d' = d\<lparr>sessions := update_where (\<lambda>r. se_id r = i) ?f (sessions d)\<rparr>"
    unfolding upgrade_session_def update_sessions_def Let_def constrained_Inr_iff by simp
  from assms(2) obtain s where s: "s \<in> set (sessions d)" "se_id s = i" "se_revoked_at s = None"
      "device_revocation d s = None" by (auto simp: open_session_def)
  have "?f s \<in> set (sessions d')" using s(1,2) by (auto simp: d' set_update_where)
  moreover have "device_revocation d' (?f s) = None"
    using s(4) by (simp add: d' device_revocation_def device_of_def cong: option.case_cong)
  ultimately show ?thesis
    unfolding session_for_def by (intro bexI [of _ "?f s"]) (simp_all add: s(3))
qed

lemma upgraded_session_kept:
  assumes "open_session i d0" and "upgrade_session i k now idle d = Inr d1"
    and "sessions d = sessions d0" and "devices d = devices d0"
  shows "session_for k ''mfa_verified'' (d1\<lparr>audit_events := x\<rparr>)"
proof (rule session_for_cong)
  show "session_for k ''mfa_verified'' d1"
    by (rule upgraded_session [OF assms(2) open_session_cong [OF assms(1,3,4)]])
qed simp_all

lemma wp_enroll_accepted_issued:
  assumes "w_txn w = Some (d, t)" and "open_session (cs_id session) d"
  shows "wp e (enroll_confirm_accepted session f s now)
     (\<lambda>resp w'. issued (ext e) ''mfa_verified'' resp (w_db w')) (\<lambda>_ _. True) w"
  unfolding enroll_confirm_accepted_def generate_recovery_codes_def random_token_def telemetry_defs counter_def
    step_column_def Let_def no_store_json_def
  apply (intro vc_rules wp_generate_codes wp_store_codes wp_audit_event)
  apply (use assms in \<open>simp_all add: same_state_def split: if_splits\<close>)
  apply (rule issuedI, rule upgraded_session_kept [OF assms(2)], assumption)
     apply (auto simp: delete_recovery_codes_def set_verified_def)
  done

lemma wp_enroll_tx_issued:
  assumes "w_txn w = Some (d, t)" and "open_session (cs_id session) d"
  shows "wp e (enroll_confirm_tx session f c key now)
     (\<lambda>resp w'. issued (ext e) ''mfa_verified'' resp (w_db w')) (\<lambda>_ _. True) w"
  unfolding enroll_confirm_tx_def telemetry_defs counter_def
  by (intro vc_rules wp_enroll_never wp_enroll_accepted_issued) (use assms in \<open>simp_all add: same_state_def\<close>)

lemma wp_enroll_issued:
  "wp e (totp_enroll_confirm h f c) (\<lambda>resp w'. issued (ext e) ''mfa_verified'' resp (w_db w')) (\<lambda>_ _. True) w"
  unfolding totp_enroll_confirm_def
  apply (intro vc_rules wp_check_session wp_ensure_csrf wp_mono [OF wp_enroll_tx_issued])
  apply (auto simp: same_state_def issued_def dest: live_open_session)
  done

section \<open>Answers without a cookie\<close>

definition yields :: "('a \<Rightarrow> bool) \<Rightarrow> ('e, 'a) io \<Rightarrow> bool" where
  "yields P m \<longleftrightarrow> (\<forall>e w r w'. m e w = (Inr r, w') \<longrightarrow> P r)"

lemma yields_ret: "P a \<Longrightarrow> yields P (ret a)"
  by (simp add: yields_def ret_def)

lemma yields_throw: "yields P (throw x)"
  by (simp add: yields_def throw_def)

lemma yields_try: "(\<And>a. yields P (f a)) \<Longrightarrow> yields P (try_io m f)"
  by (fastforce simp: yields_def try_io_def split: prod.splits sum.splits)

lemma yields_handler: "yields P m \<Longrightarrow> yields P (handler m)"
  by (fastforce simp: yields_def handler_def split: prod.splits)

lemma yields_if: "(b \<Longrightarrow> yields P m) \<Longrightarrow> (\<not> b \<Longrightarrow> yields P n) \<Longrightarrow> yields P (if b then m else n)"
  by simp

lemma yields_case_option:
  "yields P m \<Longrightarrow> (\<And>a. yields P (f a)) \<Longrightarrow> yields P (case x of None \<Rightarrow> m | Some a \<Rightarrow> f a)"
  by (cases x) simp_all

lemma yields_case_sum:
  "(\<And>a. yields P (f a)) \<Longrightarrow> (\<And>b. yields P (g b)) \<Longrightarrow> yields P (case x of Inl a \<Rightarrow> f a | Inr b \<Rightarrow> g b)"
  by (cases x) simp_all

lemma yields_case_prod: "(\<And>a b. yields P (f a b)) \<Longrightarrow> yields P (case x of (a, b) \<Rightarrow> f a b)"
  by (cases x) simp

lemmas yields_rules =
  yields_ret yields_throw yields_try yields_handler yields_if yields_case_option yields_case_sum yields_case_prod

abbreviation no_cookie :: "'b response \<Rightarrow> bool" where
  "no_cookie r \<equiv> rs_set_cookie r = None"

lemma no_cookie_json [simp]: "no_cookie (no_store_json s b)"
  by (simp add: no_store_json_def)

lemma no_cookie_conflict [simp]: "no_cookie (vault_conflict_response X f v)"
  by (simp add: vault_conflict_response_def)

lemma no_cookie_or_conflict: "yields no_cookie k \<Longrightarrow> yields no_cookie (or_conflict v m k)"
  unfolding or_conflict_def
  by (intro yields_rules) (simp_all add: yields_rules split: sum.split vault_write_error.split)

lemma no_cookie_handlers:
  "yields no_cookie (register_start a b)" "yields no_cookie (login_start r)"
  "yields no_cookie (totp_enroll_start h)" "yields no_cookie (csrf_token h)"
  "yields no_cookie (list_vaults h)" "yields no_cookie (sync_vault h v n k)"
  "yields no_cookie (create_item h v q)" "yields no_cookie (create_item_revision h v i u)"
  unfolding register_start_def login_start_def totp_enroll_start_def csrf_token_def list_vaults_def sync_vault_def
    create_item_def create_item_revision_def create_item_tx_def create_item_revision_tx_def finish_write_def Let_def
  by (intro yields_rules no_cookie_or_conflict no_cookie_json no_cookie_conflict)+

text \<open>Logging out, and asking for the status of a session that is gone, clear the cookie.\<close>

lemma clearing_handlers:
  "yields (\<lambda>r. rs_set_cookie r = Some clear_session_cookie) (logout h)"
  "yields (\<lambda>r. rs_set_cookie r = None \<or> rs_set_cookie r = Some clear_session_cookie) (session_status h)"
  unfolding logout_def session_status_def Let_def
  by (intro yields_rules; simp)+

section \<open>From the answer to the next request\<close>

text \<open>The cookie of an answer, the state of the session that a request can be answered with, and the header
  in which a browser returns a cookie: its name and value only.\<close>

fun reply_cookie :: "api_reply \<Rightarrow> string option" where
  "reply_cookie (RegisterStarted r) = rs_set_cookie r"
| "reply_cookie (RegisterFinished r) = rs_set_cookie r"
| "reply_cookie (LoginStarted r) = rs_set_cookie r"
| "reply_cookie (LoginFinished r) = rs_set_cookie r"
| "reply_cookie (TotpVerified r) = rs_set_cookie r"
| "reply_cookie (RecoveryCodeVerified r) = rs_set_cookie r"
| "reply_cookie (LoggedOut r) = rs_set_cookie r"
| "reply_cookie (TotpEnrollStarted r) = rs_set_cookie r"
| "reply_cookie (TotpEnrollConfirmed r) = rs_set_cookie r"
| "reply_cookie (CsrfTokenIssued r) = rs_set_cookie r"
| "reply_cookie (SessionReported r) = rs_set_cookie r"
| "reply_cookie (VaultsListed r) = rs_set_cookie r"
| "reply_cookie (VaultSynced r) = rs_set_cookie r"
| "reply_cookie (ItemCreated r) = rs_set_cookie r"
| "reply_cookie (ItemRevised r) = rs_set_cookie r"

fun handed_out :: "api_call \<Rightarrow> string option" where
  "handed_out (RegisterFinish _) = Some ''mfa_enrollment_required''"
| "handed_out (LoginFinish _ _) = Some ''mfa_enrollment_required''"
| "handed_out (TotpVerify _ _ _) = Some ''mfa_verified''"
| "handed_out (RecoveryCodeVerify _ _ _) = Some ''mfa_recovery''"
| "handed_out (TotpEnrollConfirm _ _ _) = Some ''mfa_verified''"
| "handed_out _ = None"

definition cookie_header :: "string \<Rightarrow> headers" where
  "cookie_header k = (\<lambda>name. if name = ''cookie'' then Some (hd (split_on CHR '';'' k)) else None)"

definition cookie_session :: "externals \<Rightarrow> api_call \<Rightarrow> string \<Rightarrow> db \<Rightarrow> bool" where
  "cookie_session X c k d \<longleftrightarrow> (\<exists>tok state. k = session_cookie X tok \<and> length tok = TOKEN_LEN
     \<and> handed_out c = Some state \<and> session_for (sha256_verifier X tok) state d)"

lemma reply_yields:
  assumes "reply f m e w = (Inr p, w')" and "yields P m"
  shows "\<exists>r. p = f r \<and> P r"
  using assms by (fastforce simp: reply_def try_io_def ret_def yields_def split: prod.splits sum.splits)

lemma reply_wp:
  assumes "reply f m e w = (Inr p, w')" and "wp e m Q (\<lambda>_ _. True) w"
  shows "\<exists>r. p = f r \<and> Q r w'"
  using assms by (auto simp: reply_def try_io_def ret_def wp_def split: prod.splits sum.splits)

lemmas quiet_replies = reply_yields [OF _ no_cookie_handlers(1)] reply_yields [OF _ no_cookie_handlers(2)]
  reply_yields [OF _ no_cookie_handlers(3)] reply_yields [OF _ no_cookie_handlers(4)]
  reply_yields [OF _ no_cookie_handlers(5)] reply_yields [OF _ no_cookie_handlers(6)]
  reply_yields [OF _ no_cookie_handlers(7)] reply_yields [OF _ no_cookie_handlers(8)]

lemmas clearing_replies = reply_yields [OF _ clearing_handlers(1)] reply_yields [OF _ clearing_handlers(2)]

lemmas issuing_replies = reply_wp [OF _ wp_register_issued] reply_wp [OF _ wp_login_issued]
  reply_wp [OF _ wp_totp_issued] reply_wp [OF _ wp_recovery_issued] reply_wp [OF _ wp_enroll_issued]

lemma serve_cookie:
  assumes "serve c e w = (Inr p, w')" and "reply_cookie p = Some k" and "k \<noteq> clear_session_cookie"
  shows "cookie_session (ext e) c k (w_db w')"
  using assms
  by (cases c) (auto simp: cookie_session_def issued_def cookie_issued_def
      dest!: quiet_replies clearing_replies issuing_replies)

lemma load_opens:
  assumes "session_token_from_headers (ext e) h = Some tok" and "unique_tokens (w_db w)"
    and "live_session (w_db w) now s" and "se_session_token_hash s = sha256_verifier (ext e) tok"
    and "fault_at e (w_tick w) = Fine"
  shows "\<exists>w'. load_current_session h now e w = (Inr (Some (session_of s)), w') \<and> w_db w' = w_db w"
proof -
  let ?P = "\<lambda>s. se_session_token_hash s = sha256_verifier (ext e) tok \<and> se_revoked_at s = None"
  have s: "s \<in> set (sessions (w_db w))" "?P s" using assms(3,4) by (simp_all add: live_session_def)
  then obtain r where r: "find ?P (sessions (w_db w)) = Some r"
    by (cases "find ?P (sessions (w_db w))") (auto simp: find_None_iff)
  then have "r \<in> set (sessions (w_db w))" "?P r" by (auto dest: find_Some_mem)
  then have "r = s" using assms(2) s distinct_map_unique unfolding unique_tokens_def by metis
  with r have row: "session_with_device (sha256_verifier (ext e) tok) (w_db w) = Some (s, device_revocation (w_db w) s)"
    by (simp add: session_with_device_def device_revocation_def)
  have "wp e (load_current_session h now) (\<lambda>c w'. c = Some (session_of s) \<and> w_db w' = w_db w) (\<lambda>_ _. False) w"
    using assms(1,3,5) row by (simp add: load_current_session_def wp_eqs query_def live_session_def session_of_def)
  then show ?thesis by (auto elim: run_of_wp)
qed

text \<open>C16. A session cookie that the service hands out opens its session. Only a finished registration, a
  finished login, a second factor and a confirmed enrolment hand one out, and one for a session with
  vault access only the last two; its token is the key of a stored session that is not revoked, and a
  browser that returns the cookie, before the session expires and while the database answers, is that
  session.\<close>

theorem issued_cookie_opens_session:
  assumes "serve c e w = (Inr p, w')" and "w_txn w = None" and "system_ok (w_db w)"
    and "reply_cookie p = Some k" and "k \<noteq> clear_session_cookie"
    and "base64url_roundtrip (ext e)" and "base64url_alphabet (ext e)"
  shows "\<exists>s \<in> set (sessions (w_db w')). handed_out c = Some (se_session_state s) \<and> se_revoked_at s = None
    \<and> (\<forall>e2 w2 now. ext e2 = ext e \<and> w_db w2 = w_db w' \<and> fault_at e2 (w_tick w2) = Fine
         \<and> now < se_idle_expires_at s \<and> now < se_absolute_expires_at s
       \<longrightarrow> (\<exists>w3. load_current_session (cookie_header k) now e2 w2 = (Inr (Some (session_of s)), w3)
             \<and> w_db w3 = w_db w2))"
proof -
  from serve_cookie [OF assms(1,4,5)] obtain tok s where k: "k = session_cookie (ext e) tok" "length tok = TOKEN_LEN"
    and s: "s \<in> set (sessions (w_db w'))" "se_session_token_hash s = sha256_verifier (ext e) tok"
      "handed_out c = Some (se_session_state s)" "se_revoked_at s = None" "device_revocation (w_db w') s = None"
    by (auto simp: cookie_session_def session_for_def)
  have token: "session_token_from_headers (ext e) (cookie_header k) = Some tok"
    unfolding k(1) cookie_header_def by (rule set_cookie_read [OF assms(6,7) k(2)])
  have "operation_step w w'" by (rule served, rule request, rule assms(1))
  from operation_step_ok [OF this assms(2,3)] have "unique_tokens (w_db w')"
    by (simp add: system_ok_def sessions_ok_def)
  with s k token show ?thesis
    by (intro bexI [of _ s] conjI allI impI load_opens) (simp_all add: live_session_def)
qed

lemma sample_totp_ok: "system_ok sample_totp_db"
  by (simp add: system_ok_def vaults_ok_def sessions_ok_def unique_tokens_def rest_defs sample_totp_db_def empty_db_def
      account_checks_def kdf_profile AUTH_PROTOCOL_def PROFILE_ID_def nonblank_def DEFAULT_ITERATIONS_def
      sample_pre_mfa_def challenge_of_def sample_account_def sample_factor_def attempts_ok_def MFA_CHALLENGE_MAX_ATTEMPTS_def)

lemma sample_cookie_not_clear:
  assumes "length tok = TOKEN_LEN"
  shows "session_cookie sample tok \<noteq> clear_session_cookie"
proof -
  from assms obtain b bs where tok: "tok = b # bs" by (cases tok) (simp_all add: TOKEN_LEN_def)
  have "visible_char c \<and> c \<noteq> CHR '';''" if "c \<in> set hex_digits" for c
    using that by (auto simp: hex_digits_def visible_char_def)
  moreover have "unat b < 2 ^ LENGTH(8)" by (rule unsigned_less)
  then have "unat b div 16 < length hex_digits" by (simp add: hex_digits_def)
  then have "nibble_char (unat b div 16) \<in> set hex_digits" unfolding nibble_char_def by (rule nth_mem)
  ultimately have "nibble_char (unat b div 16) \<noteq> CHR '';''" by blast
  then show ?thesis
    by (simp add: tok session_cookie_def clear_session_cookie_def SESSION_COOKIE_NAME_def encode_base64url_def sample_def)
qed

theorem issued_cookie_opens_session_witness:
  "\<exists>p w' k. serve (TotpVerify (\<lambda>_. None) 97 ''000000'') sample_env (world_of sample_totp_db) = (Inr p, w')
     \<and> reply_cookie p = Some k
     \<and> (\<exists>s \<in> set (sessions (w_db w')). se_session_state s = ''mfa_verified'' \<and> se_revoked_at s = None)"
proof -
  have runs: "wp sample_env (serve (TotpVerify (\<lambda>_. None) 97 ''000000'')) (\<lambda>_ _. True) (\<lambda>_ _. False)
      (world_of sample_totp_db)"
    by (simp add: reply_def wp_eqs wp_mono [OF sample_totp_runs])
  obtain p w' where run: "serve (TotpVerify (\<lambda>_. None) 97 ''000000'') sample_env (world_of sample_totp_db) = (Inr p, w')"
    by (rule run_of_wp [OF runs])
  then obtain r tok where "p = TotpVerified r" "rs_set_cookie r = Some (session_cookie sample tok)"
    and len: "length tok = TOKEN_LEN"
    by (auto simp: issued_def dest!: reply_wp [OF _ wp_totp_issued])
  then have k: "reply_cookie p = Some (session_cookie sample tok)" by simp
  have "session_cookie sample tok \<noteq> clear_session_cookie" by (rule sample_cookie_not_clear [OF len])
  from issued_cookie_opens_session [OF run _ _ k this] sample_totp_ok sample_base64url sample_alphabet run k
  show ?thesis by auto
qed

end
