(* ===== verification/PV_SecondFactor.thy ===== *)
theory PV_SecondFactor
  imports PV_Issued PV_Honest
begin

text \<open>
  The second step of an honest login: the owner of a verified authenticator, asked for a second factor,
  sends the code it shows and gets a session with access to the vault.
\<close>

section \<open>Codes that an authenticator shows\<close>

text \<open>The seed of the factor decrypts, and the code is that of a step within one period of the server's time
  that has not been accepted yet.\<close>

definition shows_code :: "externals \<Rightarrow> bytes \<Rightarrow> uuid \<Rightarrow> totp_factor_row \<Rightarrow> time \<Rightarrow> string \<Rightarrow> bool" where
  "shows_code X key a f now code \<longleftrightarrow>
     (\<exists>p seed t la s. totp_profile_from_row f = Inr p \<and> tp_digits p \<in> {6, 8} \<and> 0 < tp_period_seconds p
       \<and> tf_seed_key_id f = TOTP_SEED_KEY_ID \<and> tf_seed_aead f = TOTP_SEED_AEAD \<and> stored_step f = Inr la
       \<and> decrypt_totp_seed X key (tf_seed_nonce f) (totp_seed_aad X a (tf_id f) p) (tf_seed_ciphertext f) = Inr seed
       \<and> MIN_SEED_BYTES \<le> length seed \<and> unix_time_seconds now = Inr t \<and> t < 2 ^ 62
       \<and> t div tp_period_seconds p \<le> s + 1 \<and> s \<le> t div tp_period_seconds p + 1
       \<and> code_at X seed p s code \<and> fresh_step la s)"

lemma shown_code_accepted:
  assumes "shows_code X key a f now code" and "hmac_lengths X"
  obtains p s where "totp_profile_from_row f = Inr p" and "check_totp_code X key a f p code now = Inr (Some s)" and "s < 2 ^ 63"
proof -
  obtain p seed t la s where f: "totp_profile_from_row f = Inr p" "tp_digits p \<in> {6, 8}" "0 < tp_period_seconds p"
      "tf_seed_key_id f = TOTP_SEED_KEY_ID" "tf_seed_aead f = TOTP_SEED_AEAD" "stored_step f = Inr la"
      "decrypt_totp_seed X key (tf_seed_nonce f) (totp_seed_aad X a (tf_id f) p) (tf_seed_ciphertext f) = Inr seed"
      "MIN_SEED_BYTES \<le> length seed" "unix_time_seconds now = Inr t" "t < 2 ^ 62"
    and s: "t div tp_period_seconds p \<le> s + 1" "s \<le> t div tp_period_seconds p + 1" "code_at X seed p s code" "fresh_step la s"
    using assms(1) unfolding shows_code_def by blast
  have small: "t div tp_period_seconds p < 2 ^ 62" using f(10) by (rule le_less_trans [OF div_le_dividend])
  then have "s < 2 ^ 64 \<or> s \<le> t div tp_period_seconds p" using s(2) by simp
  then obtain s' where v: "verify X seed t code p la = Inr (Some s')"
    using window_code_verifies [OF assms(2) f(2,3,8) s(1,2) _ s(3,4)] by blast
  have "s' < 2 ^ 63" using verify_Some(4) [OF v] small by simp
  moreover have "check_totp_code X key a f p code now = Inr (Some s')"
    by (simp add: check_totp_code_def f(4-7,9) v)
  ultimately show thesis using f(1) that by blast
qed

section \<open>The handler\<close>

lemma device_validates_again:
  assumes "device_from_request X dev = Inr dv"
  shows "into_validated X (from_validated dv) = Inr dv"
proof -
  from assms obtain l where l: "validate_short_text (dq_label dev) MAX_DEVICE_LABEL_BYTES = Inr l"
    and ok: "dq_client_type dev \<in> set [''browser'', ''browser-extension'', ''ios'', ''android'', ''cli'']"
      "is_object (dq_public_metadata dev)" "\<not> json_size X (dq_public_metadata dev) > MAX_DEVICE_PUBLIC_METADATA_BYTES"
    and dv: "dv = \<lparr>vd_label = l, vd_client_type = dq_client_type dev, vd_public_metadata = dq_public_metadata dev\<rparr>"
    by (simp only: device_from_request_def device_from_parts_def and_then_Inr_iff) (metis Inr_not_Inl Inr_inject)
  from l have "validate_short_text l MAX_DEVICE_LABEL_BYTES = Inr l"
    by (auto simp: validate_short_text_def Let_def split: if_splits)
  with ok show ?thesis by (simp only: into_validated_def from_validated_def device_from_parts_def dv) simp
qed

definition vault_opened :: "externals \<Rightarrow> (string \<times> session_response) response \<Rightarrow> bool" where
  "vault_opened X resp \<longleftrightarrow> fst (rs_body resp) = ''session_created''
     \<and> session_granted X ''mfa_verified'' True (snd (rs_body resp)) (rs_set_cookie resp)"

lemma wp_totp_accepted_quiet:
  assumes "dependable e u" and "w_txn w = Some (d, t)" and "account_exists d a" and "valid_device dv"
    and "sha256_is_32_bytes (ext e)" and "fresh_draws e N d" and "{w_tick w..w_tick w + 2} \<subseteq> N"
    and "now = clock e n div 1000000 * 1000000" and "s < 2 ^ 63"
  shows "wp e (totp_login_accepted i a f dv s now) (\<lambda>resp _. vault_opened (ext e) resp) (\<lambda>_ _. False) w"
proof -
  have q: "quiet e" "\<And>n. fault_at e n = Fine" using assms(1) by (simp_all add: dependable_def quiet_def)
  obtain x y where times: "rfc3339 (ext e) (now + SESSION_IDLE_TTL) = Some x" "rfc3339 (ext e) (now + SESSION_ABSOLUTE_TTL) = Some y"
    by (rule session_times_format [OF assms(1,8)])
  have header: "header_value_ok (ext e) (session_cookie (ext e) tok)" for tok using assms(1) by (simp add: dependable_def)
  show ?thesis
    unfolding totp_login_accepted_def wp_try wp_ask
    apply (rule wp_session_quiet [OF q(1) assms(2,3,4) _ assms(5-7)], simp)
    apply (simp add: wp_eqs q(2) step_column_def assms(9) [simplified] command_def consume_auth_challenge_def Let_def)
    apply (rule wp_audit_quiet [OF q(1)], simp)
      apply (use assms(3) in \<open>simp_all add: account_exists_def nonblank_def wp_eqs q(2) telemetry_defs times header Let_def
        no_store_json_def vault_opened_def session_granted_def\<close>)
    apply blast
    done
qed

lemma wp_totp_verify_quiet:
  assumes "dependable e u" and "w_txn w = None" and "system_ok (w_db w)" and "account_exists (w_db w) a"
    and "sha256_is_32_bytes (ext e)" and "hmac_lengths (ext e)" and "uuid_roundtrip (ext e)"
    and "fresh_draws e {w_tick w..w_tick w + 10} (w_db w)" and "device_from_request (ext e) dev = Inr dv"
    and "ensure_unsafe_request_context h = Inr ()" and "cf_totp_seed_key (conf e) = Some key"
    and "mfa_pending (ext e) a dv (u div 1000000 * 1000000 + LOGIN_CHALLENGE_TTL) i (w_db w)"
    and "verified_factor a (w_db w) = Some f"
    and "shows_code (ext e) key a f (clock e (w_tick w) div 1000000 * 1000000) code"
  shows "wp e (totp_verify h i code) (\<lambda>resp _. vault_opened (ext e) resp) (\<lambda>_ _. False) w"
proof -
  have q: "cf_database (conf e)" "\<And>n. fault_at e n = Fine" using assms(1) by (simp_all add: dependable_def quiet_def)
  let ?now = "clock e (w_tick w) div 1000000 * 1000000"
  obtain c j where c: "c \<in> set (auth_challenges (w_db w))" "ch_id c = i" "ch_challenge_type c = ''pre_mfa''"
      "ch_auth_protocol c = AUTH_PROTOCOL" "ch_consumed_at c = None" "u div 1000000 * 1000000 + LOGIN_CHALLENGE_TTL \<le> ch_expires_at c"
      "ch_account_id c = Some a" "ch_attempts c = 0"
      "ch_public_metadata c = pre_mfa_metadata_json (ext e) \<lparr>pm_login_challenge_id = j, pm_device = from_validated dv\<rparr>"
    using assms(12) unfolding mfa_pending_def by blast
  have found: "totp_login_challenge i ?now (w_db w) = Some c"
    unfolding totp_login_challenge_def
    by (rule find_unique [of ch_id])
      (use assms(3) c dependable_clock(2) [OF assms(1), of "w_tick w"] in \<open>auto simp: system_ok_def rest_defs open_challenge_def\<close>)
  obtain p s where p: "totp_profile_from_row f = Inr p" "check_totp_code (ext e) key a f p code ?now = Inr (Some s)" "s < 2 ^ 63"
    by (rule shown_code_accepted [OF assms(14,6)])
  have dv: "valid_device dv" using assms(9) by (auto simp: device_from_request_def intro: valid_device_request)
  have run: "wp e (totp_login_accepted i a (tf_id f) dv s ?now) (\<lambda>resp _. vault_opened (ext e) resp) (\<lambda>_ _. False)
      (w\<lparr>w_tick := Suc (Suc (Suc (Suc (w_tick w)))), w_txn := Some (w_db w, clock e (Suc (w_tick w)))\<rparr>)"
    by (rule wp_totp_accepted_quiet [OF assms(1) _ assms(4) dv assms(5,8) _ refl p(3)]) (simp_all add: subset_iff)
  show ?thesis
    unfolding totp_verify_def wp_handler totp_verify_tx_def
    by (simp add: wp_eqs q assms(10,11) query_def found c MFA_CHALLENGE_MAX_ATTEMPTS_def decode_pre_mfa_json [OF assms(7)]
        device_validates_again [OF assms(9)] assms(13) p(1,2) run ok_or_def Let_def)
qed

text \<open>C15. The owner of an authenticator gets to the vault. While the database answers, the holder of a second-factor
  challenge that a login has issued, for an account with a verified factor, sends the code that the authenticator
  shows: \<open>totp_verify\<close> answers with a session that has access to the vault, sets its cookie, and stores the session
  behind it. The authenticator's clock may be a period ahead or behind.\<close>

theorem honest_code_accepted:
  assumes "dependable e t" and "system_ok (w_db w)" and "w_txn w = None" and "a \<in> acc_id ` set (accounts (w_db w))"
    and "sha256_is_32_bytes (ext e)" and "hmac_lengths (ext e)" and "uuid_roundtrip (ext e)"
    and "fresh_draws e {w_tick w..w_tick w + 10} (w_db w)" and "device_from_request (ext e) dev = Inr dv"
    and "ensure_unsafe_request_context h = Inr ()" and "cf_totp_seed_key (conf e) = Some key"
    and "mfa_pending (ext e) a dv (t div 1000000 * 1000000 + LOGIN_CHALLENGE_TTL) i (w_db w)"
    and "verified_factor a (w_db w) = Some f"
    and "shows_code (ext e) key a f (clock e (w_tick w) div 1000000 * 1000000) code"
  shows "\<exists>resp w'. totp_verify h i code e w = (Inr resp, w') \<and> vault_opened (ext e) resp
    \<and> issued (ext e) ''mfa_verified'' resp (w_db w')"
proof -
  have "account_exists (w_db w) a" using assms(4) by (auto simp: account_exists_def)
  then obtain resp w' where run: "totp_verify h i code e w = (Inr resp, w')" and "vault_opened (ext e) resp"
    using run_of_wp [OF wp_totp_verify_quiet [OF assms(1,3,2) _ assms(5-14)]] by blast
  moreover have "issued (ext e) ''mfa_verified'' resp (w_db w')"
    using wp_result [OF run wp_totp_issued] by simp
  ultimately show ?thesis by blast
qed

section \<open>Witness\<close>

lemma sample_shows_code: "shows_code sample (replicate 32 2) 1000 (sample_factor v) 1000000000 ''000000''"
proof -
  have "code_at sample sample_seed google_authenticator_default 33 ''000000''"
    by (simp add: code_at_def google_authenticator_default_def sample_code_zero sample_code)
  moreover have "decrypt_totp_seed sample (replicate 32 2) sample_nonce (totp_seed_aad sample 1000 50 google_authenticator_default)
      (replicate 32 2 @ sample_nonce @ totp_seed_aad sample 1000 50 google_authenticator_default @ sample_seed) = Inr sample_seed"
    by (simp add: decrypt_totp_seed_def XCHACHA20POLY1305_NONCE_BYTES_def length_sample_nonce ok_or_def) (simp add: sample_def Let_def)
  ultimately show ?thesis
    unfolding shows_code_def
    by (intro exI [of _ google_authenticator_default] exI [of _ sample_seed] exI [of _ "1000 :: nat"] exI [of _ None] exI [of _ 33])
      (simp add: sample_profile, simp add: sample_factor_def stored_step_def unix_time_seconds_def MIN_SEED_BYTES_def
        length_sample_seed fresh_step_def google_authenticator_default_def)
qed

theorem honest_code_accepted_witness:
  "\<exists>resp w'. totp_verify (\<lambda>_. None) 97 ''000000'' sample_env (world_of sample_totp_db) = (Inr resp, w')
    \<and> vault_opened sample resp \<and> issued sample ''mfa_verified'' resp (w_db w')"
proof -
  let ?w = "world_of sample_totp_db" and ?dv = "\<lparr>vd_label = ''d'', vd_client_type = ''cli'', vd_public_metadata = JObj []\<rparr>"
  have draws: "fresh_draws sample_env {w_tick ?w..w_tick ?w + 10} (w_db ?w)"
    by (rule sample_draws)
      (auto simp: sample_totp_db_def empty_db_def sample_pre_mfa_def challenge_of_def unat_of_nat take_bit_nat_eq_self
        dest: arg_cong [of _ _ unat])
  have pending: "mfa_pending sample 1000 ?dv (seconds 1000 div 1000000 * 1000000 + LOGIN_CHALLENGE_TTL) 97 (w_db ?w)"
    unfolding mfa_pending_def
    by (rule exI [of _ sample_pre_mfa], rule exI [of _ 98])
      (simp add: sample_totp_db_def sample_pre_mfa_def challenge_of_def from_validated_def seconds_def LOGIN_CHALLENGE_TTL_def minutes_def)
  have "verified_factor 1000 (w_db ?w) = Some (sample_factor (Some 0))"
    by (simp add: verified_factor_def sample_totp_db_def sample_factor_def)
  moreover have "shows_code sample (replicate 32 2) 1000 (sample_factor (Some 0))
      (clock sample_env (w_tick ?w) div 1000000 * 1000000) ''000000''"
    using sample_shows_code by (simp add: seconds_def)
  moreover have "(1000 :: uuid) \<in> acc_id ` set (accounts (w_db ?w))" by (simp add: sample_totp_db_def sample_account_def)
  ultimately show ?thesis
    using honest_code_accepted [of sample_env "seconds 1000" ?w 1000, OF sample_dependable _ _ _ _ _ _ draws]
      sample_totp_ok sample_uuid_roundtrip sample_device_valid pending
    by (simp add: ensure_unsafe_request_context_def)
qed

end
