(* ===== verification/PV_HonestEnrolment.thy ===== *)
theory PV_HonestEnrolment
  imports PV_SecondFactor
begin

text \<open>
  The honest enrolment. The owner of an enrolment session asks for a TOTP factor, puts the secret of the
  answer into an authenticator and sends the code that it shows: the factor is confirmed, the session
  gets access to the vault, and the recovery codes are handed out.
\<close>

section \<open>The session\<close>

text \<open>The request carries the tokens of a session that may enrol a factor and lives until \<open>u\<close>.\<close>

definition authorizes_setup :: "externals \<Rightarrow> headers \<Rightarrow> time \<Rightarrow> session_row \<Rightarrow> db \<Rightarrow> bool" where
  "authorizes_setup X h u s d \<longleftrightarrow> ensure_unsafe_request_context h = Inr ()
     \<and> live_session d u s \<and> se_session_state s \<in> {''mfa_enrollment_required'', ''mfa_recovery''}
     \<and> (\<exists>tok. session_token_from_headers X h = Some tok \<and> se_session_token_hash s = sha256_verifier X tok)
     \<and> (\<exists>c. csrf_token_from_headers X h = Some c \<and> se_csrf_token_hash s = Some (sha256_verifier X c))"

lemma wp_setup_guards:
  assumes "quiet e" and "sessions_ok (w_db w)" and "authorizes_setup (ext e) h u s (w_db w)" and "now \<le> u"
    and body: "\<And>w'. w_db w' = w_db w \<Longrightarrow> w_txn w' = w_txn w \<Longrightarrow> w_tick w' = w_tick w + 2 \<Longrightarrow> wp e (f (session_of s)) Q R w'"
  shows "wp e (try_io (load_current_session h now) (\<lambda>current. try_io (lift (ok_or SessionRequired current)) (\<lambda>session.
      try_io (lift (ensure_totp_enrollment_session session)) (\<lambda>_. try_io (lift (ensure_unsafe_request_context h)) (\<lambda>_.
      try_io (ensure_csrf_token h (cs_id session)) (\<lambda>_. f session)))))) Q R w"
proof -
  from assms(3) obtain tok c where ctx: "ensure_unsafe_request_context h = Inr ()"
    and live: "s \<in> set (sessions (w_db w))" "se_revoked_at s = None" "device_revocation (w_db w) s = None"
      "u < se_idle_expires_at s" "u < se_absolute_expires_at s"
    and state: "se_session_state s \<in> {''mfa_enrollment_required'', ''mfa_recovery''}"
    and tok: "session_token_from_headers (ext e) h = Some tok" "se_session_token_hash s = sha256_verifier (ext e) tok"
    and csrf: "csrf_token_from_headers (ext e) h = Some c" "se_csrf_token_hash s = Some (sha256_verifier (ext e) c)"
    unfolding authorizes_setup_def live_session_def by auto
  have times: "\<not> se_idle_expires_at s \<le> now" "\<not> se_absolute_expires_at s \<le> now" using live(4,5) assms(4) by simp_all
  have len: "length (sha256_verifier (ext e) c) = TOKEN_LEN"
    using assms(2) live(1) csrf(2) by (auto simp: sessions_ok_def list_all_iff session_checks_def opt_all_def TOKEN_LEN_def)
  have hash: "csrf_hash_of (se_id s) (w_db w) = Some (sha256_verifier (ext e) c)"
    using csrf_by_id [OF assms(2) live(1,2)] csrf(2) by simp
  have row: "session_with_device (sha256_verifier (ext e) tok) (w_db w) = Some (s, None)"
    using session_by_token [OF assms(2) live(1,2)] by (simp add: tok(2) live(3))
  have enrol: "ensure_totp_enrollment_session (session_of s) = Inr ()"
    using state by (auto simp: ensure_totp_enrollment_session_def)
  show ?thesis
    unfolding load_current_session_def
    using assms(1) enrol
    by (auto simp: wp_eqs quiet_def ctx query_def Let_def tok(1) row times ensure_csrf_token_def csrf(1) hash len
        ok_or_def session_of_def intro!: body [unfolded session_of_def])
qed

section \<open>Recovery codes\<close>

text \<open>Ten codes are drawn, and their salted hashes stored.\<close>

definition code_salt :: "env \<Rightarrow> nat \<Rightarrow> bytes" where
  "code_salt e n = map (draw e n) [0..<RECOVERY_CODE_SALT_BYTES]"

text \<open>The random source gives new identifiers and salts at the positions from \<open>n\<close> on, and no two hashes with different salts agree.\<close>

definition codes_fresh :: "env \<Rightarrow> nat set \<Rightarrow> uuid \<Rightarrow> db \<Rightarrow> bool" where
  "codes_fresh e N a d \<longleftrightarrow> (\<forall>n \<in> N. fresh_uuid e n \<notin> rc_id ` set (recovery_codes d)
     \<and> (\<forall>r \<in> set (recovery_codes d). rc_account_id r = a \<longrightarrow> (\<forall>c. rc_code_hash r \<noteq> recovery_code_hash (ext e) a (code_salt e n) c)))"

definition salts_differ :: "env \<Rightarrow> nat set \<Rightarrow> uuid \<Rightarrow> bool" where
  "salts_differ e N a \<longleftrightarrow> inj_on (fresh_uuid e) N \<and> (\<forall>m \<in> N. \<forall>n \<in> N. m \<noteq> n \<longrightarrow> (\<forall>c c'.
     recovery_code_hash (ext e) a (code_salt e m) c \<noteq> recovery_code_hash (ext e) a (code_salt e n) c'))"

lemma wp_generate_quiet:
  assumes "\<And>codes w'. length codes = n \<Longrightarrow> w_db w' = w_db w \<Longrightarrow> w_txn w' = w_txn w \<Longrightarrow> w_tick w' = w_tick w + n \<Longrightarrow> Q codes w'"
  shows "wp e (generate_codes n) Q R w"
  using assms
proof (induction n arbitrary: w Q)
  case (Suc n)
  show ?case
    by (simp add: wp_eqs) (rule Suc.IH, simp add: wp_eqs Suc.prems)
qed (simp add: wp_eqs)

definition drawn_code :: "env \<Rightarrow> nat \<Rightarrow> uuid \<Rightarrow> string \<Rightarrow> recovery_code_row" where
  "drawn_code e n a code = \<lparr>rc_id = fresh_uuid e (Suc n), rc_account_id = a, rc_code_salt = code_salt e n,
     rc_code_hash = recovery_code_hash (ext e) a (code_salt e n) code, rc_used_at = None\<rparr>"

lemma insert_drawn_code:
  assumes "codes_fresh e N a d" and "n \<in> N" and "Suc n \<in> N" and "account_exists d a" and "sha256_is_32_bytes (ext e)"
  shows "insert_recovery_code (drawn_code e n a code) d = Inr (d\<lparr>recovery_codes := recovery_codes d @ [drawn_code e n a code]\<rparr>)"
proof -
  have len: "length (recovery_code_hash (ext e) a x c) = 32" for x c
    using assms(5) by (simp add: recovery_code_hash_def sha256_is_32_bytes_def)
  have "(a, rc_code_hash (drawn_code e n a code)) \<notin> (\<lambda>q. (rc_account_id q, rc_code_hash q)) ` set (recovery_codes d)"
  proof
    assume "(a, rc_code_hash (drawn_code e n a code)) \<in> (\<lambda>q. (rc_account_id q, rc_code_hash q)) ` set (recovery_codes d)"
    then obtain q where "q \<in> set (recovery_codes d)" "rc_account_id q = a"
        "rc_code_hash q = recovery_code_hash (ext e) a (code_salt e n) code" by (auto simp: drawn_code_def)
    then show False using bspec [OF assms(1) [unfolded codes_fresh_def] assms(2)] by blast
  qed
  moreover have "fresh_uuid e (Suc n) \<notin> rc_id ` set (recovery_codes d)"
    using assms(1,3) by (auto simp: codes_fresh_def)
  ultimately show ?thesis
    using assms(4) len by (simp add: insert_recovery_code_def constrained_def drawn_code_def code_salt_def RECOVERY_CODE_SALT_BYTES_def)
qed

lemma codes_fresh_later:
  assumes "codes_fresh e N a d" and "salts_differ e M a" and "N \<subseteq> M" and "n \<in> M" and "Suc n \<in> M" and "N' \<subseteq> N - {n, Suc n}"
  shows "codes_fresh e N' a (d\<lparr>recovery_codes := recovery_codes d @ [drawn_code e n a code]\<rparr>)"
  unfolding codes_fresh_def
proof (intro ballI conjI)
  fix k assume "k \<in> N'"
  then have k: "k \<in> N" "k \<in> M" "k \<noteq> n" "k \<noteq> Suc n" using assms(3,6) by auto
  note old = bspec [OF assms(1) [unfolded codes_fresh_def] k(1)]
  have "fresh_uuid e k \<noteq> fresh_uuid e (Suc n)" using k assms(2,5) by (auto simp: salts_differ_def dest: inj_onD)
  with old show "fresh_uuid e k \<notin> rc_id ` set (recovery_codes (d\<lparr>recovery_codes := recovery_codes d @ [drawn_code e n a code]\<rparr>))"
    by (auto simp: drawn_code_def)
  have other: "rc_code_hash (drawn_code e n a code) \<noteq> recovery_code_hash (ext e) a (code_salt e k) c" for c
    using k assms(2,4) by (auto simp: salts_differ_def drawn_code_def)
  show "rc_account_id r = a \<longrightarrow> (\<forall>c. rc_code_hash r \<noteq> recovery_code_hash (ext e) a (code_salt e k) c)"
    if "r \<in> set (recovery_codes (d\<lparr>recovery_codes := recovery_codes d @ [drawn_code e n a code]\<rparr>))" for r
  proof (cases "r = drawn_code e n a code")
    case False
    with that old show ?thesis by simp
  qed (use other in simp)
qed

lemma wp_store_quiet:
  assumes "quiet e" and "w_txn w = Some (d, t)" and "account_exists d a" and "sha256_is_32_bytes (ext e)"
    and "salts_differ e N a" and "{w_tick w..<w_tick w + 3 * length codes} \<subseteq> N"
    and "codes_fresh e {w_tick w..<w_tick w + 3 * length codes} a d"
    and "\<And>w' x. w_txn w' = Some (d\<lparr>recovery_codes := x\<rparr>, t) \<Longrightarrow> w_tick w' = w_tick w + 3 * length codes \<Longrightarrow> Q () w'"
  shows "wp e (store_recovery_codes a codes) Q R w"
  using assms
proof (induction codes arbitrary: w d)
  case Nil
  then show ?case using Nil.prems(8) [of w "recovery_codes d"] by (simp add: wp_eqs)
next
  case (Cons code codes)
  let ?n = "w_tick w" and ?m = "Suc (Suc (Suc (w_tick w)))"
  let ?d = "d\<lparr>recovery_codes := recovery_codes d @ [drawn_code e ?n a code]\<rparr>"
  have q: "\<And>n. fault_at e n = Fine" using assms(1) by (simp add: quiet_def)
  have n: "?n \<in> {?n..<?n + 3 * length (code # codes)}" "Suc ?n \<in> {?n..<?n + 3 * length (code # codes)}" by simp_all
  note ins = insert_drawn_code [OF Cons.prems(7) n Cons.prems(3,4)]
  have "{?m..<?m + 3 * length codes} \<subseteq> {?n..<?n + 3 * length (code # codes)} - {?n, Suc ?n}" by auto
  note fresh = codes_fresh_later [OF Cons.prems(7,5,6) subsetD [OF Cons.prems(6) n(1)] subsetD [OF Cons.prems(6) n(2)] this]
  show ?case
    apply (simp add: wp_eqs q command_def Cons.prems(2) Let_def code_salt_def [symmetric] drawn_code_def [symmetric] ins)
    apply (rule Cons.IH [where d = ?d, OF assms(1) _ _ assms(4) Cons.prems(5)])
        apply simp
       apply (use Cons.prems(3) in \<open>simp add: account_exists_def\<close>)
      apply (rule subset_trans [OF _ Cons.prems(6)], simp)
     apply (use fresh in simp)
    apply (rule Cons.prems(8), simp)
    apply simp
    done
qed

section \<open>Confirming\<close>

lemma now_bounds:
  assumes "dependable e u"
  shows "u - seconds 1 \<le> clock e n div 1000000 * 1000000" "clock e n div 1000000 * 1000000 \<le> u + LOGIN_CHALLENGE_TTL"
proof -
  have "u \<le> clock e n" "clock e n \<le> u + LOGIN_CHALLENGE_TTL" using assms by (simp_all add: dependable_def)
  with trunc_bounds [of "clock e n"] show "u - seconds 1 \<le> clock e n div 1000000 * 1000000"
    "clock e n div 1000000 * 1000000 \<le> u + LOGIN_CHALLENGE_TTL"
    unfolding seconds_def by linarith+
qed

text \<open>The new idle deadline of a session that is used lies ahead, and both deadlines can be formatted.\<close>

lemma deadlines:
  assumes "dependable e u" and "now = clock e n div 1000000 * 1000000"
    and "u + LOGIN_CHALLENGE_TTL < absolute" and "absolute \<le> u + hours 24" and "idle = min_time (now + SESSION_IDLE_TTL) absolute"
  obtains x y where "u + LOGIN_CHALLENGE_TTL < idle" "idle \<le> absolute" "rfc3339 (ext e) idle = Some x" "rfc3339 (ext e) absolute = Some y"
proof -
  have idle: "u + LOGIN_CHALLENGE_TTL < idle" "idle \<le> absolute"
    using now_bounds [OF assms(1), of n] assms(2,3,5)
    by (auto simp: min_time_def SESSION_IDLE_TTL_def LOGIN_CHALLENGE_TTL_def minutes_def hours_def seconds_def)
  have "rfc3339 (ext e) v \<noteq> None" if "v \<in> {idle, absolute}" for v
  proof -
    have "u - seconds 1 \<le> v \<and> v \<le> u + hours 24"
      using that idle assms(3,4) by (auto simp: LOGIN_CHALLENGE_TTL_def minutes_def seconds_def)
    then show ?thesis using assms(1) unfolding dependable_def by blast
  qed
  with idle that show thesis by blast
qed

lemma upgrade_runs:
  assumes "sessions_ok d" and "s \<in> set (sessions d)" and "k \<notin> se_session_token_hash ` set (sessions d)" and "length k = 32"
    and "idle \<le> se_absolute_expires_at s"
  obtains ss where "upgrade_session (se_id s) k now idle d = Inr (d\<lparr>sessions := ss\<rparr>)"
proof -
  let ?f = "\<lambda>r :: session_row. r\<lparr>se_session_token_hash := k, se_csrf_token_hash := None, se_session_state := ''mfa_verified'',
      se_last_seen_at := Some now, se_idle_expires_at := idle, se_expires_at := idle\<rparr>"
  let ?g = "\<lambda>r. se_session_token_hash (if se_id r = se_id s then ?f r else r)"
  have same: "r = s" if "r \<in> set (sessions d)" "se_id r = se_id s" for r
    using distinct_map_unique that assms(1,2) unfolding sessions_ok_def by metis
  have "session_checks (?f r)" if "r \<in> set (sessions d)" "se_id r = se_id s" for r
    using same [OF that] assms(4,5) by (simp add: session_checks_def opt_all_def)
  moreover have "distinct (map ?g (sessions d))"
    unfolding distinct_map
  proof (intro conjI inj_onI)
    show "distinct (sessions d)" using assms(1) by (simp add: sessions_ok_def distinct_map)
    fix x y assume xy: "x \<in> set (sessions d)" "y \<in> set (sessions d)" "?g x = ?g y"
    have hash: "se_session_token_hash z \<noteq> k" if "z \<in> set (sessions d)" for z using that assms(3) by auto
    show "x = y"
    proof (cases "se_id x = se_id s \<or> se_id y = se_id s")
      case True
      with xy hash [OF xy(1)] hash [OF xy(2)] have "se_id x = se_id s" "se_id y = se_id s" by (auto split: if_splits)
      with same xy show ?thesis by metis
    next
      case False
      with xy have "se_session_token_hash x = se_session_token_hash y" by simp
      with xy assms(1) show ?thesis
        using distinct_map_unique [of se_session_token_hash "sessions d" x y] by (simp add: sessions_ok_def unique_tokens_def)
    qed
  qed
  ultimately have "upgrade_session (se_id s) k now idle d = Inr (d\<lparr>sessions := update_where (\<lambda>r. se_id r = se_id s) ?f (sessions d)\<rparr>)"
    by (simp add: upgrade_session_def update_sessions_def constrained_def list_all_iff update_where_def comp_def Let_def)
  then show thesis by (rule that)
qed

lemma upgrade_of:
  assumes "sessions_ok d" and "s \<in> set (sessions d)" and "idle \<le> se_absolute_expires_at s"
  obtains F where "\<And>k D. sessions D = sessions d \<Longrightarrow> k \<notin> se_session_token_hash ` set (sessions d) \<Longrightarrow> length k = 32 \<Longrightarrow>
    upgrade_session (se_id s) k now idle D = Inr (D\<lparr>sessions := F k D\<rparr>)"
proof -
  have "\<exists>ss. upgrade_session (se_id s) k now idle D = Inr (D\<lparr>sessions := ss\<rparr>)"
    if "sessions D = sessions d" "k \<notin> se_session_token_hash ` set (sessions d)" "length k = 32" for k D
  proof -
    have "sessions_ok D" using assms(1) that(1) by (simp add: sessions_ok_def unique_tokens_def)
    then show ?thesis using upgrade_runs [of D s k idle now] assms(2,3) that by metis
  qed
  then have "\<forall>k. \<exists>F. \<forall>D. sessions D = sessions d \<and> k \<notin> se_session_token_hash ` set (sessions d) \<and> length k = 32 \<longrightarrow>
      upgrade_session (se_id s) k now idle D = Inr (D\<lparr>sessions := F D\<rparr>)" by (intro allI choice) blast
  with that show thesis by (auto dest: choice)
qed

definition enrolled :: "externals \<Rightarrow> totp_enroll_confirm_response response \<Rightarrow> bool" where
  "enrolled X resp \<longleftrightarrow> ec_status (rs_body resp) = ''active'' \<and> length (ec_recovery_codes (rs_body resp)) = RECOVERY_CODE_COUNT
     \<and> session_granted X ''mfa_verified'' True (ec_session (rs_body resp)) (rs_set_cookie resp)"

lemma wp_confirm_accepted_quiet:
  assumes "dependable e u" and "w_txn w = Some (d, t)" and "sessions_ok d" and "session \<in> set (sessions d)"
    and "account_exists d (se_account_id session)" and "sha256_is_32_bytes (ext e)"
    and "salts_differ e N (se_account_id session)" and "{w_tick w..w_tick w + 50} \<subseteq> N"
    and "codes_fresh e N (se_account_id session) d"
    and "\<And>n. n \<in> N \<Longrightarrow> sha256_verifier (ext e) (map (draw e n) [0..<TOKEN_LEN]) \<notin> se_session_token_hash ` set (sessions d)"
    and "now = clock e n div 1000000 * 1000000" and "s < 2 ^ 63"
    and "u + LOGIN_CHALLENGE_TTL < se_absolute_expires_at session" and "se_absolute_expires_at session \<le> u + hours 24"
  shows "wp e (enroll_confirm_accepted (session_of session) f s now) (\<lambda>resp _. enrolled (ext e) resp) (\<lambda>_ _. False) w"
proof -
  have q: "quiet e" "\<And>n. fault_at e n = Fine" using assms(1) by (simp_all add: dependable_def quiet_def)
  have header: "header_value_ok (ext e) (session_cookie (ext e) tok)" for tok using assms(1) by (simp add: dependable_def)
  let ?idle = "min_time (now + SESSION_IDLE_TTL) (se_absolute_expires_at session)"
  obtain x y where idle: "?idle \<le> se_absolute_expires_at session"
    and times: "rfc3339 (ext e) ?idle = Some x" "rfc3339 (ext e) (se_absolute_expires_at session) = Some y"
    by (rule deadlines [OF assms(1,11,13,14) refl]) blast
  let ?a = "se_account_id session" and ?d = "delete_recovery_codes (se_account_id session) d"
  have fresh: "codes_fresh e N ?a ?d"
    using assms(9) by (auto simp: codes_fresh_def delete_recovery_codes_def set_delete_where)
  obtain F where upgrade: "\<And>k D. sessions D = sessions d \<Longrightarrow> k \<notin> se_session_token_hash ` set (sessions d) \<Longrightarrow> length k = 32 \<Longrightarrow>
      upgrade_session (se_id session) k now ?idle D = Inr (D\<lparr>sessions := F k D\<rparr>)"
    by (rule upgrade_of [OF assms(3,4) idle, of now]) blast
  have len: "length (sha256_verifier (ext e) m) = 32" for m
    using assms(6) by (simp add: sha256_verifier_def sha256_is_32_bytes_def)
  have part: "codes_fresh e M ?a ?d" if "M \<subseteq> N" for M using fresh that unfolding codes_fresh_def by blast
  have acc: "account_exists ?d ?a" using assms(5) by (simp add: account_exists_def)
  show ?thesis
    unfolding enroll_confirm_accepted_def wp_try wp_ask generate_recovery_codes_def
    apply (rule wp_generate_quiet)
    apply (simp add: wp_eqs assms(2) q(2) command_def Let_def)
    apply (rule wp_store_quiet [OF q(1) _ acc assms(6,7)])
       apply simp
      apply (rule subset_trans [OF _ assms(8)], auto simp: RECOVERY_CODE_COUNT_def)[1]
     apply (rule part, rule subset_trans [OF _ assms(8)], auto simp: RECOVERY_CODE_COUNT_def)[1]
    apply (simp add: wp_eqs q(2) random_token_def step_column_def assms(12) [simplified] command_def Let_def)
    apply (subst upgrade)
       apply simp
      apply (rule assms(10), rule subsetD [OF assms(8)], simp add: RECOVERY_CODE_COUNT_def)
     apply (rule len)
    apply simp
    apply (unfold wp_try wp_unavailable)
    apply (rule wp_audit_quiet [OF q(1)], simp)
      apply (use assms(5) in \<open>simp add: account_exists_def\<close>)
     apply (simp add: nonblank_def)
    apply (subst wp_commit, assumption)
    apply (simp add: wp_eqs q(2) telemetry_defs times header Let_def no_store_json_def enrolled_def session_granted_def)
    apply blast
    done
qed

text \<open>What the random source has to draw for the confirmation of an enrolment of the account \<open>a\<close>.\<close>

definition fresh_codes :: "env \<Rightarrow> nat set \<Rightarrow> uuid \<Rightarrow> db \<Rightarrow> bool" where
  "fresh_codes e N a d \<longleftrightarrow> salts_differ e N a \<and> codes_fresh e N a d
     \<and> (\<forall>n \<in> N. sha256_verifier (ext e) (map (draw e n) [0..<TOKEN_LEN]) \<notin> se_session_token_hash ` set (sessions d))"

text \<open>A pending factor of the session's account.\<close>

definition awaits_code :: "uuid \<Rightarrow> uuid \<Rightarrow> totp_factor_row \<Rightarrow> db \<Rightarrow> bool" where
  "awaits_code i a f d \<longleftrightarrow> factor_of i a d = Some f \<and> tf_verified_at f = None"

lemma wp_enroll_confirm_quiet:
  assumes "dependable e u" and "w_txn w = None" and "system_ok (w_db w)" and "sha256_is_32_bytes (ext e)" and "hmac_lengths (ext e)"
    and "authorizes_setup (ext e) h (u + LOGIN_CHALLENGE_TTL) s (w_db w)" and "account_exists (w_db w) (se_account_id s)"
    and "se_absolute_expires_at s \<le> u + hours 24" and "cf_totp_seed_key (conf e) = Some key"
    and "fresh_codes e {w_tick w..w_tick w + 60} (se_account_id s) (w_db w)"
    and "awaits_code i (se_account_id s) f (w_db w)"
    and "shows_code (ext e) key (se_account_id s) f (clock e (w_tick w) div 1000000 * 1000000) code"
  shows "wp e (totp_enroll_confirm h i code) (\<lambda>resp _. enrolled (ext e) resp) (\<lambda>_ _. False) w"
proof -
  have q: "quiet e" "cf_database (conf e)" "\<And>n. fault_at e n = Fine" using assms(1) by (simp_all add: dependable_def quiet_def)
  let ?n = "w_tick w"
  let ?now = "clock e ?n div 1000000 * 1000000"
  have ok: "sessions_ok (w_db w)" using assms(3) by (simp add: system_ok_def)
  note now = now_bounds(2) [OF assms(1)]
  have s: "s \<in> set (sessions (w_db w))" "u + LOGIN_CHALLENGE_TTL < se_absolute_expires_at s"
    using assms(6) by (auto simp: authorizes_setup_def live_session_def)
  obtain p st where p: "totp_profile_from_row f = Inr p" "check_totp_code (ext e) key (se_account_id s) f p code ?now = Inr (Some st)" "st < 2 ^ 63"
    by (rule shown_code_accepted [OF assms(12,5)])
  have f: "factor_of i (se_account_id s) (w_db w) = Some f" "tf_verified_at f = None" using assms(11) by (simp_all add: awaits_code_def)
  have fresh: "salts_differ e {?n..?n + 60} (se_account_id s)" "codes_fresh e {?n..?n + 60} (se_account_id s) (w_db w)"
    "\<And>n. n \<in> {?n..?n + 60} \<Longrightarrow> sha256_verifier (ext e) (map (draw e n) [0..<TOKEN_LEN]) \<notin> se_session_token_hash ` set (sessions (w_db w))"
    using assms(10) by (simp_all add: fresh_codes_def)
  have some: "ok_or x (Some v) = Inr v" for x :: api_error and v :: 'v by (simp add: ok_or_def)
  show ?thesis
    unfolding totp_enroll_confirm_def wp_handler
    apply (subst wp_try, simp add: wp_eqs q del: wp_try)
    apply (subst wp_try, simp add: wp_eqs q del: wp_try)
    apply (subst wp_try, simp add: wp_eqs q assms(9) some del: wp_try)
    apply (subst wp_try, simp add: wp_eqs q Let_def del: wp_try)
    apply (rule wp_setup_guards [OF q(1) _ _ now, where s = s])
      apply (simp add: ok)
     apply (simp add: assms(6))
    apply (simp add: wp_eqs q assms(2) enroll_confirm_tx_def query_def f p(1,2))
    apply (rule wp_confirm_accepted_quiet [OF assms(1) _ ok s(1) assms(7,4) fresh(1) _ fresh(2,3) refl p(3) s(2) assms(8)])
      apply simp
     apply (simp add: subset_iff)
    apply assumption
    done
qed

section \<open>Starting\<close>

text \<open>What the client learns from the start: the secret that it puts into the authenticator. The server keeps it
  encrypted, with the pending factor.\<close>

definition enrolment_offered :: "externals \<Rightarrow> bytes \<Rightarrow> uuid \<Rightarrow> totp_enroll_start_response \<Rightarrow> db \<Rightarrow> bool" where
  "enrolment_offered X key a r d \<longleftrightarrow> es_status r = ''pending'' \<and> (\<exists>seed c n.
     factor_of (es_factor_id r) a d = Some (pending_factor (es_factor_id r) a c n)
     \<and> decrypt_totp_seed X key n (totp_seed_aad X a (es_factor_id r) google_authenticator_default) c = Inr seed
     \<and> length seed = TOTP_SEED_BYTES \<and> es_manual_secret r = base32_no_padding seed)"

definition enrolment_begun :: "session_row \<Rightarrow> time \<Rightarrow> world \<Rightarrow> world \<Rightarrow> bool" where
  "enrolment_begun s u w w' \<longleftrightarrow> w_txn w' = None \<and> w_tick w \<le> w_tick w' \<and> w_tick w' \<le> w_tick w + 20
     \<and> (\<exists>now idle fs xs. u < idle \<and> w_db w' = (w_db w)\<lparr>sessions := update_where (\<lambda>r. se_id r = se_id s)
         (\<lambda>r. r\<lparr>se_last_seen_at := Some now, se_idle_expires_at := idle, se_expires_at := idle\<rparr>) (sessions (w_db w)),
         totp_factors := fs, audit_events := xs\<rparr>)"

text \<open>XChaCha20-Poly1305 encrypts everything, and decrypts what it has encrypted.\<close>

definition seals :: "externals \<Rightarrow> bytes \<Rightarrow> bool" where
  "seals X key \<longleftrightarrow> (\<forall>n aad m. length n = XCHACHA20POLY1305_NONCE_BYTES \<longrightarrow>
     (\<exists>c. c \<noteq> [] \<and> xchacha_encrypt X key n aad m = Some c \<and> xchacha_decrypt X key n aad c = Some m))"

lemma seals_seed:
  assumes "seals X key"
  obtains E where "\<And>n aad m. length n = XCHACHA20POLY1305_NONCE_BYTES \<Longrightarrow> E n aad m \<noteq> []"
    and "\<And>n aad m. length n = XCHACHA20POLY1305_NONCE_BYTES \<Longrightarrow> encrypt_totp_seed X key n aad m = Inr (E n aad m)"
    and "\<And>n aad m. length n = XCHACHA20POLY1305_NONCE_BYTES \<Longrightarrow> decrypt_totp_seed X key n aad (E n aad m) = Inr m"
proof -
  obtain E where E: "\<And>n aad m. length n = XCHACHA20POLY1305_NONCE_BYTES \<Longrightarrow> E n aad m \<noteq> []
      \<and> xchacha_encrypt X key n aad m = Some (E n aad m) \<and> xchacha_decrypt X key n aad (E n aad m) = Some m"
    using assms unfolding seals_def by metis
  then show thesis by (intro that [of E]) (simp_all add: encrypt_totp_seed_def decrypt_totp_seed_def ok_or_def)
qed

lemma enrolment_uri:
  obtains U where "\<And>seed. length seed = TOTP_SEED_BYTES \<Longrightarrow>
    provisioning_uri TOTP_ISSUER handle seed google_authenticator_default = Inr (U seed)"
proof -
  have "\<exists>v. provisioning_uri TOTP_ISSUER handle seed google_authenticator_default = Inr v" if "length seed = TOTP_SEED_BYTES" for seed
    using that by (simp add: provisioning_uri_Inr google_authenticator_default_def TOTP_SEED_BYTES_def MIN_SEED_BYTES_def)
  with that show thesis by metis
qed

lemma mark_active_row:
  assumes "sessions_ok d" and "s \<in> set (sessions d)" and "se_revoked_at s = None" and "idle \<le> se_absolute_expires_at s"
  shows "mark_active (se_id s) now idle d = Inr (d\<lparr>sessions := update_where (\<lambda>r. se_id r = se_id s)
    (\<lambda>r. r\<lparr>se_last_seen_at := Some now, se_idle_expires_at := idle, se_expires_at := idle\<rparr>) (sessions d)\<rparr>)"
  by (rule mark_active_runs [OF assms, of now]) (auto simp: mark_active_def update_sessions_Inr)

lemma wp_start_tx_quiet:
  assumes "quiet e" and "w_txn w = Some (d, t)" and "account_exists d (cs_account_id c)" and "i \<notin> tf_id ` set (totp_factors d)"
    and "x \<noteq> []" and "length n = XCHACHA20POLY1305_NONCE_BYTES"
    and "\<And>fs xs w'. factor_of i (cs_account_id c) (d\<lparr>totp_factors := fs, audit_events := xs\<rparr>) = Some (pending_factor i (cs_account_id c) x n) \<Longrightarrow>
      w_txn w' = Some (d\<lparr>totp_factors := fs, audit_events := xs\<rparr>, t) \<Longrightarrow> w_tick w' = w_tick w + 3 \<Longrightarrow> Q () w'"
  shows "wp e (enroll_start_tx c i x n) Q R w"
proof -
  have q: "\<And>n. fault_at e n = Fine" using assms(1) by (simp add: quiet_def)
  let ?a = "cs_account_id c"
  let ?r = "pending_factor i ?a x n"
  let ?fs = "delete_where (\<lambda>f. tf_account_id f = ?a) (totp_factors d) @ [?r]"
  have row: "tf_id ?r = i" "tf_account_id ?r = ?a" by (simp_all add: pending_factor_def)
  have ins: "insert_totp_factor ?r (delete_factors ?a d) = Inr (d\<lparr>totp_factors := ?fs\<rparr>)"
    using assms(3-6) by (auto simp: insert_totp_factor_def constrained_def delete_factors_def set_delete_where pending_factor_def
        TOTP_SEED_KEY_ID_def TOTP_SEED_AEAD_def nonblank_def opt_all_def account_exists_def XCHACHA20POLY1305_NONCE_BYTES_def)
  have "find (\<lambda>f. tf_id f = i \<and> tf_account_id f = ?a) (delete_where (\<lambda>f. tf_account_id f = ?a) (totp_factors d)) = None"
    by (auto simp: find_None_iff set_delete_where)
  then have "factor_of i ?a (d\<lparr>totp_factors := ?fs, audit_events := xs\<rparr>) = Some ?r" for xs
    by (simp add: factor_of_def find_append_right row)
  note found = this
  show ?thesis
    unfolding enroll_start_tx_def
    apply (simp add: wp_eqs assms(2) q command_def ins Let_def)
    apply (rule wp_audit_quiet [OF assms(1)], simp)
      apply (use assms(3) in \<open>simp add: account_exists_def\<close>)
     apply (simp add: nonblank_def)
    apply (rule assms(7) [OF found], simp, simp)
    done
qed

lemma wp_enroll_start_quiet:
  assumes "dependable e u" and "w_txn w = None" and "system_ok (w_db w)"
    and "authorizes_setup (ext e) h (u + LOGIN_CHALLENGE_TTL) s (w_db w)" and "account_exists (w_db w) (se_account_id s)"
    and "se_absolute_expires_at s \<le> u + hours 24" and "cf_totp_seed_key (conf e) = Some key" and "seals (ext e) key"
    and "\<And>n. n \<in> {w_tick w..w_tick w + 10} \<Longrightarrow> fresh_uuid e n \<notin> tf_id ` set (totp_factors (w_db w))"
  shows "wp e (totp_enroll_start h) (\<lambda>resp w'. enrolment_offered (ext e) key (se_account_id s) (rs_body resp) (w_db w')
      \<and> enrolment_begun s (u + LOGIN_CHALLENGE_TTL) w w') (\<lambda>_ _. False) w"
proof -
  have q: "quiet e" "cf_database (conf e)" "\<And>n. fault_at e n = Fine" using assms(1) by (simp_all add: dependable_def quiet_def)
  let ?n = "w_tick w"
  let ?now = "clock e ?n div 1000000 * 1000000"
  let ?idle = "min_time (?now + SESSION_IDLE_TTL) (se_absolute_expires_at s)"
  have ok: "sessions_ok (w_db w)" using assms(3) by (simp add: system_ok_def)
  note now = now_bounds [OF assms(1), of ?n]
  have s: "s \<in> set (sessions (w_db w))" "se_revoked_at s = None" "u + LOGIN_CHALLENGE_TTL < se_absolute_expires_at s"
    using assms(4) by (auto simp: authorizes_setup_def live_session_def)
  obtain y where idle: "u + LOGIN_CHALLENGE_TTL < ?idle" "?idle \<le> se_absolute_expires_at s" and y: "rfc3339 (ext e) ?idle = Some y"
    by (rule deadlines [OF assms(1) refl s(3) assms(6) refl]) blast
  note act = mark_active_row [OF ok s(1,2) idle(2), of ?now]
  obtain handle where handle: "\<And>D. accounts D = accounts (w_db w) \<Longrightarrow> login_handle_of (se_account_id s) D = Some handle"
    using assms(5) by (cases "find (\<lambda>a. acc_id a = se_account_id s) (accounts (w_db w))")
      (auto simp: login_handle_of_def account_exists_def find_None_iff)
  obtain E where E: "\<And>n aad m. length n = XCHACHA20POLY1305_NONCE_BYTES \<Longrightarrow> E n aad m \<noteq> []"
    and seal: "\<And>n aad m. length n = XCHACHA20POLY1305_NONCE_BYTES \<Longrightarrow> encrypt_totp_seed (ext e) key n aad m = Inr (E n aad m)"
      "\<And>n aad m. length n = XCHACHA20POLY1305_NONCE_BYTES \<Longrightarrow> decrypt_totp_seed (ext e) key n aad (E n aad m) = Inr m"
    by (rule seals_seed [OF assms(8)]) blast
  obtain U where uri: "\<And>seed. length seed = TOTP_SEED_BYTES \<Longrightarrow>
      provisioning_uri TOTP_ISSUER handle seed google_authenticator_default = Inr (U seed)" by (rule enrolment_uri [of handle]) blast
  have some: "ok_or x (Some v) = Inr v" for x :: api_error and v :: 'v by (simp add: ok_or_def)
  show ?thesis
    unfolding totp_enroll_start_def wp_handler
    apply (subst wp_try, simp add: wp_eqs q del: wp_try)
    apply (subst wp_try, simp add: wp_eqs q del: wp_try)
    apply (subst wp_try, simp add: wp_eqs q assms(7) some del: wp_try)
    apply (subst wp_try, simp add: wp_eqs q Let_def del: wp_try)
    apply (rule wp_setup_guards [OF q(1) _ _ now(2), where s = s])
      apply (simp add: ok)
     apply (simp add: assms(4))
    apply (simp add: wp_eqs q assms(2) refresh_session_activity_def session_of_def Let_def command_def act)
    apply (simp add: seal some account_login_handle_def query_def handle q wp_eqs uri Let_def)
    apply (rule wp_start_tx_quiet [OF q(1)], simp)
         apply (use assms(5) in \<open>simp add: account_exists_def\<close>)
        apply (use assms(9) in simp)
       apply (simp add: E)
      apply simp
    apply (unfold wp_try wp_unavailable)
    apply (subst wp_commit, assumption)
    apply (simp add: wp_eqs q telemetry_defs y no_store_json_def Let_def)
    apply (intro conjI)
     apply (simp add: enrolment_offered_def)
     apply (intro exI conjI, rule refl, rule seal(2), simp, simp, rule refl)
    apply (simp add: enrolment_begun_def)
    apply (intro exI conjI, rule idle(1), rule refl)
    done
qed

section \<open>The enrolment\<close>

text \<open>An authenticator that was given the secret shows the code of a step within one period of the server's time.\<close>

definition authenticator_shows :: "externals \<Rightarrow> string \<Rightarrow> time \<Rightarrow> string \<Rightarrow> bool" where
  "authenticator_shows X secret now code \<longleftrightarrow> (\<exists>seed t s. secret = base32_no_padding seed \<and> unix_time_seconds now = Inr t \<and> t < 2 ^ 62
     \<and> t div 30 \<le> s + 1 \<and> s \<le> t div 30 + 1 \<and> code_at X seed google_authenticator_default s code)"

lemma offered_code:
  assumes "enrolment_offered X key a r d" and "authenticator_shows X (es_manual_secret r) now code"
  obtains f where "awaits_code (es_factor_id r) a f d" and "shows_code X key a f now code"
proof -
  obtain seed c n where f: "factor_of (es_factor_id r) a d = Some (pending_factor (es_factor_id r) a c n)"
      "decrypt_totp_seed X key n (totp_seed_aad X a (es_factor_id r) google_authenticator_default) c = Inr seed"
      "length seed = TOTP_SEED_BYTES" "es_manual_secret r = base32_no_padding seed"
    using assms(1) unfolding enrolment_offered_def by blast
  let ?f = "pending_factor (es_factor_id r) a c n"
  obtain t s where "unix_time_seconds now = Inr t" "t < 2 ^ 62" "t div 30 \<le> s + 1" "s \<le> t div 30 + 1"
      "code_at X seed google_authenticator_default s code"
    using assms(2) f(4) unfolding authenticator_shows_def by (auto simp: base32_inject)
  moreover have "totp_profile_from_row ?f = Inr google_authenticator_default" "stored_step ?f = Inr None"
    by (simp_all add: totp_profile_from_row_def pending_factor_def stored_step_def google_authenticator_default_def)
  ultimately have "shows_code X key a ?f now code"
    unfolding shows_code_def using f(2,3)
    by (intro exI [of _ google_authenticator_default] exI [of _ seed] exI [of _ t] exI [of _ None] exI [of _ s])
      (simp add: pending_factor_def google_authenticator_default_def TOTP_SEED_BYTES_def MIN_SEED_BYTES_def fresh_step_def)
  moreover have "awaits_code (es_factor_id r) a ?f d" using f(1) by (simp add: awaits_code_def pending_factor_def)
  ultimately show thesis by (rule that [rotated])
qed

text \<open>Whatever else the service does between the two requests, the session and its factor are still there.\<close>

definition setup_undisturbed :: "env \<Rightarrow> session_row \<Rightarrow> uuid \<Rightarrow> world \<Rightarrow> world \<Rightarrow> bool" where
  "setup_undisturbed e s i w w' \<longleftrightarrow> w_txn w' = None \<and> system_ok (w_db w')
     \<and> (\<forall>r \<in> set (sessions (w_db w)). se_id r = se_id s \<longrightarrow>
          r \<in> set (sessions (w_db w')) \<and> device_revocation (w_db w') r = device_revocation (w_db w) r)
     \<and> factor_of i (se_account_id s) (w_db w') = factor_of i (se_account_id s) (w_db w)
     \<and> fresh_codes e {w_tick w'..w_tick w' + 60} (se_account_id s) (w_db w')"

lemma begun_session:
  assumes "enrolment_begun s u w w1" and "authorizes_setup X h u s (w_db w)" and "setup_undisturbed e s i w1 w2"
  obtains s' where "authorizes_setup X h u s' (w_db w2)" and "se_account_id s' = se_account_id s"
    and "se_absolute_expires_at s' = se_absolute_expires_at s"
proof -
  obtain now idle fs xs where idle: "u < idle"
    and db: "w_db w1 = (w_db w)\<lparr>sessions := update_where (\<lambda>r. se_id r = se_id s)
         (\<lambda>r. r\<lparr>se_last_seen_at := Some now, se_idle_expires_at := idle, se_expires_at := idle\<rparr>) (sessions (w_db w)),
         totp_factors := fs, audit_events := xs\<rparr>"
    using assms(1) unfolding enrolment_begun_def by blast
  let ?s = "s\<lparr>se_last_seen_at := Some now, se_idle_expires_at := idle, se_expires_at := idle\<rparr>"
  have s: "s \<in> set (sessions (w_db w))" "device_revocation (w_db w) s = None"
    using assms(2) by (simp_all add: authorizes_setup_def live_session_def)
  have "?s \<in> set (sessions (w_db w1))" using s(1) by (auto simp: db set_update_where)
  moreover have "device_of (w_db w1) = device_of (w_db w)" by (simp add: db device_of_def fun_eq_iff)
  then have "device_revocation (w_db w1) ?s = None" using s(2) by (simp add: device_revocation_def split: option.splits)
  ultimately have "?s \<in> set (sessions (w_db w2))" "device_revocation (w_db w2) ?s = None"
    using assms(3) by (auto simp: setup_undisturbed_def)
  then have "authorizes_setup X h u ?s (w_db w2)"
    using assms(2) idle by (simp add: authorizes_setup_def live_session_def)
  then show thesis by (rule that) simp_all
qed

text \<open>The start itself disturbs nothing.\<close>

lemma start_leaves_setup:
  assumes "enrolment_begun s u w w1" and "system_ok (w_db w1)" and "fresh_codes e {w_tick w..w_tick w + 80} (se_account_id s) (w_db w)"
  shows "setup_undisturbed e s i w1 w1"
proof -
  obtain now idle fs xs where tick: "w_txn w1 = None" "w_tick w \<le> w_tick w1" "w_tick w1 \<le> w_tick w + 20"
    and db: "w_db w1 = (w_db w)\<lparr>sessions := update_where (\<lambda>r. se_id r = se_id s)
         (\<lambda>r. r\<lparr>se_last_seen_at := Some now, se_idle_expires_at := idle, se_expires_at := idle\<rparr>) (sessions (w_db w)),
         totp_factors := fs, audit_events := xs\<rparr>"
    using assms(1) unfolding enrolment_begun_def by blast
  have "{w_tick w1..w_tick w1 + 60} \<subseteq> {w_tick w..w_tick w + 80}" using tick by auto
  moreover have "se_session_token_hash ` set (sessions (w_db w1)) = se_session_token_hash ` set (sessions (w_db w))"
  proof -
    have "map se_session_token_hash (sessions (w_db w1)) = map se_session_token_hash (sessions (w_db w))"
      by (simp add: db map_update_where)
    then show ?thesis by (metis set_map)
  qed
  moreover have "recovery_codes (w_db w1) = recovery_codes (w_db w)" by (simp add: db)
  ultimately have "fresh_codes e {w_tick w1..w_tick w1 + 60} (se_account_id s) (w_db w1)"
    using assms(3) unfolding fresh_codes_def salts_differ_def codes_fresh_def by (simp only:) (blast intro: inj_on_subset)
  then show ?thesis using assms(2) tick(1) by (simp add: setup_undisturbed_def)
qed

text \<open>The confirmed factor is the verified factor of the account.\<close>

lemma confirmed_factor:
  assumes "enroll_confirmed X key c i code codes d d'" and "system_ok d"
  shows "\<exists>f. verified_factor (cs_account_id c) d' = Some f \<and> tf_id f = i"
proof -
  obtain f now st where f: "factor_of i (cs_account_id c) d = Some f"
    and fs: "totp_factors d' = totp_factors (set_verified i now (int st) d)"
    using assms(1) unfolding enroll_confirmed_def enroll_effect_def by blast
  let ?f = "f\<lparr>tf_verified_at := Some now, tf_last_accepted_step := Some (int st)\<rparr>"
  have row: "f \<in> set (totp_factors d)" "tf_id f = i" "tf_account_id f = cs_account_id c"
    using f by (auto simp: factor_of_def dest: find_Some_mem)
  have "verified_factor (cs_account_id c) d' = Some ?f"
    unfolding verified_factor_def fs set_verified_def
  proof (simp, rule find_unique [of tf_account_id])
    show "distinct (map tf_account_id (update_where (\<lambda>f. tf_id f = i)
        (\<lambda>f. f\<lparr>tf_verified_at := Some now, tf_last_accepted_step := Some (int st)\<rparr>) (totp_factors d)))"
      using assms(2) by (subst map_update_where) (simp_all add: system_ok_def rest_defs)
    show "?f \<in> set (update_where (\<lambda>f. tf_id f = i)
        (\<lambda>f. f\<lparr>tf_verified_at := Some now, tf_last_accepted_step := Some (int st)\<rparr>) (totp_factors d))"
      using row by (auto simp: set_update_where)
  qed (use row in simp_all)
  then show ?thesis using row(2) by auto
qed

lemma wp_enroll_confirm_verified:
  assumes "w_txn w = None" and "system_ok (w_db w)" and "authorizes_setup (ext e) h u s (w_db w)"
  shows "wp e (totp_enroll_confirm h i code)
    (\<lambda>resp w'. \<exists>f. verified_factor (se_account_id s) (w_db w') = Some f \<and> tf_id f = i) (\<lambda>_ _. True) w"
proof (rule wp_mono [OF wp_totp_enroll_confirm [OF assms(1)]])
  fix resp :: "totp_enroll_confirm_response response" and w'
  assume "\<exists>key now s. cf_totp_seed_key (conf e) = Some key \<and> enrolling_session e h (w_db w) now s
        \<and> enroll_confirmed (ext e) key (session_of s) i code (ec_recovery_codes (rs_body resp)) (w_db w) (w_db w')"
  then obtain key now s' where s': "enrolling_session e h (w_db w) now s'"
    and confirmed: "enroll_confirmed (ext e) key (session_of s') i code (ec_recovery_codes (rs_body resp)) (w_db w) (w_db w')" by blast
  have "s' = s"
    using s' assms(2,3) distinct_map_unique [of se_session_token_hash "sessions (w_db w)" s' s]
    by (auto simp: enrolling_session_def authorizes_setup_def live_session_def system_ok_def sessions_ok_def unique_tokens_def)
  with confirmed_factor [OF confirmed assms(2)]
  show "\<exists>f. verified_factor (se_account_id s) (w_db w') = Some f \<and> tf_id f = i" by (simp add: session_of_def)
qed simp


section \<open>Witness\<close>

text \<open>A hash that keeps the salt of a recovery code.\<close>

definition salted_sample :: externals where
  "salted_sample = sample\<lparr>sha256 := (\<lambda>m. take_pad 32 (if 49 < length m then drop 49 m else m))\<rparr>"

definition salted_env :: env where
  "salted_env = sample_env\<lparr>ext := salted_sample\<rparr>"

lemma salted_env_simps [simp]:
  "ext salted_env = salted_sample" "conf salted_env = conf sample_env" "fault_at salted_env n = Fine"
  "clock salted_env n = seconds 1000" "draw salted_env n = (\<lambda>_. of_nat n)" "fresh_uuid salted_env n = of_nat n"
  by (simp_all add: salted_env_def sample_env_def)

lemma salted_hash: "sha256 salted_sample m = take_pad 32 (if 49 < length m then drop 49 m else m)"
  by (simp add: salted_sample_def)

lemma salted_headers: "session_token_from_headers salted_sample h = session_token_from_headers sample h"
  "csrf_token_from_headers salted_sample h = csrf_token_from_headers sample h"
proof -
  have dec: "decode_base64url_array salted_sample n v = decode_base64url_array sample n v" for n v
    by (simp add: decode_base64url_array_def decode_base64url_def salted_sample_def)
  have "scan_cookies salted_sample parts b t = scan_cookies sample parts b t" for parts b t
    by (induction parts arbitrary: b t) (simp_all add: dec split: option.split prod.split)
  then show "session_token_from_headers salted_sample h = session_token_from_headers sample h"
    "csrf_token_from_headers salted_sample h = csrf_token_from_headers sample h"
    by (simp_all add: session_token_from_headers_def csrf_token_from_headers_def dec cong: option.case_cong)
qed

lemma salted_dependable: "dependable salted_env (seconds 1000)"
  using sample_dependable by (simp add: dependable_def quiet_def salted_env_def salted_sample_def session_cookie_def encode_base64url_def)

lemma of_nat_differ:
  assumes "m < 2 ^ LENGTH('a)" and "n < 2 ^ LENGTH('a)"
  shows "(of_nat m :: 'a :: len word) = of_nat n \<longleftrightarrow> m = n"
proof
  assume "(of_nat m :: 'a word) = of_nat n"
  then have "unat (of_nat m :: 'a word) = unat (of_nat n :: 'a word)" by simp
  with assms show "m = n" by (simp add: unat_of_nat take_bit_nat_eq_self)
qed simp

lemma salted_code_hash:
  assumes "length salt = 16"
  shows "take 16 (recovery_code_hash salted_sample a salt c) = salt"
proof -
  have "length (uuid_bytes salted_sample a) = 16" by (simp add: salted_sample_def sample_def be64_def)
  then show ?thesis
    using assms by (simp add: recovery_code_hash_def salted_hash as_bytes_def take_pad_def)
qed

lemma salted_codes: "fresh_codes salted_env {100..180} 1000 (sample_enroll_db None)"
proof -
  have inj: "inj_on (fresh_uuid salted_env) {100..180}"
    by (rule inj_onI) (simp add: of_nat_differ)
  have "recovery_code_hash salted_sample 1000 (code_salt salted_env m) c \<noteq> recovery_code_hash salted_sample 1000 (code_salt salted_env n) c'"
    if "m \<in> {100..180}" "n \<in> {100..180}" "m \<noteq> n" for m n c c'
  proof
    assume "recovery_code_hash salted_sample 1000 (code_salt salted_env m) c = recovery_code_hash salted_sample 1000 (code_salt salted_env n) c'"
    then have "code_salt salted_env m = code_salt salted_env n"
      by (metis salted_code_hash code_salt_def length_map length_upt minus_nat.diff_0 RECOVERY_CODE_SALT_BYTES_def)
    then have "hd (code_salt salted_env m) = hd (code_salt salted_env n)" by simp
    then have "(of_nat m :: byte) = of_nat n"
      by (simp add: code_salt_def RECOVERY_CODE_SALT_BYTES_def hd_map)
    with that show False by (simp add: of_nat_differ)
  qed
  moreover have "sha256_verifier salted_sample (map (draw salted_env n) [0..<TOKEN_LEN]) \<noteq> sha256 sample sample_token"
    if "n \<in> {100..180}" for n
  proof -
    have "(of_nat n :: byte) \<noteq> of_nat 5" using that by (subst of_nat_differ) auto
    then show ?thesis
      by (simp add: sha256_verifier_def salted_hash TOKEN_LEN_def map_replicate_const sample_def sample_token_def take_pad_def)
  qed
  ultimately show ?thesis
    using inj by (simp add: fresh_codes_def salts_differ_def codes_fresh_def sample_enroll_db_def empty_db_def)
qed

lemma salted_setup:
  "authorizes_setup salted_sample sample_headers (seconds 1000 + LOGIN_CHALLENGE_TTL) sample_setup_session (sample_enroll_db None)"
proof -
  have "live_session (sample_enroll_db None) (seconds 1000 + LOGIN_CHALLENGE_TTL) sample_setup_session"
    by (simp add: live_session_def sample_enroll_db_def device_revocation_def seconds_def LOGIN_CHALLENGE_TTL_def minutes_def)
  moreover have "sha256_verifier salted_sample sample_token = sha256 sample sample_token"
    "sha256_verifier salted_sample sample_csrf_token = sha256 sample sample_csrf_token"
    by (simp_all add: sha256_verifier_def salted_hash sample_def sample_token_def sample_csrf_token_def)
  ultimately show ?thesis
    by (simp add: authorizes_setup_def sample_unsafe salted_headers sample_headers_token sample_headers_csrf)
qed

lemma sample_enroll_ok: "system_ok (sample_enroll_db None)"
  by (simp add: system_ok_def vaults_ok_def sessions_ok_def unique_tokens_def rest_defs sample_enroll_db_def empty_db_def
      account_checks_def kdf_profile AUTH_PROTOCOL_def PROFILE_ID_def nonblank_def DEFAULT_ITERATIONS_def session_checks_def
      opt_all_def sample_sha256_length sample_account_def)

lemma salted_seals: "seals salted_sample key"
  unfolding seals_def
proof (intro allI impI)
  fix n aad m :: bytes assume n: "length n = XCHACHA20POLY1305_NONCE_BYTES"
  have "take (length (key @ n @ aad)) (key @ n @ aad @ m) = key @ n @ aad" "drop (length (key @ n @ aad)) (key @ n @ aad @ m) = m"
    using append_eq_conv_conj [of "key @ n @ aad" m "key @ n @ aad @ m"] by simp_all
  with n show "\<exists>c. c \<noteq> [] \<and> xchacha_encrypt salted_sample key n aad m = Some c \<and> xchacha_decrypt salted_sample key n aad c = Some m"
    by (intro exI [of _ "key @ n @ aad @ m"])
      (auto simp: salted_sample_def sample_def Let_def XCHACHA20POLY1305_NONCE_BYTES_def simp del: length_append)
qed

text \<open>Every secret has a code.\<close>

lemma some_code:
  assumes "hmac_lengths X"
  shows "\<exists>code. authenticator_shows X (base32_no_padding seed) (seconds 1000) code"
proof -
  obtain v where "hotp X seed 33 Sha1 6 = Inr v" by (rule hotp_total [OF assms, of 6 seed 33 Sha1]) simp_all
  then have "code_at X seed google_authenticator_default 33 (format_code v 6)"
    by (simp add: code_at_def google_authenticator_default_def)
  then show ?thesis
    unfolding authenticator_shows_def
    by (intro exI [of _ "format_code v 6"] exI [of _ seed] exI [of _ 1000] exI [of _ 33]) (simp add: unix_time_seconds_def seconds_def)
qed


end
