(* ===== verification/PV_Concurrent.thy ===== *)
theory PV_Concurrent
  imports PV_Service
begin

text \<open>
  Reading a vault while others write it. \<open>sync_vault\<close> of \<^verbatim>\<open>vault.rs\<close> reads the head, checks the
  cursor and reads the page in separate statements on the pool, so other requests may commit in between.
\<close>

section \<open>Interference\<close>

text \<open>What other requests commit at the moment \<open>n\<close> turns the database \<open>d\<close> into \<open>g n d\<close>.\<close>

definition others :: "(nat \<Rightarrow> db \<Rightarrow> db) \<Rightarrow> ('e, unit) io" where
  "others g = (\<lambda>e w. (Inr (), w\<lparr>w_db := g (w_tick w) (w_db w)\<rparr>))"

lemma wp_others: "wp e (others g) Q R w = Q () (w\<lparr>w_db := g (w_tick w) (w_db w)\<rparr>)"
  by (simp add: wp_def others_def)

lemma vc_others: "(\<And>w'. w_db w' = g (w_tick w) (w_db w) \<Longrightarrow> Q () w') \<Longrightarrow> wp e (others g) Q R w"
  by (simp add: wp_others)

text \<open>The handler \<open>sync_vault\<close> with the commits of others before each of its statements on the vault.\<close>

definition sync_vault_shared ::
  "(nat \<Rightarrow> db \<Rightarrow> db) \<Rightarrow> headers \<Rightarrow> uuid \<Rightarrow> int \<Rightarrow> string \<Rightarrow> (api_error, sync_response response) io" where
  "sync_vault_shared g h vault_id from_seq from_hash = handler (
     try_io database_pool (\<lambda>_.
     try_io (require_vault_session h) (\<lambda>session.
     try_io ask (\<lambda>e.
     try_io (lift (validate_nonnegative_seq from_seq)) (\<lambda>from_head_seq.
     try_io (lift (decode_hash (ext e) from_hash)) (\<lambda>from_head_hash.
     try_io (others g) (\<lambda>_.
     try_io (load_vault_head (cs_account_id session) vault_id) (\<lambda>head.
     case head of
       None \<Rightarrow> throw NotFound
     | Some v \<Rightarrow>
         try_io (others g) (\<lambda>_.
         try_io (sync_cursor_matches vault_id v from_head_seq from_head_hash) (\<lambda>matches.
         if \<not> matches
         then try_io (sync_request ''conflict'' ''none'') (\<lambda>_.
           ret (vault_conflict_response (ext e) SyncConflict v))
         else
           try_io (others g) (\<lambda>_.
           try_io (pool_call (query (sync_rows vault_id from_head_seq (vh_head_seq v)
             (MAX_SYNC_CHANGES_PER_RESPONSE + 1)))) (\<lambda>rows.
           try_io (sync_request ''success''
             (if length rows > MAX_SYNC_CHANGES_PER_RESPONSE then ''partial'' else ''complete'')) (\<lambda>_.
           ret (no_store_json 200 (sync_page (ext e) v from_head_seq from_head_hash rows)))))))))))))))"

lemma others_none [simp]: "try_io (others (\<lambda>_ d. d)) f = f ()"
  by (simp add: try_io_def others_def fun_eq_iff)

lemma sync_vault_alone: "sync_vault_shared (\<lambda>_ d. d) h v n k = sync_vault h v n k"
  unfolding sync_vault_shared_def sync_vault_def by (simp cong: if_cong option.case_cong)

section \<open>What a head keeps meaning\<close>

lemmas db_steps_vaults_ok = db_steps_ledgers [THEN conjunct1]

lemma find_append_left: "find P xs = Some y \<Longrightarrow> find P (xs @ ys) = Some y"
  by (induction xs) auto

text \<open>The log up to a head that was read never changes again.\<close>

lemma log_kept:
  assumes "db_step\<^sup>*\<^sup>* d d'" and "vaults_ok d" and "vault_row_of v d = Some x"
  obtains added where "log_of v d' = log_of v d @ added" and "\<forall>r \<in> set added. va_head_seq x < rv_head_seq r"
proof -
  from vault.steps_extend [OF db_steps_ledger [OF assms(1)], of v] assms(2,3)
  obtain added where log: "log_of v d' = log_of v d @ added" by auto
  have "vaults_ok d'" and "vault_row_of v d' \<noteq> None"
    using vault.steps_extend [OF db_steps_ledger [OF assms(1)], of v] assms(2,3) by simp_all
  then obtain x' where x': "vault_row_of v d' = Some x'" "vaults_ok d'" by blast
  note ids = vault_row_of_mem [OF assms(3)] vault_row_of_mem [OF x'(1)]
  have len: "va_head_seq x = int (length (log_of v d))" and chain: "chained (va_genesis_head_hash x') 0 (log_of v d')"
    using vaults_okD(3) [OF assms(2), of x] vaults_okD(3) [OF x'(2), of x'] ids by (auto simp: vault_consistent_def Let_def)
  have "va_head_seq x < rv_head_seq r" if mem: "r \<in> set added" for r
  proof -
    obtain k where k: "k < length added" "r = added ! k" using mem unfolding in_set_conv_nth by blast
    have "length (log_of v d) + k < length (log_of v d')" using k(1) by (simp add: log)
    from chained_nth_seq [OF chain this] have "rv_head_seq r = 1 + int (length (log_of v d) + k)" by (simp add: log k(2))
    then show ?thesis by (simp add: len)
  qed
  then show thesis by (intro that [OF log] ballI)
qed

lemma sync_rows_kept:
  assumes "db_step\<^sup>*\<^sup>* d d'" and "vaults_ok d" and "vault_row_of v d = Some x"
  shows "sync_rows v n (va_head_seq x) k d' = sync_rows v n (va_head_seq x) k d"
proof -
  obtain added where log: "log_of v d' = log_of v d @ added" "\<forall>r \<in> set added. va_head_seq x < rv_head_seq r"
    by (rule log_kept [OF assms])
  have rows: "sync_rows v n m k d = take k (sort_key rv_head_seq (filter (\<lambda>r. n < rv_head_seq r \<and> rv_head_seq r \<le> m) (log_of v d)))"
    for m d by (simp add: sync_rows_def log_of_def conj_commute conj_left_commute)
  have "filter (\<lambda>r. n < rv_head_seq r \<and> rv_head_seq r \<le> va_head_seq x) added = []"
    using log(2) by (auto simp: filter_empty_conv)
  then show ?thesis by (simp only: rows log(1) filter_append append_Nil2)
qed

lemma revision_hash_kept:
  assumes "db_step\<^sup>*\<^sup>* d d'" and "vaults_ok d" and "vault_row_of v d = Some x" and "0 < n" and "n \<le> va_head_seq x"
  shows "revision_hash_at v n d' = revision_hash_at v n d"
proof -
  obtain added where log: "log_of v d' = log_of v d @ added" by (rule log_kept [OF assms(1-3)])
  have hash: "revision_hash_at v n d = map_option rv_head_hash (find (\<lambda>r. rv_head_seq r = n) (log_of v d))" for d
    by (simp add: revision_hash_at_def find_filter log_of_def)
  obtain k where "revision_hash_at v n d = Some k"
    using revision_hash_log [OF assms(2) _ assms(4,5)] vault_row_of_mem [OF assms(3)] by auto
  then obtain r where "find (\<lambda>r. rv_head_seq r = n) (log_of v d) = Some r" by (auto simp: hash)
  then show ?thesis by (simp add: hash log find_append_left)
qed

section \<open>The answer of an overlapping sync\<close>

lemma cursor_kept:
  assumes "db_step\<^sup>*\<^sup>* d d'" and "vaults_ok d" and "vault_of a v d = Some x" and "0 \<le> n"
    and "w_db w = d'"
  shows "wp e (sync_cursor_matches v (vault_head_from_row x) n k) (\<lambda>b w'. w_db w' = d' \<and> b = on_log x d n k) (\<lambda>_ _. True) w"
proof -
  note row = vault_of_row [OF assms(2,3)]
  have len: "va_head_seq x = int (length (log_of v d))" and head: "va_head_hash x = tip (va_genesis_head_hash x) (log_of v d)"
    using vaults_okD(3) [OF assms(2), of x] row by (auto simp: vault_consistent_def Let_def)
  have hash: "revision_hash_at v n d' = Some (tip (va_genesis_head_hash x) (take (nat n) (log_of v d)))"
    if "n \<noteq> 0" "n \<le> va_head_seq x"
    using revision_hash_kept [OF assms(1,2), of v x n] revision_hash_log [OF assms(2), of x n] row that assms(4) by simp
  show ?thesis
    unfolding sync_cursor_matches_def vault_head_simps
    by (intro vc_rules) (use row assms(4,5) in \<open>auto simp: on_log_def same_state_def len head hash\<close>)
qed

text \<open>The check of a cursor against a head that was read earlier, at \<open>d\<close>.\<close>

definition cursor_since :: "uuid \<Rightarrow> vault_head \<Rightarrow> int \<Rightarrow> bytes \<Rightarrow> db \<Rightarrow> bool \<Rightarrow> bool" where
  "cursor_since v head n k d' b \<longleftrightarrow>
     (\<forall>d a x. db_step\<^sup>*\<^sup>* d d' \<and> vaults_ok d \<and> vault_of a v d = Some x \<and> head = vault_head_from_row x \<and> 0 \<le> n
        \<longrightarrow> b = on_log x d n k)"

lemma wp_cursor_since:
  assumes "\<And>b w'. w_db w' = w_db w \<Longrightarrow> cursor_since v head n k (w_db w) b \<Longrightarrow> Q b w'" and "\<And>z w'. R z w'"
  shows "wp e (sync_cursor_matches v head n k) Q R w"
proof -
  obtain r w' where run: "sync_cursor_matches v head n k e w = (r, w')" by force
  have db: "wp e (sync_cursor_matches v head n k) (\<lambda>_ w'. w_db w' = w_db w) (\<lambda>_ _. True) w"
    unfolding sync_cursor_matches_def by (intro vc_rules) (auto simp: same_state_def)
  show ?thesis
  proof (cases r)
    case (Inr b)
    have "b = on_log x d n k" if "db_step\<^sup>*\<^sup>* d (w_db w)" "vaults_ok d" "vault_of a v d = Some x"
        "head = vault_head_from_row x" "0 \<le> n" for d a x
      using wp_result [OF run [unfolded that(4)] cursor_kept [OF that(1-3,5) refl]] Inr by simp
    then have "cursor_since v head n k (w_db w) b" by (auto simp: cursor_since_def)
    then show ?thesis using wp_result [OF run db] Inr assms(1) by (simp add: wp_def run)
  qed (simp add: wp_def run assms(2))
qed

text \<open>An answer as of the moment \<open>d1\<close>, to a session that was live at the start.\<close>

definition answered_at ::
  "env \<Rightarrow> headers \<Rightarrow> uuid \<Rightarrow> int \<Rightarrow> string \<Rightarrow> db \<Rightarrow> db \<Rightarrow> sync_response response \<Rightarrow> bool" where
  "answered_at e h vault_id n from_hash d d1 resp \<longleftrightarrow>
     (\<exists>s x hash d0. vault_session e h d d0 s \<and> db_step\<^sup>*\<^sup>* d0 d1 \<and> vault_of (se_account_id s) vault_id d1 = Some x
        \<and> decode_hash (ext e) from_hash = Inr hash \<and> 0 \<le> n
        \<and> (if on_log x d1 n hash then resp = no_store_json 200 (page_of (ext e) x d1 (nat n) hash)
           else resp = vault_conflict_response (ext e) SyncConflict (vault_head_from_row x)))"

lemma wp_sync_vault_shared:
  assumes "vaults_ok (w_db w)" and g: "\<And>k d. db_step\<^sup>*\<^sup>* d (g k d)"
  shows "wp e (sync_vault_shared g h v n from_hash)
    (\<lambda>resp w'. \<exists>d1. answered_at e h v n from_hash (w_db w) d1 resp \<and> db_step\<^sup>*\<^sup>* d1 (w_db w')) (\<lambda>_ _. True) w"
proof -
  have page: "sync_page X (vault_head_from_row x) n hash (sync_rows v n (va_head_seq x) (Suc MAX_SYNC_CHANGES_PER_RESPONSE) d3)
      = page_of X x d1 (nat n) hash"
    if "vaults_ok d1" "db_step\<^sup>*\<^sup>* d1 d3" "vault_of a v d1 = Some x" "on_log x d1 n hash" for a x d1 d3 hash X
  proof -
    note row = vault_of_row [OF that(1,3)]
    have n: "int (nat n) = n" using that(4) by (simp add: on_log_def)
    have "sync_rows v n (va_head_seq x) k d3 = sync_rows v n (va_head_seq x) k d1" for k
      by (rule sync_rows_kept [OF that(2,1)]) (use row in simp)
    then show ?thesis using sync_page_log [OF that(1), of v x "nat n" hash X] row that(4) n by simp
  qed
  have answer: "answered_at e h v n from_hash (w_db w) d1
      (if b then no_store_json 200 (sync_page (ext e) (vault_head_from_row x) n hash
         (sync_rows v n (va_head_seq x) (Suc MAX_SYNC_CHANGES_PER_RESPONSE) d3))
       else vault_conflict_response (ext e) SyncConflict (vault_head_from_row x))"
    if "vault_session e h (w_db w) d0 s" "db_step\<^sup>*\<^sup>* d0 d1" "vault_of (se_account_id s) v d1 = Some x"
      "decode_hash (ext e) from_hash = Inr hash" "0 \<le> n" "cursor_since v (vault_head_from_row x) n hash d2 b"
      "db_step\<^sup>*\<^sup>* d1 d2" "b \<Longrightarrow> db_step\<^sup>*\<^sup>* d2 d3" for d0 s d1 x hash d2 b d3
  proof -
    have "session_refreshed (w_db w) d0" using that(1) by (simp add: vault_session_def)
    then have ok: "vaults_ok d1"
      using db_steps_vaults_ok [OF that(2)] same_vaults_ok [OF assms(1) session_refreshed_vaults] by blast
    have b: "b = on_log x d1 n hash" using that(3,5-7) ok by (auto simp: cursor_since_def)
    show ?thesis
      unfolding answered_at_def
      using that(1-5) page [OF ok _ that(3), of d3 hash] b rtranclp_trans [OF that(7) that(8)]
      by (intro exI [of _ s] exI [of _ x] exI [of _ hash] exI [of _ d0]) auto
  qed
  have finished: "\<exists>d1. answered_at e h v n from_hash (w_db w) d1
      (if b then no_store_json 200 (sync_page (ext e) (vault_head_from_row x) n hash
         (sync_rows v n (va_head_seq x) (Suc MAX_SYNC_CHANGES_PER_RESPONSE) d3))
       else vault_conflict_response (ext e) SyncConflict (vault_head_from_row x)) \<and> db_step\<^sup>*\<^sup>* d1 d3"
    if "session_token_from_headers (ext e) h = Some tok" "se_session_token_hash s = sha256_verifier (ext e) tok"
      "live_session (w_db w) now s" "se_session_state s = ''mfa_verified''" "session_refreshed (w_db w) d0"
      "vault_of (se_account_id s) v (g i d0) = Some x" "decode_hash (ext e) from_hash = Inr hash" "0 \<le> n"
      "cursor_since v (vault_head_from_row x) n hash (g j (g i d0)) b" "db_step\<^sup>*\<^sup>* (g j (g i d0)) d3"
    for tok s now d0 i j x hash b d3
  proof -
    have "vault_session e h (w_db w) d0 s" using that(1-5) unfolding vault_session_def by blast
    from answer [OF this g that(6-9) g that(10)] show ?thesis using rtranclp_trans [OF g that(10)] by blast
  qed
  note conflict = finished [where b = False, simplified] and page = finished [where b = True, simplified]
  show ?thesis
    unfolding sync_vault_shared_def telemetry_defs counter_def
    apply (intro vc_rules wp_require_vault_session vc_others wp_load_vault_head wp_cursor_since)
    apply (simp_all add: same_state_def validate_nonnegative_seq_def split: if_splits)
     apply (auto intro!: conflict page g)
    done
qed

text \<open>C6. A sync that overlaps with writes is consistent. Whatever other requests commit between the statements of
  \<open>sync_vault\<close> (\<open>sync_vault_shared g\<close>, which is \<open>sync_vault\<close> when they commit nothing), its answer is that of one
  moment during the request: at that moment the cursor was on the vault's log and the answer is the page of that
  log after it, or it was not and the answer is a conflict that names the head of that moment.\<close>

theorem sync_vault_concurrent:
  assumes "sync_vault_shared g h v n from_hash e w = (Inr resp, w')" and "vaults_ok (w_db w)"
    and "\<And>k d. db_step\<^sup>*\<^sup>* d (g k d)"
  shows "\<exists>d1. answered_at e h v n from_hash (w_db w) d1 resp \<and> db_step\<^sup>*\<^sup>* d1 (w_db w')"
  using wp_result [OF assms(1) wp_sync_vault_shared [OF assms(2,3)]] by simp

text \<open>Another client's whole request before each statement after the read of the head.\<close>

definition sample_others :: "nat \<Rightarrow> db \<Rightarrow> db" where
  "sample_others n d = (if n < 4 then d
     else w_db (snd (serve (CreateItem sample_headers 77 sample_create) sample_env (world_of d))))"

lemma sample_others_steps: "db_step\<^sup>*\<^sup>* d (sample_others n d)"
proof -
  obtain r w' where run: "serve (CreateItem sample_headers 77 sample_create) sample_env (world_of d) = (r, w')" by force
  from movesD(1) [OF moves_serve _ run] have "db_step\<^sup>*\<^sup>* d (w_db w')" by simp
  then show ?thesis unfolding sample_others_def run snd_conv by simp
qed

theorem sync_vault_concurrent_witness:
  "\<exists>resp w' d1. sync_vault_shared sample_others sample_headers 77 0 (hex_encode (replicate 32 3)) sample_env
        (world_of (vault_db sample_vault [])) = (Inr resp, w')
     \<and> answered_at sample_env sample_headers 77 0 (hex_encode (replicate 32 3)) (vault_db sample_vault []) d1 resp
     \<and> db_step\<^sup>*\<^sup>* d1 (w_db w')"
proof -
  let ?w = "world_of (vault_db sample_vault [])"
  have "wp sample_env (sync_vault_shared sample_others sample_headers 77 0 (hex_encode (replicate 32 3)))
      (\<lambda>resp _. rs_status resp = 200) (\<lambda>_ _. False) ?w"
    by (simp add: sync_vault_shared_def wp_others validate_nonnegative_seq_def load_vault_head_def sync_cursor_matches_def
        sample_write min_time_def no_store_json_def sample_others_def del: hex_encode.simps)
  then obtain resp w' where run: "sync_vault_shared sample_others sample_headers 77 0 (hex_encode (replicate 32 3)) sample_env ?w = (Inr resp, w')"
    by (auto elim: run_of_wp)
  from sync_vault_concurrent [OF run _ sample_others_steps] run sample_vault_ok show ?thesis
    by (auto simp: system_ok_def)
qed

end
