(* ===== verification/PV_Address.thy ===== *)
theory PV_Address
  imports PV_Base
begin

text \<open>
  The addresses that the service listens on: \<open>str::parse::<SocketAddr>\<close> of the standard library, for the
  IPv4 form \<open>a.b.c.d:port\<close> and the IPv6 form \<open>[groups%scope]:port\<close>. A reader takes a text to the value
  it finds at the front of it and the rest; a reader that fails consumes nothing.
\<close>

type_synonym 'a reader = "string \<Rightarrow> ('a \<times> string) option"

datatype socket_addr = SocketV4 "nat list" nat | SocketV6 "nat list" nat nat

definition read_with :: "'a reader \<Rightarrow> ('a \<Rightarrow> 'b reader) \<Rightarrow> 'b reader" where
  "read_with m f s = (case m s of None \<Rightarrow> None | Some (a, r) \<Rightarrow> f a r)"

definition read_done :: "'a \<Rightarrow> 'a reader" where
  "read_done a s = Some (a, s)"

fun read_given_char :: "char \<Rightarrow> unit reader" where
  "read_given_char c [] = None"
| "read_given_char c (x # s) = (if x = c then Some ((), s) else None)"

text \<open>\<open>char::to_digit\<close>.\<close>

definition to_digit :: "nat \<Rightarrow> char \<Rightarrow> nat option" where
  "to_digit radix c =
     (let n = of_char c :: nat;
          d = if 48 \<le> n \<and> n \<le> 57 then n - 48 else if 97 \<le> n \<and> n \<le> 122 then n - 87
              else if 65 \<le> n \<and> n \<le> 90 then n - 55 else radix in
      if d < radix then Some d else None)"

text \<open>A number below \<open>bound\<close>, with at most \<open>max_digits\<close> digits where that is given.\<close>

definition read_number :: "nat \<Rightarrow> nat option \<Rightarrow> bool \<Rightarrow> nat \<Rightarrow> nat reader" where
  "read_number radix max_digits allow_zero_prefix bound s =
     (let ds = takeWhile (\<lambda>c. to_digit radix c \<noteq> None) s;
          v = foldl (\<lambda>n c. n * radix + the (to_digit radix c)) 0 ds in
      if ds = [] \<or> (case max_digits of None \<Rightarrow> False | Some m \<Rightarrow> m < length ds)
         \<or> \<not> allow_zero_prefix \<and> hd ds = CHR ''0'' \<and> 1 < length ds \<or> bound \<le> v
      then None else Some (v, drop (length ds) s))"

definition read_separator :: "char \<Rightarrow> nat \<Rightarrow> 'a reader \<Rightarrow> 'a reader" where
  "read_separator sep index inner =
     (if 0 < index then read_with (read_given_char sep) (\<lambda>_. inner) else inner)"

fun read_octets :: "nat \<Rightarrow> nat \<Rightarrow> nat list reader" where
  "read_octets i 0 = read_done []"
| "read_octets i (Suc n) =
     read_with (read_separator (CHR ''.'') i (read_number 10 (Some 3) False 256)) (\<lambda>x.
     read_with (read_octets (Suc i) n) (\<lambda>xs.
     read_done (x # xs)))"

definition read_ipv4_addr :: "nat list reader" where
  "read_ipv4_addr = read_octets 0 4"

text \<open>The groups of an IPv6 address up to a limit; the last two may be an embedded IPv4 address.\<close>

fun read_groups :: "nat \<Rightarrow> nat \<Rightarrow> string \<Rightarrow> nat list \<times> bool \<times> string" where
  "read_groups i 0 s = ([], False, s)"
| "read_groups i (Suc n) s =
     (case (if 0 < n then read_separator (CHR '':'') i read_ipv4_addr s else None) of
        Some (v4, r) \<Rightarrow> ([v4 ! 0 * 256 + v4 ! 1, v4 ! 2 * 256 + v4 ! 3], True, r)
      | None \<Rightarrow>
          (case read_separator (CHR '':'') i (read_number 16 (Some 4) True 65536) s of
             None \<Rightarrow> ([], False, s)
           | Some (g, r) \<Rightarrow>
               (case read_groups (Suc i) n r of (gs, embedded, t) \<Rightarrow> (g # gs, embedded, t))))"

definition read_ipv6_addr :: "nat list reader" where
  "read_ipv6_addr s =
     (case read_groups 0 8 s of (front, embedded, r) \<Rightarrow>
        if length front = 8 then Some (front, r)
        else if embedded then None
        else read_with (read_given_char (CHR '':'')) (\<lambda>_.
             read_with (read_given_char (CHR '':'')) (\<lambda>_ t.
               case read_groups 0 (7 - length front) t of (back, _, u) \<Rightarrow>
                 Some (front @ replicate (8 - length front - length back) 0 @ back, u))) r)"

definition read_port :: "nat reader" where
  "read_port = read_with (read_given_char (CHR '':'')) (\<lambda>_. read_number 10 None True (2 ^ 16))"

definition read_scope_id :: "nat reader" where
  "read_scope_id = read_with (read_given_char (CHR ''%'')) (\<lambda>_. read_number 10 None True (2 ^ 32))"

definition read_socket_addr_v4 :: "socket_addr reader" where
  "read_socket_addr_v4 =
     read_with read_ipv4_addr (\<lambda>ip. read_with read_port (\<lambda>port. read_done (SocketV4 ip port)))"

definition read_socket_addr_v6 :: "socket_addr reader" where
  "read_socket_addr_v6 =
     read_with (read_given_char (CHR ''['')) (\<lambda>_.
     read_with read_ipv6_addr (\<lambda>ip.
     read_with (\<lambda>s. case read_scope_id s of None \<Rightarrow> Some (0, s) | Some (n, r) \<Rightarrow> Some (n, r)) (\<lambda>scope.
     read_with (read_given_char (CHR '']'')) (\<lambda>_.
     read_with read_port (\<lambda>port.
     read_done (SocketV6 ip scope port))))))"

definition parse_socket_addr :: "string \<Rightarrow> socket_addr option" where
  "parse_socket_addr s =
     (case (case read_socket_addr_v4 s of None \<Rightarrow> read_socket_addr_v6 s | Some x \<Rightarrow> Some x) of
        Some (addr, []) \<Rightarrow> Some addr
      | _ \<Rightarrow> None)"

lemma read_with_Some: "read_with m f s = Some x \<longleftrightarrow> (\<exists>a r. m s = Some (a, r) \<and> f a r = Some x)"
  by (auto simp: read_with_def split: option.splits)

lemma read_number_bound: "read_number radix m z bound s = Some (v, r) \<Longrightarrow> v < bound"
  by (auto simp: read_number_def Let_def split: if_splits)

lemma read_separator_Some: "read_separator c i m s = Some x \<Longrightarrow> \<exists>r. m r = Some x"
  by (auto simp: read_separator_def read_with_Some split: if_splits)

text \<open>An IPv4 address has four octets, so the groups of an embedded one are defined.\<close>

lemma read_octets_length: "read_octets i n s = Some (xs, r) \<Longrightarrow> length xs = n \<and> (\<forall>x \<in> set xs. x < 256)"
proof (induction n arbitrary: i s xs r)
  case 0
  then show ?case by (simp add: read_done_def)
next
  case (Suc n)
  from Suc.prems obtain x t ys u where x: "read_separator (CHR ''.'') i (read_number 10 (Some 3) False 256) s = Some (x, t)"
    and ys: "read_octets (Suc i) n t = Some (ys, u)" and xs: "xs = x # ys"
    by (auto simp: read_with_Some read_done_def)
  from read_separator_Some [OF x] have "x < 256" by (auto dest: read_number_bound)
  with Suc.IH [OF ys] xs show ?case by simp
qed

lemma read_ipv4_unfold: "read_ipv4_addr = read_octets 0 (Suc (Suc (Suc (Suc 0))))"
  by (simp add: read_ipv4_addr_def numeral_eq_Suc)

lemmas reader_evals =
  parse_socket_addr_def read_socket_addr_v4_def read_socket_addr_v6_def read_port_def read_scope_id_def
  read_ipv4_unfold read_separator_def read_number_def read_with_def read_done_def to_digit_def

lemma default_addresses:
  "parse_socket_addr ''0.0.0.0:8080'' = Some (SocketV4 [0, 0, 0, 0] 8080)"
  "parse_socket_addr ''0.0.0.0:9090'' = Some (SocketV4 [0, 0, 0, 0] 9090)"
  "parse_socket_addr ''127.0.0.1:0'' = Some (SocketV4 [127, 0, 0, 1] 0)"
  by (simp_all add: reader_evals)

lemma address_examples:
  "parse_socket_addr ''01.0.0.0:80'' = None"
  "parse_socket_addr ''0.0.0.0:65536'' = None"
  "parse_socket_addr ''0.0.0.0'' = None"
  by (simp_all add: reader_evals)

lemma read_groups_8: "read_groups 0 8 s = read_groups 0 (Suc (Suc (Suc (Suc (Suc (Suc (Suc (Suc 0)))))))) s"
  by (simp add: numeral_eq_Suc)

lemma read_groups_7: "read_groups 0 7 s = read_groups 0 (Suc (Suc (Suc (Suc (Suc (Suc (Suc 0))))))) s"
  by (simp add: numeral_eq_Suc)

lemma loopback_address: "parse_socket_addr ''[::1]:80'' = Some (SocketV6 [0, 0, 0, 0, 0, 0, 0, 1] 0 80)"
  apply (simp add: reader_evals read_ipv6_addr_def read_groups_8 read_groups_7)
  apply (simp add: eval_nat_numeral)
  done

end
