(* ===== verification/PV_Config.thy ===== *)
theory PV_Config
  imports PV_Maintenance PV_Address
begin

text \<open>
  The rest of \<^verbatim>\<open>lib.rs\<close>, \<^verbatim>\<open>db.rs\<close> and \<^verbatim>\<open>main.rs\<close>: the configuration read from the
  environment and its redacted form, the state of the application, readiness and health, the headers of
  the browser application, and the command line. The connection pool belongs to the sqlx crate: opening it
  and running the migrations are parameters that give an error or nothing.
\<close>

section \<open>Configuration\<close>

definition MIN_SYNTHETIC_TRAFFIC_TOKEN_BYTES :: nat where
  "MIN_SYNTHETIC_TRAFFIC_TOKEN_BYTES = 32"

record api_config =
  ac_bind_addr :: socket_addr
  ac_metrics_bind_addr :: socket_addr
  ac_database_url :: "string option"
  ac_synthetic_metadata_key :: "bytes option"
  ac_synthetic_traffic_token :: "string option"
  ac_totp_seed_key :: "bytes option"
  ac_require_database :: bool
  ac_run_migrations_on_startup :: bool

datatype config_error =
    InvalidBindAddr
  | InvalidMetricsBindAddr
  | InvalidRequireDatabase
  | InvalidRunMigrationsOnStartup
  | InvalidSyntheticMetadataKey
  | InvalidSyntheticTrafficToken
  | InvalidTotpSeedKey

fun config_error_text :: "config_error \<Rightarrow> string" where
  "config_error_text InvalidBindAddr = ''PV_BIND_ADDR must be a socket address''"
| "config_error_text InvalidMetricsBindAddr = ''PV_METRICS_BIND_ADDR must be a socket address''"
| "config_error_text InvalidRequireDatabase = ''PV_REQUIRE_DATABASE must be true or false''"
| "config_error_text InvalidRunMigrationsOnStartup =
     ''PV_RUN_MIGRATIONS_ON_STARTUP must be true or false''"
| "config_error_text InvalidSyntheticMetadataKey =
     ''PV_SYNTHETIC_METADATA_KEY_B64 must be 32 bytes encoded as base64url without padding''"
| "config_error_text InvalidSyntheticTrafficToken =
     ''PV_SYNTHETIC_TRAFFIC_TOKEN must be at least '' @ dec MIN_SYNTHETIC_TRAFFIC_TOKEN_BYTES
       @ '' bytes after trimming''"
| "config_error_text InvalidTotpSeedKey =
     ''PV_TOTP_SEED_KEY_B64 must be 32 bytes encoded as base64url without padding''"

definition parse_bool :: "string \<Rightarrow> bool option" where
  "parse_bool value =
     (let v = to_ascii_lowercase (trim value) in
      if v \<in> {''1'', ''true'', ''yes''} then Some True
      else if v \<in> {''0'', ''false'', ''no''} then Some False
      else None)"

definition nonempty_string :: "string \<Rightarrow> string option" where
  "nonempty_string value = (if trim value \<noteq> [] then Some (trim value) else None)"

definition validate_synthetic_traffic_token :: "string \<Rightarrow> config_error + string" where
  "validate_synthetic_traffic_token value =
     (if length (trim value) < MIN_SYNTHETIC_TRAFFIC_TOKEN_BYTES then Inl InvalidSyntheticTrafficToken
      else Inr (trim value))"

text \<open>\<open>env::var(name).ok().and_then(nonempty_string).map(f).transpose()\<close>, and a switch that is off
  where its variable is not set.\<close>

definition setting :: "process_env \<Rightarrow> string \<Rightarrow> string option" where
  "setting getenv name = Option.bind (getenv name) nonempty_string"

definition setting_with :: "process_env \<Rightarrow> string \<Rightarrow> (string \<Rightarrow> config_error + 'a) \<Rightarrow> config_error + 'a option" where
  "setting_with getenv name f =
     (case setting getenv name of
        None \<Rightarrow> Inr None
      | Some value \<Rightarrow> and_then (f value) (\<lambda>a. Inr (Some a)))"

definition switch :: "process_env \<Rightarrow> string \<Rightarrow> config_error \<Rightarrow> config_error + bool" where
  "switch getenv name error =
     (case getenv name of None \<Rightarrow> Inr False | Some value \<Rightarrow> ok_or error (parse_bool value))"

definition key_setting :: "externals \<Rightarrow> process_env \<Rightarrow> string \<Rightarrow> config_error \<Rightarrow> config_error + bytes option" where
  "key_setting X getenv name error =
     setting_with getenv name (\<lambda>value. map_err (\<lambda>_. error) (decode_base64url_array X 32 value))"

definition address_setting :: "process_env \<Rightarrow> string \<Rightarrow> string \<Rightarrow> config_error \<Rightarrow> config_error + socket_addr" where
  "address_setting getenv name default_addr error =
     ok_or error (parse_socket_addr (case getenv name of None \<Rightarrow> default_addr | Some value \<Rightarrow> value))"

definition config_from_env :: "externals \<Rightarrow> process_env \<Rightarrow> config_error + api_config" where
  "config_from_env X getenv =
     and_then (address_setting getenv ''PV_BIND_ADDR'' ''0.0.0.0:8080'' InvalidBindAddr) (\<lambda>bind_addr.
     and_then (address_setting getenv ''PV_METRICS_BIND_ADDR'' ''0.0.0.0:9090'' InvalidMetricsBindAddr)
       (\<lambda>metrics_bind_addr.
     and_then (switch getenv ''PV_REQUIRE_DATABASE'' InvalidRequireDatabase) (\<lambda>require_database.
     let database_url_present = setting getenv ''PV_DATABASE_URL'' in
     and_then (key_setting X getenv ''PV_SYNTHETIC_METADATA_KEY_B64'' InvalidSyntheticMetadataKey)
       (\<lambda>synthetic_metadata_key.
     and_then (setting_with getenv ''PV_SYNTHETIC_TRAFFIC_TOKEN'' validate_synthetic_traffic_token)
       (\<lambda>synthetic_traffic_token.
     and_then (key_setting X getenv ''PV_TOTP_SEED_KEY_B64'' InvalidTotpSeedKey) (\<lambda>totp_seed_key.
     and_then (switch getenv ''PV_RUN_MIGRATIONS_ON_STARTUP'' InvalidRunMigrationsOnStartup)
       (\<lambda>run_migrations_on_startup.
     Inr \<lparr>ac_bind_addr = bind_addr, ac_metrics_bind_addr = metrics_bind_addr,
          ac_database_url = database_url_present, ac_synthetic_metadata_key = synthetic_metadata_key,
          ac_synthetic_traffic_token = synthetic_traffic_token, ac_totp_seed_key = totp_seed_key,
          ac_require_database = require_database,
          ac_run_migrations_on_startup = run_migrations_on_startup\<rparr>)))))))"

definition database_url_present :: "api_config \<Rightarrow> bool" where
  "database_url_present c \<longleftrightarrow> ac_database_url c \<noteq> None"

text \<open>\<open>Debug\<close>: the fields that \<open>debug_struct\<close> is given, in its order.\<close>

datatype debug_value = DebugAddr socket_addr | DebugText "string option" | DebugBool bool

definition debug_fields :: "api_config \<Rightarrow> (string \<times> debug_value) list" where
  "debug_fields c =
     [(''bind_addr'', DebugAddr (ac_bind_addr c)),
      (''metrics_bind_addr'', DebugAddr (ac_metrics_bind_addr c)),
      (''database_url'', DebugText (map_option (\<lambda>_. ''<configured>'') (ac_database_url c))),
      (''synthetic_metadata_key'', DebugText (map_option (\<lambda>_. ''<redacted>'') (ac_synthetic_metadata_key c))),
      (''synthetic_traffic_token'', DebugText (map_option (\<lambda>_. ''<redacted>'') (ac_synthetic_traffic_token c))),
      (''totp_seed_key'', DebugText (map_option (\<lambda>_. ''<redacted>'') (ac_totp_seed_key c))),
      (''require_database'', DebugBool (ac_require_database c)),
      (''run_migrations_on_startup'', DebugBool (ac_run_migrations_on_startup c))]"

section \<open>The state of the application\<close>

text \<open>Errors of the sqlx crate, of which the code distinguishes the kind only.\<close>

datatype sqlx_error =
    PoolTimedOut | PoolClosed | DatabaseError | IoError | TlsError | ConfigurationError | ProtocolError
  | RowNotFound | TypeNotFound | ColumnIndexOutOfBounds | ColumnNotFound | ColumnDecode | DecodeError
  | AnyDriverError | MigrateError | OtherError

fun sqlx_error_class :: "sqlx_error \<Rightarrow> string" where
  "sqlx_error_class PoolTimedOut = ''pool_timeout''"
| "sqlx_error_class PoolClosed = ''pool_closed''"
| "sqlx_error_class DatabaseError = ''database''"
| "sqlx_error_class IoError = ''io''"
| "sqlx_error_class TlsError = ''tls''"
| "sqlx_error_class ConfigurationError = ''configuration''"
| "sqlx_error_class ProtocolError = ''protocol''"
| "sqlx_error_class RowNotFound = ''row_not_found''"
| "sqlx_error_class TypeNotFound = ''type_not_found''"
| "sqlx_error_class ColumnIndexOutOfBounds = ''decode''"
| "sqlx_error_class ColumnNotFound = ''decode''"
| "sqlx_error_class ColumnDecode = ''decode''"
| "sqlx_error_class DecodeError = ''decode''"
| "sqlx_error_class AnyDriverError = ''driver''"
| "sqlx_error_class MigrateError = ''migration''"
| "sqlx_error_class OtherError = ''other''"

text \<open>What the crate does with a URL: connecting at once, preparing a pool that connects later, and
  running the embedded migrations on a pool.\<close>

record sqlx_driver =
  sd_connect :: "string \<Rightarrow> sqlx_error + unit"
  sd_connect_lazy :: "string \<Rightarrow> sqlx_error + unit"
  sd_run_migrations :: "string \<Rightarrow> sqlx_error + unit"

datatype api_init_error = InitDatabase sqlx_error | InitMigration sqlx_error

fun api_init_error_text :: "api_init_error \<Rightarrow> string" where
  "api_init_error_text (InitDatabase _) = ''database connection failed''"
| "api_init_error_text (InitMigration _) = ''database migration failed''"

text \<open>\<open>database\<close> holds the URL of the pool that was opened.\<close>

record app_state =
  st_config :: api_config
  st_database :: "string option"

definition run_database_migrations :: "sqlx_driver \<Rightarrow> string \<Rightarrow> api_init_error + unit" where
  "run_database_migrations D url =
     and_then (map_err InitDatabase (sd_connect D url)) (\<lambda>_.
     map_err InitMigration (sd_run_migrations D url))"

definition build_state :: "sqlx_driver \<Rightarrow> api_config \<Rightarrow> api_init_error + app_state" where
  "build_state D c =
     (case ac_database_url c of
        Some url \<Rightarrow>
          if ac_run_migrations_on_startup c
          then and_then (map_err InitDatabase (sd_connect D url)) (\<lambda>_.
               and_then (map_err InitMigration (sd_run_migrations D url)) (\<lambda>_.
               Inr \<lparr>st_config = c, st_database = Some url\<rparr>))
          else and_then (map_err InitDatabase (sd_connect_lazy D url)) (\<lambda>_.
               Inr \<lparr>st_config = c, st_database = Some url\<rparr>)
      | None \<Rightarrow> Inr \<lparr>st_config = c, st_database = None\<rparr>)"

text \<open>The middleware around every route: a request is served with the configuration of the state and
  with the traffic class that its headers give it.\<close>

definition handler_config :: "app_state \<Rightarrow> app_config" where
  "handler_config s =
     \<lparr>cf_synthetic_metadata_key = ac_synthetic_metadata_key (st_config s),
      cf_totp_seed_key = ac_totp_seed_key (st_config s), cf_database = (st_database s \<noteq> None)\<rparr>"

definition scope_request_traffic_class :: "app_state \<Rightarrow> headers \<Rightarrow> env \<Rightarrow> env" where
  "scope_request_traffic_class s h e =
     e\<lparr>conf := handler_config s,
       traffic_class := traffic_class_from_headers h (ac_synthetic_traffic_token (st_config s))\<rparr>"

section \<open>Readiness and health\<close>

definition db_pool_wait_duration :: "string \<Rightarrow> string \<Rightarrow> ('e, unit) io" where
  "db_pool_wait_duration operation outcome =
     emit ''password_vault_db_pool_wait_duration_seconds'' [(''operation'', operation), (''outcome'', outcome)]"

definition db_query_duration :: "string \<Rightarrow> string \<Rightarrow> ('e, unit) io" where
  "db_query_duration operation outcome =
     emit ''password_vault_db_query_duration_seconds'' [(''operation'', operation), (''outcome'', outcome)]"

text \<open>Acquiring a connection and the trivial query are two calls that can fail; \<open>err\<close> gives the kind of
  the error at a position of the fault stream.\<close>

definition sqlx_call :: "(nat \<Rightarrow> sqlx_error) \<Rightarrow> (sqlx_error, unit) io" where
  "sqlx_call err = (\<lambda>e w. map_err_io (\<lambda>_. err (w_tick w)) (run_pool (query (\<lambda>_. ()))) e w)"

definition ping :: "(nat \<Rightarrow> sqlx_error) \<Rightarrow> (sqlx_error, unit) io" where
  "ping err =
     (let operation = ''readyz_ping'' in
      try_io (attempt (sqlx_call err)) (\<lambda>connection.
      case connection of
        Inl error \<Rightarrow>
          try_io (db_pool_wait_duration operation ''error'') (\<lambda>_.
          try_io (db_error operation (sqlx_error_class error)) (\<lambda>_.
          throw error))
      | Inr _ \<Rightarrow>
          try_io (db_pool_wait_duration operation ''success'') (\<lambda>_.
          try_io (attempt (sqlx_call err)) (\<lambda>result.
          case result of
            Inr _ \<Rightarrow> db_query_duration operation ''success''
          | Inl error \<Rightarrow>
              try_io (db_query_duration operation ''error'') (\<lambda>_.
              try_io (db_error operation (sqlx_error_class error)) (\<lambda>_.
              throw error))))))"

definition database_readiness :: "(nat \<Rightarrow> sqlx_error) \<Rightarrow> app_state \<Rightarrow> ('e, string) io" where
  "database_readiness err s =
     (if st_database s \<noteq> None
      then try_io (attempt (ping err)) (\<lambda>r. ret (case r of Inr _ \<Rightarrow> ''ok'' | Inl _ \<Rightarrow> ''unavailable''))
      else ret (if ac_require_database (st_config s) \<and> database_url_present (st_config s) then ''unavailable''
                else if ac_require_database (st_config s) then ''missing''
                else ''ok''))"

definition synthetic_metadata_key_readiness :: "app_state \<Rightarrow> string" where
  "synthetic_metadata_key_readiness s =
     (if database_url_present (st_config s) \<or> ac_require_database (st_config s)
      then if ac_synthetic_metadata_key (st_config s) \<noteq> None then ''ok'' else ''missing''
      else ''ok'')"

definition totp_seed_key_readiness :: "app_state \<Rightarrow> string" where
  "totp_seed_key_readiness s =
     (if database_url_present (st_config s) \<or> ac_require_database (st_config s)
      then if ac_totp_seed_key (st_config s) \<noteq> None then ''ok'' else ''missing''
      else ''ok'')"

record ready_check =
  rk_name :: string
  rk_status :: string

record ready_response =
  ry_status :: string
  ry_checks :: "ready_check list"

definition readyz :: "(nat \<Rightarrow> sqlx_error) \<Rightarrow> app_state \<Rightarrow> ('e, nat \<times> ready_response) io" where
  "readyz err s =
     try_io (database_readiness err s) (\<lambda>database_status.
     let database_ready = (database_status = ''ok'');
         synthetic_metadata_key_status = synthetic_metadata_key_readiness s;
         synthetic_metadata_key_ready = (synthetic_metadata_key_status = ''ok'');
         totp_seed_key_status = totp_seed_key_readiness s;
         totp_seed_key_ready = (totp_seed_key_status = ''ok'') in
     ret (if database_ready \<and> synthetic_metadata_key_ready \<and> totp_seed_key_ready then 200 else 503,
       \<lparr>ry_status = (if database_ready \<and> synthetic_metadata_key_ready \<and> totp_seed_key_ready
          then ''ready'' else ''not_ready''),
        ry_checks = [\<lparr>rk_name = ''database_config'', rk_status = database_status\<rparr>,
          \<lparr>rk_name = ''synthetic_metadata_key'', rk_status = synthetic_metadata_key_status\<rparr>,
          \<lparr>rk_name = ''totp_seed_key'', rk_status = totp_seed_key_status\<rparr>]\<rparr>))"

record health_response =
  he_status :: string
  he_service :: string
  he_version :: string

text \<open>The version is the one of \<^verbatim>\<open>crates/api/Cargo.toml\<close>.\<close>

definition healthz :: health_response where
  "healthz = \<lparr>he_status = ''ok'', he_service = ''password-vault-api'', he_version = ''0.1.0''\<rparr>"


section \<open>The browser application\<close>

text \<open>\<open>quoted s\<close> is \<open>s\<close> between apostrophes, as the sources of a policy are written.\<close>

definition quoted :: "string \<Rightarrow> string" where
  "quoted s = CHR 0x27 # s @ [CHR 0x27]"

definition BROWSER_APP_CONTENT_SECURITY_POLICY :: string where
  "BROWSER_APP_CONTENT_SECURITY_POLICY =
     ''default-src '' @ quoted ''none'' @ ''; ''
     @ ''base-uri '' @ quoted ''none'' @ ''; ''
     @ ''connect-src '' @ quoted ''self'' @ ''; ''
     @ ''font-src '' @ quoted ''none'' @ ''; ''
     @ ''form-action '' @ quoted ''self'' @ ''; ''
     @ ''frame-ancestors '' @ quoted ''none'' @ ''; ''
     @ ''frame-src '' @ quoted ''none'' @ ''; ''
     @ ''img-src '' @ quoted ''self'' @ '' data:; ''
     @ ''manifest-src '' @ quoted ''self'' @ ''; ''
     @ ''media-src '' @ quoted ''none'' @ ''; ''
     @ ''object-src '' @ quoted ''none'' @ ''; ''
     @ ''script-src '' @ quoted ''self'' @ ''; ''
     @ ''style-src '' @ quoted ''self'' @ ''; ''
     @ ''worker-src '' @ quoted ''none''"

definition BROWSER_APP_PERMISSIONS_POLICY :: string where
  "BROWSER_APP_PERMISSIONS_POLICY =
     ''camera=(), '' @ ''microphone=(), '' @ ''geolocation=(), '' @ ''payment=(), '' @ ''usb=(), ''
     @ ''serial=(), '' @ ''hid=(), '' @ ''bluetooth=()''"

definition browser_app_headers :: headers where
  "browser_app_headers =
     (\<lambda>_. None)(''cache-control'' \<mapsto> ''no-store, max-age=0'', ''pragma'' \<mapsto> ''no-cache'', ''expires'' \<mapsto> ''0'',
       ''content-security-policy'' \<mapsto> BROWSER_APP_CONTENT_SECURITY_POLICY,
       ''x-content-type-options'' \<mapsto> ''nosniff'', ''x-frame-options'' \<mapsto> ''DENY'',
       ''referrer-policy'' \<mapsto> ''no-referrer'', ''permissions-policy'' \<mapsto> BROWSER_APP_PERMISSIONS_POLICY,
       ''cross-origin-opener-policy'' \<mapsto> ''same-origin'',
       ''cross-origin-resource-policy'' \<mapsto> ''same-origin'')"

definition browser_app_response :: "string \<Rightarrow> string \<Rightarrow> headers \<times> string" where
  "browser_app_response content_type body =
     (browser_app_headers(''content-type'' \<mapsto> content_type), body)"

section \<open>The command line\<close>

datatype main_error =
    UnknownCommand string
  | CommandError command_error
  | ConfigError config_error
  | ListenError socket_addr
  | InitError api_init_error

text \<open>What a run of the program comes to: the migrations are done, a cleanup is reported, or the two
  servers run, the one of the API with its state.\<close>

datatype main_outcome = Migrated | Cleaned cleanup_report | Serving app_state

definition run_migrations_and_exit :: "sqlx_driver \<Rightarrow> process_env \<Rightarrow> main_error + unit" where
  "run_migrations_and_exit D getenv =
     and_then (map_err CommandError (required_database_url getenv)) (\<lambda>url.
     map_err InitError (run_database_migrations D url))"

definition start_api :: "externals \<Rightarrow> sqlx_driver \<Rightarrow> (socket_addr \<Rightarrow> bool) \<Rightarrow> process_env \<Rightarrow> main_error + app_state" where
  "start_api X D bind getenv =
     and_then (map_err ConfigError (config_from_env X getenv)) (\<lambda>config.
     and_then (ensure (bind (ac_bind_addr config)) (ListenError (ac_bind_addr config))) (\<lambda>_.
     and_then (ensure (bind (ac_metrics_bind_addr config)) (ListenError (ac_metrics_bind_addr config))) (\<lambda>_.
     map_err InitError (build_state D config))))"

definition main :: "sqlx_driver \<Rightarrow> (socket_addr \<Rightarrow> bool) \<Rightarrow> process_env \<Rightarrow> string list \<Rightarrow> (main_error, main_outcome) io" where
  "main D bind getenv args =
     (case args of
        cmd # rest \<Rightarrow>
          if cmd = ''migrate''
          then try_io (lift (run_migrations_and_exit D getenv)) (\<lambda>_. ret Migrated)
          else if cmd = ''cleanup-synthetic''
          then try_io (map_err_io CommandError (run_synthetic_cleanup getenv rest)) (\<lambda>report. ret (Cleaned report))
          else throw (UnknownCommand cmd)
      | [] \<Rightarrow> try_io ask (\<lambda>e. try_io (lift (start_api (ext e) D bind getenv)) (\<lambda>s. ret (Serving s))))"

section \<open>Reading the configuration\<close>

definition good_address :: "process_env \<Rightarrow> string \<Rightarrow> bool" where
  "good_address getenv name \<longleftrightarrow>
     (case getenv name of None \<Rightarrow> True | Some value \<Rightarrow> parse_socket_addr value \<noteq> None)"

definition good_switch :: "process_env \<Rightarrow> string \<Rightarrow> bool" where
  "good_switch getenv name \<longleftrightarrow>
     (case getenv name of None \<Rightarrow> True | Some value \<Rightarrow> parse_bool value \<noteq> None)"

definition good_key :: "externals \<Rightarrow> process_env \<Rightarrow> string \<Rightarrow> bool" where
  "good_key X getenv name \<longleftrightarrow>
     (case setting getenv name of
        None \<Rightarrow> True
      | Some value \<Rightarrow> (case base64url_decode X value of None \<Rightarrow> False | Some b \<Rightarrow> length b = 32))"

definition good_token :: "process_env \<Rightarrow> string \<Rightarrow> bool" where
  "good_token getenv name \<longleftrightarrow> (case setting getenv name of None \<Rightarrow> True | Some value \<Rightarrow> 32 \<le> length value)"

text \<open>The variable that an error is about is as it should be.\<close>

fun well_set :: "externals \<Rightarrow> process_env \<Rightarrow> config_error \<Rightarrow> bool" where
  "well_set X getenv InvalidBindAddr = good_address getenv ''PV_BIND_ADDR''"
| "well_set X getenv InvalidMetricsBindAddr = good_address getenv ''PV_METRICS_BIND_ADDR''"
| "well_set X getenv InvalidRequireDatabase = good_switch getenv ''PV_REQUIRE_DATABASE''"
| "well_set X getenv InvalidSyntheticMetadataKey = good_key X getenv ''PV_SYNTHETIC_METADATA_KEY_B64''"
| "well_set X getenv InvalidSyntheticTrafficToken = good_token getenv ''PV_SYNTHETIC_TRAFFIC_TOKEN''"
| "well_set X getenv InvalidTotpSeedKey = good_key X getenv ''PV_TOTP_SEED_KEY_B64''"
| "well_set X getenv InvalidRunMigrationsOnStartup = good_switch getenv ''PV_RUN_MIGRATIONS_ON_STARTUP''"

lemma setting_trimmed: "setting getenv name = Some v \<Longrightarrow> trim v = v \<and> v \<noteq> []"
  by (auto simp: setting_def nonempty_string_def bind_eq_Some_conv split: if_splits)

lemma address_setting_cases:
  assumes "parse_socket_addr default_addr \<noteq> None"
  shows "(\<exists>a. address_setting getenv name default_addr error = Inr a) = good_address getenv name"
    and "address_setting getenv name default_addr error = Inl x \<Longrightarrow> x = error \<and> \<not> good_address getenv name"
  using assms by (auto simp: address_setting_def good_address_def ok_or_def split: option.splits)

lemma switch_cases:
  "(\<exists>b. switch getenv name error = Inr b) = good_switch getenv name"
  "switch getenv name error = Inl x \<Longrightarrow> x = error \<and> \<not> good_switch getenv name"
  by (auto simp: switch_def good_switch_def ok_or_def split: option.splits)

lemma key_setting_cases:
  "(\<exists>k. key_setting X getenv name error = Inr k) = good_key X getenv name"
  "key_setting X getenv name error = Inl x \<Longrightarrow> x = error \<and> \<not> good_key X getenv name"
  by (auto simp: key_setting_def setting_with_def good_key_def decode_base64url_array_def
      decode_base64url_def and_then_def map_err_def ok_or_def split: option.splits sum.splits if_splits)

lemma token_setting_cases:
  "(\<exists>t. setting_with getenv name validate_synthetic_traffic_token = Inr t) = good_token getenv name"
  "setting_with getenv name validate_synthetic_traffic_token = Inl x
     \<Longrightarrow> x = InvalidSyntheticTrafficToken \<and> \<not> good_token getenv name"
  by (auto simp: setting_with_def good_token_def validate_synthetic_traffic_token_def and_then_def
      MIN_SYNTHETIC_TRAFFIC_TOKEN_BYTES_def dest: setting_trimmed split: option.splits sum.splits if_splits)

definition key_value :: "externals \<Rightarrow> process_env \<Rightarrow> string \<Rightarrow> bytes option" where
  "key_value X getenv name = Option.bind (setting getenv name) (base64url_decode X)"

lemma key_setting_value:
  "key_setting X getenv name error = Inr k \<Longrightarrow> k = key_value X getenv name \<and> (k = None) = (setting getenv name = None)
     \<and> opt_all (\<lambda>b. length b = 32) k"
  by (auto simp: key_setting_def setting_with_def key_value_def decode_base64url_array_def
      decode_base64url_def and_then_def map_err_def ok_or_def opt_all_def split: option.splits sum.splits if_splits)

lemma token_setting_value:
  "setting_with getenv name validate_synthetic_traffic_token = Inr t \<Longrightarrow> t = setting getenv name"
  by (auto simp: setting_with_def validate_synthetic_traffic_token_def and_then_def
      dest: setting_trimmed split: option.splits sum.splits if_splits)

lemma config_from_env_Inr:
  assumes "config_from_env X getenv = Inr c"
  shows "ac_database_url c = setting getenv ''PV_DATABASE_URL''
    \<and> ac_synthetic_metadata_key c = key_value X getenv ''PV_SYNTHETIC_METADATA_KEY_B64''
    \<and> ac_totp_seed_key c = key_value X getenv ''PV_TOTP_SEED_KEY_B64''
    \<and> ac_synthetic_traffic_token c = setting getenv ''PV_SYNTHETIC_TRAFFIC_TOKEN''
    \<and> (ac_synthetic_metadata_key c = None) = (setting getenv ''PV_SYNTHETIC_METADATA_KEY_B64'' = None)
    \<and> (ac_totp_seed_key c = None) = (setting getenv ''PV_TOTP_SEED_KEY_B64'' = None)
    \<and> opt_all (\<lambda>b. length b = 32) (ac_synthetic_metadata_key c)
    \<and> opt_all (\<lambda>b. length b = 32) (ac_totp_seed_key c)"
  using assms by (auto simp: config_from_env_def and_then_Inr_iff Let_def
      dest: key_setting_value token_setting_value)

lemma default_address_cases:
  "(\<exists>a. address_setting getenv name ''0.0.0.0:8080'' error = Inr a) = good_address getenv name"
  "address_setting getenv name ''0.0.0.0:8080'' error = Inl x \<Longrightarrow> x = error \<and> \<not> good_address getenv name"
  "(\<exists>a. address_setting getenv name ''0.0.0.0:9090'' error = Inr a) = good_address getenv name"
  "address_setting getenv name ''0.0.0.0:9090'' error = Inl x \<Longrightarrow> x = error \<and> \<not> good_address getenv name"
  using address_setting_cases [of "''0.0.0.0:8080''"] address_setting_cases [of "''0.0.0.0:9090''"]
  by (simp_all only: default_addresses option.distinct not_False_eq_True)

lemma config_from_env_rejects:
  assumes "config_from_env X getenv = Inl x"
  shows "\<not> well_set X getenv x"
  using assms
  by (auto simp: config_from_env_def and_then_Inl_iff Let_def default_addresses
      dest!: default_address_cases(2,4) switch_cases(2) key_setting_cases(2) token_setting_cases(2))

lemma config_from_env_accepts:
  assumes "config_from_env X getenv = Inr c"
  shows "well_set X getenv x"
proof -
  from assms have
    "\<exists>a. address_setting getenv ''PV_BIND_ADDR'' ''0.0.0.0:8080'' InvalidBindAddr = Inr a"
    "\<exists>a. address_setting getenv ''PV_METRICS_BIND_ADDR'' ''0.0.0.0:9090'' InvalidMetricsBindAddr = Inr a"
    "\<exists>b. switch getenv ''PV_REQUIRE_DATABASE'' InvalidRequireDatabase = Inr b"
    "\<exists>k. key_setting X getenv ''PV_SYNTHETIC_METADATA_KEY_B64'' InvalidSyntheticMetadataKey = Inr k"
    "\<exists>t. setting_with getenv ''PV_SYNTHETIC_TRAFFIC_TOKEN'' validate_synthetic_traffic_token = Inr t"
    "\<exists>k. key_setting X getenv ''PV_TOTP_SEED_KEY_B64'' InvalidTotpSeedKey = Inr k"
    "\<exists>b. switch getenv ''PV_RUN_MIGRATIONS_ON_STARTUP'' InvalidRunMigrationsOnStartup = Inr b"
    by (auto simp: config_from_env_def and_then_Inr_iff Let_def)
  then show ?thesis
    unfolding switch_cases(1) key_setting_cases(1) token_setting_cases(1)
    by (cases x) (simp_all add: default_address_cases(1,3))
qed

text \<open>C35. Reading the configuration fails closed. It is refused exactly when a variable is malformed,
  the error names a variable that is; otherwise every secret is what its variable decodes to, and is
  absent only where the variable is unset or blank, both keys have 32 bytes, and the token for synthetic
  traffic is the trimmed variable.\<close>

theorem config_from_env_exact:
  "case config_from_env X getenv of
     Inl error \<Rightarrow> \<not> well_set X getenv error
   | Inr c \<Rightarrow> (\<forall>error. well_set X getenv error)
       \<and> ac_database_url c = setting getenv ''PV_DATABASE_URL''
       \<and> ac_synthetic_traffic_token c = setting getenv ''PV_SYNTHETIC_TRAFFIC_TOKEN''
       \<and> ac_synthetic_metadata_key c = key_value X getenv ''PV_SYNTHETIC_METADATA_KEY_B64''
       \<and> ac_totp_seed_key c = key_value X getenv ''PV_TOTP_SEED_KEY_B64''
       \<and> (ac_synthetic_metadata_key c = None) = (setting getenv ''PV_SYNTHETIC_METADATA_KEY_B64'' = None)
       \<and> (ac_totp_seed_key c = None) = (setting getenv ''PV_TOTP_SEED_KEY_B64'' = None)
       \<and> opt_all (\<lambda>b. length b = 32) (ac_synthetic_metadata_key c)
       \<and> opt_all (\<lambda>b. length b = 32) (ac_totp_seed_key c)"
proof (cases "config_from_env X getenv")
  case (Inl error)
  then show ?thesis using config_from_env_rejects by simp
next
  case (Inr c)
  show ?thesis
    using config_from_env_Inr [OF Inr] config_from_env_accepts [OF Inr] unfolding Inr sum.case by blast
qed

text \<open>The debug form depends on the secrets only through their presence.\<close>

lemma debug_fields_hide_secrets:
  "debug_fields (c\<lparr>ac_database_url := map_option url (ac_database_url c),
     ac_synthetic_metadata_key := map_option key (ac_synthetic_metadata_key c),
     ac_synthetic_traffic_token := map_option token (ac_synthetic_traffic_token c),
     ac_totp_seed_key := map_option seed (ac_totp_seed_key c)\<rparr>) = debug_fields c"
  by (simp add: debug_fields_def option.map_comp comp_def)

text \<open>The configured token, presented as it is configured, makes traffic synthetic.\<close>

lemma configured_token_is_accepted:
  assumes "config_from_env X getenv = Inr c" and "getenv ''PV_SYNTHETIC_TRAFFIC_TOKEN'' = Some token"
    and "trim token \<noteq> []"
    and "h TRAFFIC_CLASS_HEADER = Some ''synthetic''" and "h SYNTHETIC_TRAFFIC_TOKEN_HEADER = Some token"
  shows "traffic_class_from_headers h (ac_synthetic_traffic_token c) = ''synthetic''"
  using assms config_from_env_Inr [OF assms(1)]
  by (simp add: traffic_class_from_headers_def setting_def nonempty_string_def constant_time_token_eq_def
      trim_visible visible_char_def)

section \<open>Readiness\<close>

lemma wp_sqlx_call [wp_eqs]:
  "wp e (sqlx_call err) Q R w =
     (if fault_at e (w_tick w) = Fine then Q () (w\<lparr>w_tick := w_tick w + 1\<rparr>)
      else R (err (w_tick w)) (w\<lparr>w_tick := w_tick w + 1\<rparr>))"
  by (cases "fault_at e (w_tick w)") (simp_all add: wp_def sqlx_call_def map_err_io_def run_pool_def query_def)

definition database_ready :: "env \<Rightarrow> world \<Rightarrow> app_state \<Rightarrow> bool" where
  "database_ready e w s =
     (if st_database s \<noteq> None then fault_at e (w_tick w) = Fine \<and> fault_at e (w_tick w + 1) = Fine
      else \<not> ac_require_database (st_config s))"

definition keys_ready :: "app_state \<Rightarrow> bool" where
  "keys_ready s \<longleftrightarrow> \<not> database_url_present (st_config s) \<and> \<not> ac_require_database (st_config s)
     \<or> ac_synthetic_metadata_key (st_config s) \<noteq> None \<and> ac_totp_seed_key (st_config s) \<noteq> None"

text \<open>\<open>/readyz\<close> never fails and changes nothing; it answers 200 exactly when the database answers (or is not
  required) and, where a database is configured or required, both keys are there.\<close>

lemma readyz_exact:
  "wp e (readyz err s)
     (\<lambda>(status, body) w'. w_db w' = w_db w \<and> w_txn w' = w_txn w
        \<and> status = (if database_ready e w s \<and> keys_ready s then 200 else 503)
        \<and> ry_status body = (if status = 200 then ''ready'' else ''not_ready'')
        \<and> (status = 200) = list_all (\<lambda>c. rk_status c = ''ok'') (ry_checks body)) (\<lambda>_ _. False) w"
  by (auto simp: readyz_def database_readiness_def ping_def Let_def wp_eqs db_pool_wait_duration_def
      db_query_duration_def db_error_def database_ready_def keys_ready_def
      synthetic_metadata_key_readiness_def totp_seed_key_readiness_def)

lemma build_state_Inr:
  assumes "build_state D c = Inr s"
  shows "st_config s = c \<and> st_database s = ac_database_url c"
  using assms by (auto simp: build_state_def and_then_Inr_iff split: option.splits if_splits)

lemma start_api_Inr:
  assumes "start_api X D bind getenv = Inr s"
  shows "config_from_env X getenv = Inr (st_config s) \<and> st_database s = ac_database_url (st_config s)"
  using assms by (auto simp: start_api_def and_then_Inr_iff ensure_def dest: build_state_Inr split: if_splits)

text \<open>C34. A service that reports itself ready can serve. If the process was started from its
  environment with a database URL and \<open>/readyz\<close> answers 200, then the database answered, nothing was
  changed, and every request runs with a pool and with both server keys, 32 bytes each, as the variables
  give them; the checks in the body agree with the status.\<close>

theorem ready_api_serves:
  assumes "start_api X D bind getenv = Inr s"
    and "setting getenv ''PV_DATABASE_URL'' \<noteq> None"
    and "readyz err s e w = (Inr (status, body), w')"
  shows "w_db w' = w_db w \<and> status \<in> {200, 503}
    \<and> (status = 200) = list_all (\<lambda>c. rk_status c = ''ok'') (ry_checks body)
    \<and> (status = 200) = (fault_at e (w_tick w) = Fine \<and> fault_at e (w_tick w + 1) = Fine
         \<and> (\<exists>metadata_key seed_key. length metadata_key = 32 \<and> length seed_key = 32
              \<and> key_value X getenv ''PV_SYNTHETIC_METADATA_KEY_B64'' = Some metadata_key
              \<and> key_value X getenv ''PV_TOTP_SEED_KEY_B64'' = Some seed_key
              \<and> (\<forall>h e'. conf (scope_request_traffic_class s h e') =
                   \<lparr>cf_synthetic_metadata_key = Some metadata_key, cf_totp_seed_key = Some seed_key,
                    cf_database = True\<rparr>)))"
proof -
  note start = start_api_Inr [OF assms(1)]
  note config = config_from_env_Inr [OF start [THEN conjunct1]]
  have answer: "w_db w' = w_db w \<and> status = (if database_ready e w s \<and> keys_ready s then 200 else 503)
      \<and> (status = 200) = list_all (\<lambda>c. rk_status c = ''ok'') (ry_checks body)"
    using wp_result [OF assms(3) readyz_exact] unfolding sum.case prod.case by blast
  have url: "st_database s \<noteq> None" "database_url_present (st_config s)"
    using assms(2) start config by (auto simp: database_url_present_def)
  have keys: "keys_ready s = (\<exists>metadata_key seed_key. length metadata_key = 32 \<and> length seed_key = 32
      \<and> key_value X getenv ''PV_SYNTHETIC_METADATA_KEY_B64'' = Some metadata_key
      \<and> key_value X getenv ''PV_TOTP_SEED_KEY_B64'' = Some seed_key
      \<and> (\<forall>h e'. conf (scope_request_traffic_class s h e') =
           \<lparr>cf_synthetic_metadata_key = Some metadata_key, cf_totp_seed_key = Some seed_key, cf_database = True\<rparr>))"
    using config url by (auto simp: keys_ready_def opt_all_def scope_request_traffic_class_def handler_config_def)
  have db: "database_ready e w s = (fault_at e (w_tick w) = Fine \<and> fault_at e (w_tick w + 1) = Fine)"
    using url by (simp add: database_ready_def)
  from answer have "(status = 200) = (database_ready e w s \<and> keys_ready s)" "status \<in> {200, 503}"
    by (simp_all split: if_splits)
  with answer show ?thesis unfolding db keys by blast
qed

definition ready_env :: process_env where
  "ready_env name =
     (if name = ''PV_DATABASE_URL'' then Some ''db''
      else if name = ''PV_SYNTHETIC_METADATA_KEY_B64'' \<or> name = ''PV_TOTP_SEED_KEY_B64''
      then Some (base64url_encode sample (replicate 32 1))
      else None)"

definition lazy_driver :: sqlx_driver where
  "lazy_driver = \<lparr>sd_connect = (\<lambda>_. Inr ()), sd_connect_lazy = (\<lambda>_. Inr ()), sd_run_migrations = (\<lambda>_. Inr ())\<rparr>"

lemma hex_visible: "list_all visible_char (hex_encode b)"
proof (induction b)
  case (Cons x b)
  have "visible_char (nibble_char n)" if "n < 16" for n
  proof -
    have "list_all visible_char hex_digits" by (simp add: hex_digits_def visible_char_def)
    with that show ?thesis by (simp add: nibble_char_def list_all_length hex_digits_def)
  qed
  moreover have "unat x < 2 ^ LENGTH(8)" by (rule unsigned_less)
  then have "unat x div 16 < 16" "unat x mod 16 < 16" by simp_all
  ultimately show ?case using Cons by simp
qed simp

lemma sample_key_text:
  "trim (base64url_encode sample (replicate 32 1)) = base64url_encode sample (replicate 32 1)"
  "base64url_encode sample (replicate 32 1) \<noteq> []"
  "base64url_decode sample (base64url_encode sample (replicate 32 1)) = Some (replicate 32 1)"
proof -
  have "hex_encode b \<noteq> []" if "b \<noteq> []" for b using that by (cases b) simp_all
  from this [of "replicate 32 1"] show "base64url_encode sample (replicate 32 1) \<noteq> []" by (simp add: sample_def)
qed (simp_all add: sample_def hex_roundtrip trim_visible hex_visible)

lemma ready_settings:
  "setting ready_env ''PV_DATABASE_URL'' = Some ''db''"
  "setting ready_env ''PV_SYNTHETIC_METADATA_KEY_B64'' = Some (base64url_encode sample (replicate 32 1))"
  "setting ready_env ''PV_TOTP_SEED_KEY_B64'' = Some (base64url_encode sample (replicate 32 1))"
  "setting ready_env ''PV_SYNTHETIC_TRAFFIC_TOKEN'' = None"
  by (simp_all add: setting_def ready_env_def nonempty_string_def sample_key_text cleanup_strings)

theorem ready_api_serves_witness:
  "\<exists>s w' body. start_api sample lazy_driver (\<lambda>_. True) ready_env = Inr s
     \<and> readyz (\<lambda>_. IoError) s sample_env (world_of empty_db) = (Inr (200, body) :: api_error + nat \<times> ready_response, w')
     \<and> conf (scope_request_traffic_class s (\<lambda>_. None) sample_env) =
         \<lparr>cf_synthetic_metadata_key = Some (replicate 32 1), cf_totp_seed_key = Some (replicate 32 1),
          cf_database = True\<rparr>"
proof -
  have unset: "ready_env ''PV_BIND_ADDR'' = None" "ready_env ''PV_METRICS_BIND_ADDR'' = None"
    "ready_env ''PV_REQUIRE_DATABASE'' = None" "ready_env ''PV_RUN_MIGRATIONS_ON_STARTUP'' = None"
    by (simp_all add: ready_env_def)
  have keys: "key_setting sample ready_env ''PV_SYNTHETIC_METADATA_KEY_B64'' x = Inr (Some (replicate 32 1))"
    "key_setting sample ready_env ''PV_TOTP_SEED_KEY_B64'' x = Inr (Some (replicate 32 1))" for x
    by (simp_all add: key_setting_def setting_with_def ready_settings decode_base64url_array_def
        decode_base64url_def sample_key_text ok_or_def)
  have "\<exists>s. start_api sample lazy_driver (\<lambda>_. True) ready_env = Inr s"
    by (simp add: start_api_def config_from_env_def address_setting_def switch_def unset default_addresses keys
        setting_with_def ready_settings ok_or_def ensure_def build_state_def lazy_driver_def)
  then obtain s where s: "start_api sample lazy_driver (\<lambda>_. True) ready_env = Inr s" ..
  have url: "setting ready_env ''PV_DATABASE_URL'' \<noteq> None" by (simp add: ready_settings)
  obtain r :: "api_error + nat \<times> ready_response" and w' where run: "readyz (\<lambda>_. IoError) s sample_env (world_of empty_db) = (r, w')" by force
  obtain status body where r: "r = Inr (status, body)"
    using wp_result [OF run readyz_exact] by (cases r) auto
  note serves = ready_api_serves [OF s url run [unfolded r]]
  have "conf (scope_request_traffic_class s h e') = \<lparr>cf_synthetic_metadata_key = Some (replicate 32 1),
      cf_totp_seed_key = Some (replicate 32 1), cf_database = True\<rparr>" for h e'
    using start_api_Inr [OF s] config_from_env_Inr [of sample ready_env "st_config s"]
    by (auto simp: scope_request_traffic_class_def handler_config_def key_value_def ready_settings sample_key_text)
  moreover have "status = 200"
    using serves calculation by (simp add: key_value_def ready_settings sample_key_text)
  ultimately show ?thesis using s run r by (intro exI [of _ s] exI [of _ w'] exI [of _ body]) simp
qed

end
