(* ===== verification/Spec2Isabelle.thy ===== *)
theory Spec2Isabelle
  imports PV_HonestRegistration PV_HonestEnrolment PV_Concurrent PV_Config
begin

text \<open>
  Password Vault: a model of the API crate (\<^verbatim>\<open>crates/api/src\<close>) and of the database schema
  (\<^verbatim>\<open>migrations/*.sql\<close>), with the properties that make the service correct.

  \<^bold>\<open>The program.\<close> The service keeps end-to-end encrypted vaults. A client registers a login handle with a
  SCRAM verifier and its wrapped keys, logs in with a proof over a transcript of the exchange, passes a second
  factor (a TOTP code or a recovery code) or enrols one, and then reads and appends encrypted item revisions.
  Every request runs one handler against PostgreSQL, most of them in one transaction. A session is a row
  whose key is the hash of a random token that the client holds in a cookie; what a session may do depends on
  its state (\<open>mfa_enrollment_required\<close>, \<open>mfa_recovery\<close>, \<open>mfa_verified\<close>). A vault is a chain of revisions
  linked by head hashes, and writers use optimistic concurrency: they name the head that they have seen.
  A maintenance command deletes old accounts of synthetic traffic.

  \<^bold>\<open>How code becomes definitions.\<close> Definitions carry the names of the code. Pure functions are HOL functions
  with errors as \<open>error + value\<close>. A handler is a function of an environment (third-party functions,
  configuration, clock, random source, fault pattern) and a world (database, open transaction, emitted
  metrics); \<open>try_io\<close> is the question mark operator, \<open>run_pool\<close> a statement that commits by itself, \<open>run_tx\<close> a
  statement in the open transaction. Every database call may run, be lost, or run with its reply lost, so
  each property over an arbitrary environment holds for every pattern of failures. Tables are lists of records;
  insertions and updates check the CHECK, UNIQUE and foreign-key constraints of the migrations and fail
  as the server does.

  \<^bold>\<open>Theories.\<close>

    \<^item> \<open>PV_Base\<close>: bytes, UTF-8 strings with the standard library's \<open>trim\<close> and character tests, results, JSON values,
      64-bit wrap-around, instants, and \<open>externals\<close>, the record of third-party functions with their documented
      behaviour as named predicates. \<open>PV_Sample\<close>: an instance of \<open>externals\<close> that satisfies those predicates.
    \<^item> \<open>PV_Encoding\<close>: \<^verbatim>\<open>auth/encoding.rs\<close>, \<^verbatim>\<open>auth/transcript.rs\<close>. \<open>PV_Scram\<close>: \<^verbatim>\<open>auth/scram.rs\<close>.
      \<open>PV_Base32\<close>, \<open>PV_Totp\<close>: \<^verbatim>\<open>auth/totp.rs\<close>.
    \<^item> \<open>PV_Schema\<close>: the migrations. \<open>PV_World\<close>: \<open>ApiError\<close>, responses, the sequencing of effects, and its
      weakest preconditions. \<open>PV_Telemetry\<close>: \<^verbatim>\<open>telemetry.rs\<close>.
    \<^item> \<^verbatim>\<open>auth/routes.rs\<close> (and \<^verbatim>\<open>auth/tokens.rs\<close>): \<open>PV_Session\<close> (cookies, CSRF, request context, \<open>session_status\<close>,
      \<open>csrf_token\<close>, \<open>logout\<close>), \<open>PV_Challenge\<close> (challenges, audit log, rate limit, \<open>register_start\<close>),
      \<open>PV_Register\<close> (\<open>register_finish\<close>), \<open>PV_Login\<close> (\<open>login_start\<close>, \<open>login_finish\<close>), \<open>PV_Recovery\<close>
      (\<open>recovery_code_verify\<close>), \<open>PV_Mfa\<close> (seed custody, \<open>totp_verify\<close>), \<open>PV_Enroll\<close>
      (\<open>totp_enroll_start\<close>, \<open>totp_enroll_confirm\<close>); \<open>PV_HonestRegistration\<close>, \<open>PV_Honest\<close>,
      \<open>PV_SecondFactor\<close> and \<open>PV_HonestEnrolment\<close> (the client that registers, logs in, sets up its authenticator
      and sends its code is let in).
    \<^item> \<^verbatim>\<open>vault.rs\<close>: \<open>PV_Vault\<close> (\<open>list_vaults\<close>, \<open>sync_vault\<close>, \<open>create_item\<close>, \<open>create_item_revision\<close>), \<open>PV_Writers\<close>
      (what an accepted and a refused write does), \<open>PV_VaultLog\<close> (the vault as an append-only log, and
      the abstract ledger), \<open>PV_Sync\<close> (pages and cursors), \<open>PV_Progress\<close> (when a write is accepted), \<open>PV_Concurrent\<close>
      (\<open>sync_vault\<close> with the commits of other requests between its statements).
    \<^item> \<^verbatim>\<open>maintenance.rs\<close>: \<open>PV_Maintenance\<close>. \<^verbatim>\<open>lib.rs\<close>, \<^verbatim>\<open>db.rs\<close>, \<^verbatim>\<open>main.rs\<close>: \<open>PV_Address\<close> (the
      standard library's socket address parser) and \<open>PV_Config\<close> (environment, readiness, state, command line).
    \<^item> The composition: \<open>PV_System\<close> has one constructor per route and the relation \<open>db_step\<close> of all statements and
      commits; \<open>PV_Service\<close> has the invariant \<open>system_ok\<close> and the refinement; \<open>PV_Issued\<close> follows a
      cookie from the answer that sets it to the request that returns it.

  \<^bold>\<open>Lemma groups.\<close> The equations \<open>wp_eqs\<close> compute weakest preconditions, the rules \<open>vc_rules\<close> break a handler
  into verification conditions, and each helper of the code has its rule (\<open>wp_audit_event\<close>, \<open>wp_finish_write\<close> and
  the like). The predicate \<open>moves\<close> says that code outside a transaction changes the database by steps of a relation,
  \<open>goes\<close> the same inside one. The locales \<open>session_steps\<close>, \<open>challenge_steps\<close>, \<open>register_steps\<close>,
  \<open>recovery_steps\<close>, \<open>mfa_steps\<close> and \<open>enroll_steps\<close> state which statements a group of handlers needs from such
  a relation and prove its handlers' moves; \<open>PV_System\<close> interprets all of them on \<open>db_step\<close>.
  Invariants follow by rule induction: unique keys and tokens, consistent sessions, attempts of
  challenges, references to accounts, and for every vault a chain of revisions from the genesis hash to the
  head and gapless revision numbers of every item. The locale \<open>ledger\<close> holds the abstract contract of a
  vault, an append-only sequence that refuses entries not based on its end, interpreted on the model's tables; the
  locales \<open>self_delimiting\<close>, \<open>key_mask\<close> and \<open>replay_guard\<close> hold the contracts of the transcript's fields, of the
  mask of SCRAM keys and of one-time codes.

  \<^bold>\<open>What is shown.\<close>

    \<^item> Over all sequences of requests and cleanup runs and all faults: the invariant, the refinement of the vaults to
      ledgers, the append-only log, and the absence of lost updates.
    \<^item> Reading: a page is the next piece of the log, also when others write while it is read, and following pages ends
      at the head; a listing shows exactly the account's vaults.
    \<^item> Writing: an accepted write is one append on the head it names and a refused one changes nothing, whatever the
      faults; without faults a write is accepted exactly when it is fresh, so no constraint of the
      schema obstructs a valid one.
    \<^item> Authentication: what a successful login, second factor, recovery or enrolment implies; single use of
      challenges, codes and time steps; closing of sessions; uniform answers for unknown handles; atomic registration;
      cookies that open the sessions they were issued for. Conversely, while the database answers, a free
      handle can be registered; a client that computes its proof from the secret behind its verifier gets from
      \<open>login_start\<close> through \<open>login_finish\<close>; it can confirm the secret that \<open>totp_enroll_start\<close> hands out with a code of
      its authenticator; and the code of its authenticator opens the vault, whatever other requests do in between.
    \<^item> Pure parts: round trips and injectivity of the encodings, the SCRAM and TOTP verifiers against their
      definitions, exact conditions of parsers and of the configuration.

  \<^bold>\<open>Bounds.\<close> Sequence numbers are the code's \<open>i64\<close>: increments wrap (\<open>wrap_i64\<close>), and the invariants need no bound on
  them because the CHECK constraints refuse a wrapped number; that a write is accepted assumes a head below \<open>2 ^ 63 - 1\<close>.
  The shift buffer of base32 is a \<open>16 word\<close>, TOTP truncation works on \<open>32 word\<close>. \<open>follow_pages\<close>, the client's loop
  over the pages, takes fuel, and \<open>follow_pages_complete\<close> shows which amount is enough: each page holds at most
  500 changes and advances the cursor. Every function of the model is total.

  \<^bold>\<open>Not modelled.\<close> Interleaving of transactions and row locks: a handler runs to its end, and the database's isolation is
  taken as given; only the separate statements of \<open>sync_vault\<close> are also shown with commits of others between them. Cryptographic strength: HMAC, SHA, the cipher, base64url and date formatting are parameters, and
  injectivity or round trips are assumed by name where they are used; timing, including constant-time comparison, has no counterpart.
  Extraction of paths, queries and JSON bodies, body limits and middleware are the framework's: a request starts
  from the extracted values. The metrics endpoint and exporter, tracing, histograms of durations, signals and graceful shutdown only call
  third-party crates. The browser application, load scripts and deployment files are outside the crate.
\<close>

end
